theory Spec2Isabelle
  imports Complex_Main "HOL-Library.Char_ord" "HOL-Library.List_Lexorder"
begin

section \<open>Data model (types.ts)\<close>

text \<open>
  An hours value (a JavaScript \<open>number\<close>) is modelled as a rational: all the program
  computes on hours is a comparison, a multiplication by 4 (exact on binary floating
  point short of overflow) and a remainder by 1. A sequence number is an integer, as
  the data model and the \<open>INTEGER\<close> column have it. Strings are \<open>char list\<close> with
  the lexicographic order of their code units, which is how JavaScript's \<open><=\<close>, an
  IndexedDB key comparison and SQLite's BINARY collation compare them.
  \<open>null\<close> is \<open>None\<close>; an absent (\<open>undefined\<close>) optional field of an input is \<open>None\<close> of an
  outer option.
\<close>

type_synonym number = rat

record Sprint =
  s_id :: string
  volgnummer :: int
  startdatum :: string
  einddatum :: string

record Goal =
  g_id :: string
  sprint_id :: string
  titel :: string
  g_beschrijving :: string
  eigenaar :: string
  geschatte_uren :: number
  werkelijke_uren :: "number option"
  behaald :: "bool option"
  toelichting :: "string option"
  geleerde_lessen :: "string option"
  aangemaakt_op :: string
  gewijzigd_op :: string

record SuccessCriterion =
  c_id :: string
  goal_id :: string
  c_beschrijving :: string
  voltooid :: bool

record CreateSprintInput =
  in_volgnummer :: int
  in_startdatum :: string
  in_einddatum :: string

record UpdateSprintInput =
  up_volgnummer :: "int option"
  up_startdatum :: "string option"
  up_einddatum :: "string option"

record CreateGoalInput =
  in_sprint_id :: string
  in_titel :: string
  in_beschrijving :: string
  in_eigenaar :: string
  in_geschatte_uren :: number

record UpdateGoalInput =
  up_titel :: "string option"
  up_beschrijving :: "string option"
  up_eigenaar :: "string option"
  up_geschatte_uren :: "number option"
  up_werkelijke_uren :: "number option option"
  up_behaald :: "bool option option"
  up_toelichting :: "string option option"
  up_geleerde_lessen :: "string option option"

text \<open>
  \<open>GoalWithCriteria extends Goal\<close> and \<open>SprintWithGoals extends Sprint\<close> are record
  extensions, as in the source.
\<close>

record GoalWithCriteria = Goal +
  success_criteria :: "SuccessCriterion list"

record SprintWithGoals = Sprint +
  sw_goals :: "GoalWithCriteria list"

record ExportData =
  version :: string
  exported_at :: string
  doc_sprints :: "SprintWithGoals list"

record ImportResult =
  r_sprints :: nat
  r_goals :: nat
  r_criteria :: nat
  skipped :: nat
  errors :: "string list"

record ValidationResult =
  valid :: bool
  v_errors :: "string list"

text \<open>
  The updates handed to \<open>updateSprint\<close>, \<open>updateGoal\<close> and \<open>updateCriterion\<close>: a
  \<open>Partial\<close> of the entity. A key that is absent is \<open>None\<close>, a key that is present holds
  a value of the field's type. The key \<open>id\<close> is not among them: the tables of this
  model are keyed by it, as a primary-key column and an inline-keyed object store are.
\<close>

record SprintUpdates =
  set_volgnummer :: "int option"
  set_startdatum :: "string option"
  set_einddatum :: "string option"

record GoalUpdates =
  set_titel :: "string option"
  set_beschrijving :: "string option"
  set_eigenaar :: "string option"
  set_geschatte_uren :: "number option"
  set_werkelijke_uren :: "number option option"
  set_behaald :: "bool option option"
  set_toelichting :: "string option option"
  set_geleerde_lessen :: "string option option"
  set_gewijzigd_op :: "string option"
  set_sprint_id :: "string option"
  set_aangemaakt_op :: "string option"

record CriterionUpdates =
  set_c_beschrijving :: "string option"
  set_voltooid :: "bool option"
  set_goal_id :: "string option"

text \<open>
  Every \<open>throw\<close> of the source is a value: a JavaScript \<open>Error\<close> with its message, the
  relational backend's constraint failure (\<open>SqliteError\<close>), the embedded backend's
  \<open>ConstraintError\<close> of \<open>Table.add\<close> on an existing key, and the \<open>RangeError\<close> of
  \<open>Date.prototype.toISOString\<close> on an invalid date.
\<close>

datatype error =
  Error string
  | SqliteError string
  | ConstraintError string
  | RangeError string

section \<open>The store\<close>

text \<open>
  All three backends keep three collections keyed by the entity's identifier: the
  tables \<open>sprint\<close>, \<open>goal\<close>, \<open>success_criterion\<close> of the relational schema, the Dexie
  tables \<open>sprints\<close>, \<open>goals\<close>, \<open>criteria\<close>, and the three \<open>Map\<close>s of the mock. A
  collection is the list of its rows in the order they were inserted (the rowid order
  of a table, the insertion order of a \<open>Map\<close>). An IndexedDB object store has no
  insertion order: every read of the Dexie adapter sorts by primary key, then by the
  index it walks.
\<close>

record db =
  sprints :: "Sprint list"
  goals :: "Goal list"
  criteria :: "SuccessCriterion list"

definition empty_db :: db where
  "empty_db = \<lparr>sprints = [], goals = [], criteria = []\<rparr>"

text \<open>Keys are unique in a \<open>Map\<close>, an object store and a primary-key column.\<close>

definition wf_db :: "db \<Rightarrow> bool" where
  "wf_db s = (distinct (map s_id (sprints s)) \<and> distinct (map g_id (goals s))
     \<and> distinct (map c_id (criteria s)))"

datatype backend = SQLite | Dexie | Mock

section \<open>In-memory mock (createMockStorage)\<close>

text \<open>\<open>Map.prototype.set\<close>: an existing key keeps its place, a new key goes last.\<close>

fun map_set :: "('a \<Rightarrow> string) \<Rightarrow> 'a \<Rightarrow> 'a list \<Rightarrow> 'a list" where
  "map_set key v [] = [v]"
| "map_set key v (x # xs) = (if key x = key v then v # xs else x # map_set key v xs)"

definition map_has :: "('a \<Rightarrow> string) \<Rightarrow> string \<Rightarrow> 'a list \<Rightarrow> bool" where
  "map_has key k xs = list_ex (\<lambda>x. key x = k) xs"

definition map_delete :: "('a \<Rightarrow> string) \<Rightarrow> string \<Rightarrow> 'a list \<Rightarrow> 'a list" where
  "map_delete key k xs = filter (\<lambda>x. key x \<noteq> k) xs"

definition mock_createSprint :: "Sprint \<Rightarrow> db \<Rightarrow> (error + unit) \<times> db" where
  "mock_createSprint sp s = (Inr (), s\<lparr>sprints := map_set s_id sp (sprints s)\<rparr>)"

definition mock_getSprintById :: "string \<Rightarrow> db \<Rightarrow> Sprint option" where
  "mock_getSprintById i s = find (\<lambda>x. s_id x = i) (sprints s)"


definition mock_getAllSprints :: "db \<Rightarrow> Sprint list" where
  "mock_getAllSprints s = sort_key volgnummer (sprints s)"

definition apply_sprint_updates :: "SprintUpdates \<Rightarrow> Sprint \<Rightarrow> Sprint" where
  "apply_sprint_updates u x =
     x\<lparr>volgnummer := (case set_volgnummer u of None \<Rightarrow> volgnummer x | Some v \<Rightarrow> v),
       startdatum := (case set_startdatum u of None \<Rightarrow> startdatum x | Some v \<Rightarrow> v),
       einddatum := (case set_einddatum u of None \<Rightarrow> einddatum x | Some v \<Rightarrow> v)\<rparr>"

definition mock_updateSprint :: "string \<Rightarrow> SprintUpdates \<Rightarrow> db \<Rightarrow> (error + unit) \<times> db" where
  "mock_updateSprint i u s =
     (case find (\<lambda>x. s_id x = i) (sprints s) of
        None \<Rightarrow> (Inr (), s)
      | Some existing \<Rightarrow>
          (Inr (), s\<lparr>sprints := map_set s_id (apply_sprint_updates u existing) (sprints s)\<rparr>))"

text \<open>
  The cascade of the mock's \<open>deleteSprint\<close>: the outer loop walks the goals, the inner
  loop the criteria, each deleting by key while it walks.
\<close>

definition mock_delete_criteria_of :: "string \<Rightarrow> SuccessCriterion list \<Rightarrow> SuccessCriterion list" where
  "mock_delete_criteria_of gid cs =
     fold (\<lambda>criterion acc. if goal_id criterion = gid then map_delete c_id (c_id criterion) acc else acc)
       cs cs"

definition mock_deleteSprint :: "string \<Rightarrow> db \<Rightarrow> (error + bool) \<times> db" where
  "mock_deleteSprint i s =
     (let (gs, cs) =
        fold (\<lambda>goal (gs, cs).
                if sprint_id goal = i
                then (map_delete g_id (g_id goal) gs, mock_delete_criteria_of (g_id goal) cs)
                else (gs, cs))
          (goals s) (goals s, criteria s)
      in (Inr (map_has s_id i (sprints s)),
          \<lparr>sprints = map_delete s_id i (sprints s), goals = gs, criteria = cs\<rparr>))"

definition mock_getMaxVolgnummer :: "db \<Rightarrow> int option" where
  "mock_getMaxVolgnummer s =
     fold (\<lambda>sprint mx. (case mx of None \<Rightarrow> Some (volgnummer sprint)
                          | Some m \<Rightarrow> if volgnummer sprint > m then Some (volgnummer sprint) else Some m))
       (sprints s) None"

definition mock_getCurrentSprint :: "string \<Rightarrow> db \<Rightarrow> Sprint option" where
  "mock_getCurrentSprint today s =
     find (\<lambda>sprint. startdatum sprint \<le> today \<and> einddatum sprint \<ge> today) (sprints s)"

definition mock_getLatestSprint :: "db \<Rightarrow> Sprint option" where
  "mock_getLatestSprint s =
     fold (\<lambda>sprint latest. (case latest of None \<Rightarrow> Some sprint
                              | Some l \<Rightarrow> if volgnummer sprint > volgnummer l then Some sprint else Some l))
       (sprints s) None"

definition mock_createGoal :: "Goal \<Rightarrow> db \<Rightarrow> (error + unit) \<times> db" where
  "mock_createGoal g s = (Inr (), s\<lparr>goals := map_set g_id g (goals s)\<rparr>)"

definition mock_getGoalById :: "string \<Rightarrow> db \<Rightarrow> Goal option" where
  "mock_getGoalById i s = find (\<lambda>x. g_id x = i) (goals s)"

text \<open>
  \<open>Array.prototype.sort\<close> with a comparator function is stable: elements the comparator
  does not tell apart keep their order. Insertion from the right gives that order for
  every consistent comparator. The goals are compared by
  \<open>String.prototype.localeCompare\<close> on their creation timestamps: the collation of the
  host's locale, which the mock is given as \<open>lc\<close> (negative, zero or positive).
\<close>

fun insort_by :: "('a \<Rightarrow> 'a \<Rightarrow> int) \<Rightarrow> 'a \<Rightarrow> 'a list \<Rightarrow> 'a list" where
  "insort_by cmp x [] = [x]"
| "insort_by cmp x (y # ys) = (if cmp x y \<le> 0 then x # y # ys else y # insort_by cmp x ys)"

definition sort_by :: "('a \<Rightarrow> 'a \<Rightarrow> int) \<Rightarrow> 'a list \<Rightarrow> 'a list" where
  "sort_by cmp xs = foldr (insort_by cmp) xs []"

type_synonym collation = "string \<Rightarrow> string \<Rightarrow> int"

definition by_aangemaakt_op :: "collation \<Rightarrow> Goal \<Rightarrow> Goal \<Rightarrow> int" where
  "by_aangemaakt_op lc a b = lc (aangemaakt_op a) (aangemaakt_op b)"

definition mock_getGoalsBySprintId :: "collation \<Rightarrow> string \<Rightarrow> db \<Rightarrow> Goal list" where
  "mock_getGoalsBySprintId lc sid s =
     sort_by (by_aangemaakt_op lc) (filter (\<lambda>g. sprint_id g = sid) (goals s))"



text \<open>The object spread \<open>{...existing, ...updates}\<close>: every key of the update is written.\<close>

definition apply_goal_updates :: "GoalUpdates \<Rightarrow> Goal \<Rightarrow> Goal" where
  "apply_goal_updates u g =
     g\<lparr>titel := (case set_titel u of None \<Rightarrow> titel g | Some v \<Rightarrow> v),
       g_beschrijving := (case set_beschrijving u of None \<Rightarrow> g_beschrijving g | Some v \<Rightarrow> v),
       eigenaar := (case set_eigenaar u of None \<Rightarrow> eigenaar g | Some v \<Rightarrow> v),
       geschatte_uren := (case set_geschatte_uren u of None \<Rightarrow> geschatte_uren g | Some v \<Rightarrow> v),
       werkelijke_uren := (case set_werkelijke_uren u of None \<Rightarrow> werkelijke_uren g | Some v \<Rightarrow> v),
       behaald := (case set_behaald u of None \<Rightarrow> behaald g | Some v \<Rightarrow> v),
       toelichting := (case set_toelichting u of None \<Rightarrow> toelichting g | Some v \<Rightarrow> v),
       geleerde_lessen := (case set_geleerde_lessen u of None \<Rightarrow> geleerde_lessen g | Some v \<Rightarrow> v),
       gewijzigd_op := (case set_gewijzigd_op u of None \<Rightarrow> gewijzigd_op g | Some v \<Rightarrow> v),
       sprint_id := (case set_sprint_id u of None \<Rightarrow> sprint_id g | Some v \<Rightarrow> v),
       aangemaakt_op := (case set_aangemaakt_op u of None \<Rightarrow> aangemaakt_op g | Some v \<Rightarrow> v)\<rparr>"

definition mock_updateGoal :: "string \<Rightarrow> GoalUpdates \<Rightarrow> db \<Rightarrow> (error + unit) \<times> db" where
  "mock_updateGoal i u s =
     (case find (\<lambda>x. g_id x = i) (goals s) of
        None \<Rightarrow> (Inr (), s)
      | Some existing \<Rightarrow>
          (Inr (), s\<lparr>goals := map_set g_id (apply_goal_updates u existing) (goals s)\<rparr>))"

definition mock_deleteGoal :: "string \<Rightarrow> db \<Rightarrow> (error + bool) \<times> db" where
  "mock_deleteGoal i s =
     (Inr (map_has g_id i (goals s)),
      s\<lparr>goals := map_delete g_id i (goals s),
        criteria := mock_delete_criteria_of i (criteria s)\<rparr>)"

definition mock_sprintExists :: "string \<Rightarrow> db \<Rightarrow> bool" where
  "mock_sprintExists i s = map_has s_id i (sprints s)"

definition mock_createCriterion :: "SuccessCriterion \<Rightarrow> db \<Rightarrow> (error + unit) \<times> db" where
  "mock_createCriterion c s = (Inr (), s\<lparr>criteria := map_set c_id c (criteria s)\<rparr>)"

definition mock_getCriterionById :: "string \<Rightarrow> db \<Rightarrow> SuccessCriterion option" where
  "mock_getCriterionById i s = find (\<lambda>x. c_id x = i) (criteria s)"

definition mock_getCriteriaByGoalId :: "string \<Rightarrow> db \<Rightarrow> SuccessCriterion list" where
  "mock_getCriteriaByGoalId gid s = filter (\<lambda>c. goal_id c = gid) (criteria s)"

definition apply_criterion_updates :: "CriterionUpdates \<Rightarrow> SuccessCriterion \<Rightarrow> SuccessCriterion" where
  "apply_criterion_updates u c =
     c\<lparr>c_beschrijving := (case set_c_beschrijving u of None \<Rightarrow> c_beschrijving c | Some v \<Rightarrow> v),
       voltooid := (case set_voltooid u of None \<Rightarrow> voltooid c | Some v \<Rightarrow> v),
       goal_id := (case set_goal_id u of None \<Rightarrow> goal_id c | Some v \<Rightarrow> v)\<rparr>"


definition mock_deleteCriterion :: "string \<Rightarrow> db \<Rightarrow> (error + bool) \<times> db" where
  "mock_deleteCriterion i s =
     (Inr (map_has c_id i (criteria s)), s\<lparr>criteria := map_delete c_id i (criteria s)\<rparr>)"

definition mock_goalExists :: "string \<Rightarrow> db \<Rightarrow> bool" where
  "mock_goalExists i s = map_has g_id i (goals s)"

section \<open>Browser-embedded backend (DexieStorage)\<close>

text \<open>
  \<open>by_pk\<close> is the order in which an object store hands out its rows; walking an index
  orders them by the indexed field and, among equal values, by primary key.
  \<open>Table.add\<close> rejects an existing key; \<open>Table.update\<close> and \<open>Table.delete\<close> do nothing
  for a missing one.
\<close>

definition by_pk :: "('a \<Rightarrow> string) \<Rightarrow> 'a list \<Rightarrow> 'a list" where
  "by_pk key xs = sort_key key xs"

definition first_of :: "'a list \<Rightarrow> 'a option" where
  "first_of xs = (case xs of [] \<Rightarrow> None | x # _ \<Rightarrow> Some x)"

definition table_add :: "('a \<Rightarrow> string) \<Rightarrow> 'a \<Rightarrow> 'a list \<Rightarrow> error + 'a list" where
  "table_add key v xs =
     (if map_has key (key v) xs then Inl (ConstraintError ''Key already exists in the object store'')
      else Inr (xs @ [v]))"

definition dexie_createSprint :: "Sprint \<Rightarrow> db \<Rightarrow> (error + unit) \<times> db" where
  "dexie_createSprint sp s =
     (case table_add s_id sp (sprints s) of
        Inl e \<Rightarrow> (Inl e, s)
      | Inr xs \<Rightarrow> (Inr (), s\<lparr>sprints := xs\<rparr>))"

definition dexie_getSprintById :: "string \<Rightarrow> db \<Rightarrow> Sprint option" where
  "dexie_getSprintById i s = find (\<lambda>x. s_id x = i) (sprints s)"


definition dexie_getAllSprints :: "db \<Rightarrow> Sprint list" where
  "dexie_getAllSprints s = sort_key volgnummer (by_pk s_id (sprints s))"

definition dexie_updateSprint :: "string \<Rightarrow> SprintUpdates \<Rightarrow> db \<Rightarrow> (error + unit) \<times> db" where
  "dexie_updateSprint i u s =
     (case find (\<lambda>x. s_id x = i) (sprints s) of
        None \<Rightarrow> (Inr (), s)
      | Some existing \<Rightarrow>
          (Inr (), s\<lparr>sprints := map_set s_id (apply_sprint_updates u existing) (sprints s)\<rparr>))"

definition dexie_deleteSprint :: "string \<Rightarrow> db \<Rightarrow> (error + bool) \<times> db" where
  "dexie_deleteSprint i s =
     (let goalIds = map g_id (filter (\<lambda>g. sprint_id g = i) (by_pk g_id (goals s)));
          cs = (if length goalIds > 0
                then filter (\<lambda>c. goal_id c \<notin> set goalIds) (criteria s)
                else criteria s);
          gs = filter (\<lambda>g. sprint_id g \<noteq> i) (goals s);
          ss = map_delete s_id i (sprints s)
      in (Inr True, \<lparr>sprints = ss, goals = gs, criteria = cs\<rparr>))"

definition dexie_getMaxVolgnummer :: "db \<Rightarrow> int option" where
  "dexie_getMaxVolgnummer s =
     (case first_of (rev (sort_key volgnummer (by_pk s_id (sprints s)))) of
        None \<Rightarrow> None
      | Some l \<Rightarrow> Some (volgnummer l))"

definition dexie_getCurrentSprint :: "string \<Rightarrow> db \<Rightarrow> Sprint option" where
  "dexie_getCurrentSprint today s =
     first_of (rev (filter (\<lambda>x. einddatum x \<ge> today)
       (filter (\<lambda>x. startdatum x \<le> today) (sort_key startdatum (by_pk s_id (sprints s))))))"

definition dexie_getLatestSprint :: "db \<Rightarrow> Sprint option" where
  "dexie_getLatestSprint s = first_of (rev (sort_key volgnummer (by_pk s_id (sprints s))))"

definition dexie_createGoal :: "Goal \<Rightarrow> db \<Rightarrow> (error + unit) \<times> db" where
  "dexie_createGoal g s =
     (case table_add g_id g (goals s) of
        Inl e \<Rightarrow> (Inl e, s)
      | Inr xs \<Rightarrow> (Inr (), s\<lparr>goals := xs\<rparr>))"

definition dexie_getGoalById :: "string \<Rightarrow> db \<Rightarrow> Goal option" where
  "dexie_getGoalById i s = find (\<lambda>x. g_id x = i) (goals s)"

definition dexie_getGoalsBySprintId :: "string \<Rightarrow> db \<Rightarrow> Goal list" where
  "dexie_getGoalsBySprintId sid s =
     sort_key aangemaakt_op (filter (\<lambda>g. sprint_id g = sid) (by_pk g_id (goals s)))"



definition dexie_updateGoal :: "string \<Rightarrow> GoalUpdates \<Rightarrow> db \<Rightarrow> (error + unit) \<times> db" where
  "dexie_updateGoal i u s =
     (case find (\<lambda>x. g_id x = i) (goals s) of
        None \<Rightarrow> (Inr (), s)
      | Some existing \<Rightarrow>
          (Inr (), s\<lparr>goals := map_set g_id (apply_goal_updates u existing) (goals s)\<rparr>))"

definition dexie_deleteGoal :: "string \<Rightarrow> db \<Rightarrow> (error + bool) \<times> db" where
  "dexie_deleteGoal i s =
     (Inr True,
      s\<lparr>goals := map_delete g_id i (goals s),
        criteria := filter (\<lambda>c. goal_id c \<noteq> i) (criteria s)\<rparr>)"

definition dexie_sprintExists :: "string \<Rightarrow> db \<Rightarrow> bool" where
  "dexie_sprintExists i s = (length (filter (\<lambda>x. s_id x = i) (sprints s)) > 0)"

definition dexie_createCriterion :: "SuccessCriterion \<Rightarrow> db \<Rightarrow> (error + unit) \<times> db" where
  "dexie_createCriterion c s =
     (case table_add c_id c (criteria s) of
        Inl e \<Rightarrow> (Inl e, s)
      | Inr xs \<Rightarrow> (Inr (), s\<lparr>criteria := xs\<rparr>))"

definition dexie_getCriterionById :: "string \<Rightarrow> db \<Rightarrow> SuccessCriterion option" where
  "dexie_getCriterionById i s = find (\<lambda>x. c_id x = i) (criteria s)"

definition dexie_getCriteriaByGoalId :: "string \<Rightarrow> db \<Rightarrow> SuccessCriterion list" where
  "dexie_getCriteriaByGoalId gid s = filter (\<lambda>c. goal_id c = gid) (by_pk c_id (criteria s))"


definition dexie_deleteCriterion :: "string \<Rightarrow> db \<Rightarrow> (error + bool) \<times> db" where
  "dexie_deleteCriterion i s = (Inr True, s\<lparr>criteria := map_delete c_id i (criteria s)\<rparr>)"

definition dexie_goalExists :: "string \<Rightarrow> db \<Rightarrow> bool" where
  "dexie_goalExists i s = (length (filter (\<lambda>x. g_id x = i) (goals s)) > 0)"

section \<open>Relational backend (SQLiteStorage, runMigrationV1)\<close>

text \<open>
  The schema's constraints are part of every write: a statement that violates a
  \<open>CHECK\<close>, a \<open>PRIMARY KEY\<close>, a \<open>UNIQUE\<close> or a \<open>REFERENCES\<close> clause throws and changes
  nothing. \<open>ON DELETE CASCADE\<close> (with \<open>foreign_keys = ON\<close>) removes the rows that
  reference a deleted row.
\<close>

definition sprint_checks :: "Sprint \<Rightarrow> bool" where
  "sprint_checks x =
     (length (s_id x) = 36 \<and> volgnummer x > 0 \<and> length (startdatum x) = 10
      \<and> length (einddatum x) = 10 \<and> einddatum x > startdatum x)"

definition opt_all :: "('a \<Rightarrow> bool) \<Rightarrow> 'a option \<Rightarrow> bool" where
  "opt_all P v = (case v of None \<Rightarrow> True | Some x \<Rightarrow> P x)"

definition goal_checks :: "Goal \<Rightarrow> bool" where
  "goal_checks g =
     (length (g_id g) = 36
      \<and> length (titel g) \<le> 200 \<and> length (titel g) > 0
      \<and> length (g_beschrijving g) \<le> 2000
      \<and> length (eigenaar g) \<le> 50 \<and> length (eigenaar g) > 0
      \<and> geschatte_uren g \<ge> 0
      \<and> opt_all (\<lambda>v. v \<ge> 0) (werkelijke_uren g)
      \<and> opt_all (\<lambda>v. length v \<le> 2000) (toelichting g)
      \<and> opt_all (\<lambda>v. length v \<le> 2000) (geleerde_lessen g)
      \<and> length (aangemaakt_op g) \<ge> 20
      \<and> length (gewijzigd_op g) \<ge> 20)"

definition criterion_checks :: "SuccessCriterion \<Rightarrow> bool" where
  "criterion_checks c =
     (length (c_id c) = 36 \<and> length (c_beschrijving c) \<le> 500 \<and> length (c_beschrijving c) > 0)"

text \<open>
  A goal's tri-state flag and a criterion's flag are stored as integers and translated
  at the boundary (\<open>mapDbToGoal\<close>, \<open>mapDbToCriterion\<close>).
\<close>

definition behaald_to_db :: "bool option \<Rightarrow> int option" where
  "behaald_to_db b = (case b of None \<Rightarrow> None | Some v \<Rightarrow> Some (if v then 1 else 0))"

definition behaald_of_db :: "int option \<Rightarrow> bool option" where
  "behaald_of_db n = (case n of None \<Rightarrow> None | Some v \<Rightarrow> Some (v = 1))"

definition voltooid_to_db :: "bool \<Rightarrow> int" where
  "voltooid_to_db b = (if b then 1 else 0)"

definition voltooid_of_db :: "int \<Rightarrow> bool" where
  "voltooid_of_db n = (n = 1)"

definition mapDbToGoal :: "Goal \<Rightarrow> Goal" where
  "mapDbToGoal g = g\<lparr>behaald := behaald_of_db (behaald_to_db (behaald g))\<rparr>"

definition mapDbToCriterion :: "SuccessCriterion \<Rightarrow> SuccessCriterion" where
  "mapDbToCriterion c = c\<lparr>voltooid := voltooid_of_db (voltooid_to_db (voltooid c))\<rparr>"

definition sqlite_createSprint :: "Sprint \<Rightarrow> db \<Rightarrow> (error + unit) \<times> db" where
  "sqlite_createSprint sp s =
     (if \<not> sprint_checks sp then (Inl (SqliteError ''CHECK constraint failed''), s)
      else if map_has s_id (s_id sp) (sprints s)
        then (Inl (SqliteError ''UNIQUE constraint failed: sprint.id''), s)
      else if list_ex (\<lambda>x. volgnummer x = volgnummer sp) (sprints s)
        then (Inl (SqliteError ''UNIQUE constraint failed: sprint.volgnummer''), s)
      else (Inr (), s\<lparr>sprints := sprints s @ [sp]\<rparr>))"

definition sqlite_getSprintById :: "string \<Rightarrow> db \<Rightarrow> Sprint option" where
  "sqlite_getSprintById i s = find (\<lambda>x. s_id x = i) (sprints s)"


definition sqlite_getAllSprints :: "db \<Rightarrow> Sprint list" where
  "sqlite_getAllSprints s = sort_key volgnummer (sprints s)"

definition no_sprint_updates :: "SprintUpdates \<Rightarrow> bool" where
  "no_sprint_updates u = (set_volgnummer u = None \<and> set_startdatum u = None \<and> set_einddatum u = None)"

definition sqlite_updateSprint :: "string \<Rightarrow> SprintUpdates \<Rightarrow> db \<Rightarrow> (error + unit) \<times> db" where
  "sqlite_updateSprint i u s =
     (if no_sprint_updates u then (Inr (), s)
      else case find (\<lambda>x. s_id x = i) (sprints s) of
        None \<Rightarrow> (Inr (), s)
      | Some existing \<Rightarrow>
          (let x = apply_sprint_updates u existing in
           if \<not> sprint_checks x then (Inl (SqliteError ''CHECK constraint failed''), s)
           else if list_ex (\<lambda>y. s_id y \<noteq> i \<and> volgnummer y = volgnummer x) (sprints s)
             then (Inl (SqliteError ''UNIQUE constraint failed: sprint.volgnummer''), s)
           else (Inr (), s\<lparr>sprints := map_set s_id x (sprints s)\<rparr>)))"

definition sqlite_deleteSprint :: "string \<Rightarrow> db \<Rightarrow> (error + bool) \<times> db" where
  "sqlite_deleteSprint i s =
     (let changes = length (filter (\<lambda>x. s_id x = i) (sprints s)) in
      if changes > 0
      then (let dead = map g_id (filter (\<lambda>g. sprint_id g = i) (goals s))
            in (Inr True,
                \<lparr>sprints = filter (\<lambda>x. s_id x \<noteq> i) (sprints s),
                 goals = filter (\<lambda>g. sprint_id g \<noteq> i) (goals s),
                 criteria = filter (\<lambda>c. goal_id c \<notin> set dead) (criteria s)\<rparr>))
      else (Inr False, s))"

definition sqlite_getMaxVolgnummer :: "db \<Rightarrow> int option" where
  "sqlite_getMaxVolgnummer s =
     (case sprints s of [] \<Rightarrow> None
      | x # xs \<Rightarrow> Some (fold max (map volgnummer xs) (volgnummer x)))"

definition sqlite_getCurrentSprint :: "string \<Rightarrow> db \<Rightarrow> Sprint option" where
  "sqlite_getCurrentSprint today s =
     first_of (rev (sort_key volgnummer
       (filter (\<lambda>x. startdatum x \<le> today \<and> einddatum x \<ge> today) (sprints s))))"

definition sqlite_getLatestSprint :: "db \<Rightarrow> Sprint option" where
  "sqlite_getLatestSprint s = first_of (rev (sort_key volgnummer (sprints s)))"

definition sqlite_createGoal :: "Goal \<Rightarrow> db \<Rightarrow> (error + unit) \<times> db" where
  "sqlite_createGoal g s =
     (if \<not> goal_checks g then (Inl (SqliteError ''CHECK constraint failed''), s)
      else if map_has g_id (g_id g) (goals s)
        then (Inl (SqliteError ''UNIQUE constraint failed: goal.id''), s)
      else if \<not> map_has s_id (sprint_id g) (sprints s)
        then (Inl (SqliteError ''FOREIGN KEY constraint failed''), s)
      else (Inr (), s\<lparr>goals := goals s @ [mapDbToGoal g]\<rparr>))"

definition sqlite_getGoalById :: "string \<Rightarrow> db \<Rightarrow> Goal option" where
  "sqlite_getGoalById i s = find (\<lambda>x. g_id x = i) (goals s)"

definition sqlite_getGoalsBySprintId :: "string \<Rightarrow> db \<Rightarrow> Goal list" where
  "sqlite_getGoalsBySprintId sid s = sort_key aangemaakt_op (filter (\<lambda>g. sprint_id g = sid) (goals s))"

definition no_goal_updates :: "GoalUpdates \<Rightarrow> bool" where
  "no_goal_updates u =
     (set_titel u = None \<and> set_beschrijving u = None \<and> set_eigenaar u = None
      \<and> set_geschatte_uren u = None \<and> set_werkelijke_uren u = None \<and> set_behaald u = None
      \<and> set_toelichting u = None \<and> set_geleerde_lessen u = None \<and> set_gewijzigd_op u = None)"

text \<open>
  The \<open>SET\<close> list of \<open>updateGoal\<close> takes nine keys of the update; a \<open>sprint_id\<close> or an
  \<open>aangemaakt_op\<close> in it is not looked at.
\<close>

definition sql_goal_columns :: "GoalUpdates \<Rightarrow> GoalUpdates" where
  "sql_goal_columns u = u\<lparr>set_sprint_id := None, set_aangemaakt_op := None\<rparr>"



definition sqlite_updateGoal :: "string \<Rightarrow> GoalUpdates \<Rightarrow> db \<Rightarrow> (error + unit) \<times> db" where
  "sqlite_updateGoal i u s =
     (if no_goal_updates u then (Inr (), s)
      else case find (\<lambda>x. g_id x = i) (goals s) of
        None \<Rightarrow> (Inr (), s)
      | Some existing \<Rightarrow>
          (let g = mapDbToGoal (apply_goal_updates (sql_goal_columns u) existing) in
           if \<not> goal_checks g then (Inl (SqliteError ''CHECK constraint failed''), s)
           else (Inr (), s\<lparr>goals := map_set g_id g (goals s)\<rparr>)))"

definition sqlite_deleteGoal :: "string \<Rightarrow> db \<Rightarrow> (error + bool) \<times> db" where
  "sqlite_deleteGoal i s =
     (let changes = length (filter (\<lambda>x. g_id x = i) (goals s)) in
      if changes > 0
      then (Inr True,
            s\<lparr>goals := filter (\<lambda>g. g_id g \<noteq> i) (goals s),
              criteria := filter (\<lambda>c. goal_id c \<noteq> i) (criteria s)\<rparr>)
      else (Inr False, s))"

definition sqlite_sprintExists :: "string \<Rightarrow> db \<Rightarrow> bool" where
  "sqlite_sprintExists i s = (find (\<lambda>x. s_id x = i) (sprints s) \<noteq> None)"

definition sqlite_createCriterion :: "SuccessCriterion \<Rightarrow> db \<Rightarrow> (error + unit) \<times> db" where
  "sqlite_createCriterion c s =
     (if \<not> criterion_checks c then (Inl (SqliteError ''CHECK constraint failed''), s)
      else if map_has c_id (c_id c) (criteria s)
        then (Inl (SqliteError ''UNIQUE constraint failed: success_criterion.id''), s)
      else if \<not> map_has g_id (goal_id c) (goals s)
        then (Inl (SqliteError ''FOREIGN KEY constraint failed''), s)
      else (Inr (), s\<lparr>criteria := criteria s @ [mapDbToCriterion c]\<rparr>))"

definition sqlite_getCriterionById :: "string \<Rightarrow> db \<Rightarrow> SuccessCriterion option" where
  "sqlite_getCriterionById i s = find (\<lambda>x. c_id x = i) (criteria s)"

definition sqlite_getCriteriaByGoalId :: "string \<Rightarrow> db \<Rightarrow> SuccessCriterion list" where
  "sqlite_getCriteriaByGoalId gid s = sort_key c_id (filter (\<lambda>c. goal_id c = gid) (criteria s))"




definition sqlite_deleteCriterion :: "string \<Rightarrow> db \<Rightarrow> (error + bool) \<times> db" where
  "sqlite_deleteCriterion i s =
     (let changes = length (filter (\<lambda>x. c_id x = i) (criteria s)) in
      (Inr (changes > 0), s\<lparr>criteria := filter (\<lambda>c. c_id c \<noteq> i) (criteria s)\<rparr>))"

definition sqlite_goalExists :: "string \<Rightarrow> db \<Rightarrow> bool" where
  "sqlite_goalExists i s = (find (\<lambda>x. g_id x = i) (goals s) \<noteq> None)"

section \<open>The adapter a service is given\<close>

fun createSprint :: "backend \<Rightarrow> Sprint \<Rightarrow> db \<Rightarrow> (error + unit) \<times> db" where
  "createSprint SQLite = sqlite_createSprint"
| "createSprint Dexie = dexie_createSprint"
| "createSprint Mock = mock_createSprint"

fun getSprintById :: "backend \<Rightarrow> string \<Rightarrow> db \<Rightarrow> Sprint option" where
  "getSprintById SQLite = sqlite_getSprintById"
| "getSprintById Dexie = dexie_getSprintById"
| "getSprintById Mock = mock_getSprintById"

fun getAllSprints :: "backend \<Rightarrow> db \<Rightarrow> Sprint list" where
  "getAllSprints SQLite = sqlite_getAllSprints"
| "getAllSprints Dexie = dexie_getAllSprints"
| "getAllSprints Mock = mock_getAllSprints"

fun updateSprint :: "backend \<Rightarrow> string \<Rightarrow> SprintUpdates \<Rightarrow> db \<Rightarrow> (error + unit) \<times> db" where
  "updateSprint SQLite = sqlite_updateSprint"
| "updateSprint Dexie = dexie_updateSprint"
| "updateSprint Mock = mock_updateSprint"

fun deleteSprint :: "backend \<Rightarrow> string \<Rightarrow> db \<Rightarrow> (error + bool) \<times> db" where
  "deleteSprint SQLite = sqlite_deleteSprint"
| "deleteSprint Dexie = dexie_deleteSprint"
| "deleteSprint Mock = mock_deleteSprint"

fun getMaxVolgnummer :: "backend \<Rightarrow> db \<Rightarrow> int option" where
  "getMaxVolgnummer SQLite = sqlite_getMaxVolgnummer"
| "getMaxVolgnummer Dexie = dexie_getMaxVolgnummer"
| "getMaxVolgnummer Mock = mock_getMaxVolgnummer"

fun getCurrentSprint :: "backend \<Rightarrow> string \<Rightarrow> db \<Rightarrow> Sprint option" where
  "getCurrentSprint SQLite = sqlite_getCurrentSprint"
| "getCurrentSprint Dexie = dexie_getCurrentSprint"
| "getCurrentSprint Mock = mock_getCurrentSprint"

fun getLatestSprint :: "backend \<Rightarrow> db \<Rightarrow> Sprint option" where
  "getLatestSprint SQLite = sqlite_getLatestSprint"
| "getLatestSprint Dexie = dexie_getLatestSprint"
| "getLatestSprint Mock = mock_getLatestSprint"

fun createGoal :: "backend \<Rightarrow> Goal \<Rightarrow> db \<Rightarrow> (error + unit) \<times> db" where
  "createGoal SQLite = sqlite_createGoal"
| "createGoal Dexie = dexie_createGoal"
| "createGoal Mock = mock_createGoal"

fun getGoalById :: "backend \<Rightarrow> string \<Rightarrow> db \<Rightarrow> Goal option" where
  "getGoalById SQLite = sqlite_getGoalById"
| "getGoalById Dexie = dexie_getGoalById"
| "getGoalById Mock = mock_getGoalById"

fun getGoalsBySprintId :: "collation \<Rightarrow> backend \<Rightarrow> string \<Rightarrow> db \<Rightarrow> Goal list" where
  "getGoalsBySprintId lc SQLite = sqlite_getGoalsBySprintId"
| "getGoalsBySprintId lc Dexie = dexie_getGoalsBySprintId"
| "getGoalsBySprintId lc Mock = mock_getGoalsBySprintId lc"

fun updateGoal :: "backend \<Rightarrow> string \<Rightarrow> GoalUpdates \<Rightarrow> db \<Rightarrow> (error + unit) \<times> db" where
  "updateGoal SQLite = sqlite_updateGoal"
| "updateGoal Dexie = dexie_updateGoal"
| "updateGoal Mock = mock_updateGoal"

fun deleteGoal :: "backend \<Rightarrow> string \<Rightarrow> db \<Rightarrow> (error + bool) \<times> db" where
  "deleteGoal SQLite = sqlite_deleteGoal"
| "deleteGoal Dexie = dexie_deleteGoal"
| "deleteGoal Mock = mock_deleteGoal"

fun sprintExists :: "backend \<Rightarrow> string \<Rightarrow> db \<Rightarrow> bool" where
  "sprintExists SQLite = sqlite_sprintExists"
| "sprintExists Dexie = dexie_sprintExists"
| "sprintExists Mock = mock_sprintExists"

fun createCriterion :: "backend \<Rightarrow> SuccessCriterion \<Rightarrow> db \<Rightarrow> (error + unit) \<times> db" where
  "createCriterion SQLite = sqlite_createCriterion"
| "createCriterion Dexie = dexie_createCriterion"
| "createCriterion Mock = mock_createCriterion"

fun getCriterionById :: "backend \<Rightarrow> string \<Rightarrow> db \<Rightarrow> SuccessCriterion option" where
  "getCriterionById SQLite = sqlite_getCriterionById"
| "getCriterionById Dexie = dexie_getCriterionById"
| "getCriterionById Mock = mock_getCriterionById"

fun getCriteriaByGoalId :: "backend \<Rightarrow> string \<Rightarrow> db \<Rightarrow> SuccessCriterion list" where
  "getCriteriaByGoalId SQLite = sqlite_getCriteriaByGoalId"
| "getCriteriaByGoalId Dexie = dexie_getCriteriaByGoalId"
| "getCriteriaByGoalId Mock = mock_getCriteriaByGoalId"

fun deleteCriterion :: "backend \<Rightarrow> string \<Rightarrow> db \<Rightarrow> (error + bool) \<times> db" where
  "deleteCriterion SQLite = sqlite_deleteCriterion"
| "deleteCriterion Dexie = dexie_deleteCriterion"
| "deleteCriterion Mock = mock_deleteCriterion"

fun goalExists :: "backend \<Rightarrow> string \<Rightarrow> db \<Rightarrow> bool" where
  "goalExists SQLite = sqlite_goalExists"
| "goalExists Dexie = dexie_goalExists"
| "goalExists Mock = mock_goalExists"





section \<open>Referential integrity\<close>

text \<open>
  What a sprint deletion leaves when it cascades: the sprint, its goals and the
  criteria of those goals are gone, everything else stays in place.
\<close>

definition cascade :: "string \<Rightarrow> db \<Rightarrow> db" where
  "cascade i s =
     \<lparr>sprints = filter (\<lambda>x. s_id x \<noteq> i) (sprints s),
      goals = filter (\<lambda>g. sprint_id g \<noteq> i) (goals s),
      criteria = filter (\<lambda>c. goal_id c \<notin> g_id ` {g \<in> set (goals s). sprint_id g = i}) (criteria s)\<rparr>"

definition goal_cascade :: "string \<Rightarrow> db \<Rightarrow> db" where
  "goal_cascade j s =
     s\<lparr>goals := filter (\<lambda>g. g_id g \<noteq> j) (goals s),
       criteria := filter (\<lambda>c. goal_id c \<noteq> j) (criteria s)\<rparr>"

text \<open>No dangling parent reference: every goal's sprint and every criterion's goal exist.\<close>

definition no_dangling :: "db \<Rightarrow> bool" where
  "no_dangling s =
     (list_all (\<lambda>g. map_has s_id (sprint_id g) (sprints s)) (goals s)
      \<and> list_all (\<lambda>c. map_has g_id (goal_id c) (goals s)) (criteria s))"

text \<open>The end date of every stored sprint is after its start date.\<close>

definition dates_ordered :: "db \<Rightarrow> bool" where
  "dates_ordered s = list_all (\<lambda>x. einddatum x > startdatum x) (sprints s)"

section \<open>Strings and calendar dates (ECMAScript built-ins)\<close>

definition isDigit :: "char \<Rightarrow> bool" where
  "isDigit c = (c \<in> set ''0123456789'')"

definition isHex :: "char \<Rightarrow> bool" where
  "isHex c = (c \<in> set ''0123456789abcdefABCDEF'')"

definition digit_char :: "nat \<Rightarrow> char" where
  "digit_char n = ''0123456789'' ! (n mod 10)"

definition digit_val :: "char \<Rightarrow> int" where
  "digit_val c = int (of_char c) - 48"

fun show_nat :: "nat \<Rightarrow> string" where
  "show_nat n = (if n < 10 then [digit_char n] else show_nat (n div 10) @ [digit_char n])"

declare show_nat.simps [simp del]

definition show_int :: "int \<Rightarrow> string" where
  "show_int i = (if i < 0 then ''-'' @ show_nat (nat (- i)) else show_nat (nat i))"

definition pad :: "nat \<Rightarrow> nat \<Rightarrow> string" where
  "pad w n = (let d = show_nat n in replicate (w - length d) CHR ''0'' @ d)"

fun read_nat :: "string \<Rightarrow> int" where
  "read_nat cs = foldl (\<lambda>acc c. 10 * acc + digit_val c) 0 cs"

text \<open>\<open>Array.prototype.join\<close>.\<close>

fun join :: "string \<Rightarrow> string list \<Rightarrow> string" where
  "join sep [] = []"
| "join sep [x] = x"
| "join sep (x # y # ys) = x @ sep @ join sep (y # ys)"

text \<open>
  Day numbers of the proleptic Gregorian calendar, day 0 being 1970-01-01, as
  ECMAScript's \<open>MakeDay\<close> and \<open>YearFromTime\<close>, \<open>MonthFromTime\<close>, \<open>DateFromTime\<close> compute
  them. Months are 1 to 12 here.
\<close>

definition days_from_civil :: "int \<Rightarrow> int \<Rightarrow> int \<Rightarrow> int" where
  "days_from_civil y m d =
     (let y1 = (if m \<le> 2 then y - 1 else y);
          era = y1 div 400;
          yoe = y1 - era * 400;
          mp = (if m > 2 then m - 3 else m + 9);
          doy = (153 * mp + 2) div 5 + d - 1;
          doe = yoe * 365 + yoe div 4 - yoe div 100 + doy
      in era * 146097 + doe - 719468)"

definition civil_from_days :: "int \<Rightarrow> int \<times> int \<times> int" where
  "civil_from_days z =
     (let z1 = z + 719468;
          era = z1 div 146097;
          doe = z1 - era * 146097;
          yoe = (doe - doe div 1460 + doe div 36524 - doe div 146096) div 365;
          doy = doe - (365 * yoe + yoe div 4 - yoe div 100);
          mp = (5 * doy + 2) div 153;
          d = doy - (153 * mp + 2) div 5 + 1;
          m = (if mp < 10 then mp + 3 else mp - 9);
          y = yoe + era * 400
      in (if m \<le> 2 then y + 1 else y, m, d))"

definition msPerDay :: int where
  "msPerDay = 86400000"

text \<open>
  A \<open>Date\<close> is its time value: milliseconds since the epoch in UTC, or \<open>None\<close> for an
  invalid date (\<open>NaN\<close>). \<open>TimeClip\<close> bounds a valid time value.
\<close>

type_synonym jsdate = "int option"

definition TimeClip :: "int \<Rightarrow> jsdate" where
  "TimeClip t = (if \<bar>t\<bar> \<le> 8640000000000000 then Some t else None)"

text \<open>
  \<open>new Date(s)\<close> for a string of the form \<open>YYYY-MM-DD\<close>: a date-only form is UTC
  midnight. A month outside 1 to 12 or a day outside 1 to 31 gives an invalid date; a
  day past the end of a short month rolls over into the next month, as V8 has it (an
  engine that rejects it instead gives the same \<open>isValidDate\<close>). Other strings are
  parsed by rules that the language leaves to the engine; they are taken as invalid.
\<close>

definition date_only_form :: "string \<Rightarrow> bool" where
  "date_only_form s =
     (length s = 10 \<and> list_all isDigit (take 4 s) \<and> s ! 4 = CHR ''-''
      \<and> list_all isDigit (take 2 (drop 5 s)) \<and> s ! 7 = CHR ''-''
      \<and> list_all isDigit (drop 8 s))"

definition new_Date :: "string \<Rightarrow> jsdate" where
  "new_Date s =
     (if date_only_form s
      then (let y = read_nat (take 4 s); m = read_nat (take 2 (drop 5 s)); d = read_nat (drop 8 s)
            in if 1 \<le> m \<and> m \<le> 12 \<and> 1 \<le> d \<and> d \<le> 31
               then TimeClip ((days_from_civil y m 1 + d - 1) * msPerDay)
               else None)
      else None)"

text \<open>The date part of \<open>toISOString()\<close>, that is \<open>toISOString().split('T')[0]\<close>.\<close>

definition iso_date_of_day :: "int \<Rightarrow> string" where
  "iso_date_of_day n =
     (case civil_from_days n of
        (y, m, d) \<Rightarrow>
          (if 0 \<le> y \<and> y \<le> 9999 then pad 4 (nat y)
           else (if y < 0 then ''-'' else ''+'') @ pad 6 (nat \<bar>y\<bar>))
          @ ''-'' @ pad 2 (nat m) @ ''-'' @ pad 2 (nat d))"

definition toISODate :: "jsdate \<Rightarrow> error + string" where
  "toISODate t =
     (case t of None \<Rightarrow> Inl (RangeError ''Invalid time value'')
      | Some ms \<Rightarrow> Inr (iso_date_of_day (ms div msPerDay)))"

text \<open>
  The local time zone is ECMAScript's \<open>LocalTZA(t, isUTC)\<close>: the offset in
  milliseconds that applies at the UTC time \<open>t\<close> (\<open>isUTC\<close>) or at the local time \<open>t\<close>.
  \<open>getDay\<close>, \<open>getDate\<close> and \<open>setDate\<close> read and write local time.
\<close>

type_synonym tza = "int \<Rightarrow> bool \<Rightarrow> int"

definition LocalTime :: "tza \<Rightarrow> int \<Rightarrow> int" where
  "LocalTime z t = t + z t True"

definition UTC_of :: "tza \<Rightarrow> int \<Rightarrow> int" where
  "UTC_of z t = t - z t False"

definition getDay :: "tza \<Rightarrow> int \<Rightarrow> int" where
  "getDay z t = (LocalTime z t div msPerDay + 4) mod 7"

definition getDate :: "tza \<Rightarrow> int \<Rightarrow> int" where
  "getDate z t = (case civil_from_days (LocalTime z t div msPerDay) of (y, m, d) \<Rightarrow> d)"

definition setDate :: "tza \<Rightarrow> int \<Rightarrow> int \<Rightarrow> jsdate" where
  "setDate z t dt =
     (let lt = LocalTime z t in
      case civil_from_days (lt div msPerDay) of
        (y, m, d) \<Rightarrow>
          TimeClip (UTC_of z ((days_from_civil y m 1 + dt - 1) * msPerDay + lt mod msPerDay)))"

definition utc :: tza where
  "utc = (\<lambda>t isUTC. 0)"

section \<open>Validation module (validation.ts)\<close>

text \<open>
  The \<open>typeof\<close> tests of the source hold by typing and are left out of the conditions;
  every branch and every message is kept, in the source's order.
\<close>

definition isValidUUID :: "string \<Rightarrow> bool" where
  "isValidUUID u =
     (length u = 36
      \<and> list_all isHex (take 8 u) \<and> u ! 8 = CHR ''-''
      \<and> list_all isHex (take 4 (drop 9 u)) \<and> u ! 13 = CHR ''-''
      \<and> u ! 14 \<in> set ''12345'' \<and> list_all isHex (take 3 (drop 15 u)) \<and> u ! 18 = CHR ''-''
      \<and> u ! 19 \<in> set ''89abAB'' \<and> list_all isHex (take 3 (drop 20 u)) \<and> u ! 23 = CHR ''-''
      \<and> list_all isHex (drop 24 u))"

definition isValidDate :: "string \<Rightarrow> bool" where
  "isValidDate date =
     (if \<not> date_only_form date then False
      else (case new_Date date of
              None \<Rightarrow> False
            | Some ms \<Rightarrow> date = iso_date_of_day (ms div msPerDay)))"

text \<open>
  \<open>isValidDateTime\<close> asks whether \<open>new Date(datetime)\<close> is a valid date. Which strings
  parse is left to the engine beyond the ISO forms, so the parser's verdict is a
  parameter.
\<close>

definition isValidDateTime :: "(string \<Rightarrow> bool) \<Rightarrow> string \<Rightarrow> bool" where
  "isValidDateTime parses datetime = parses datetime"

text \<open>
  The form \<open>YYYY-MM-DDTHH:mm:ss.sssZ\<close> that \<open>toISOString\<close> produces, which every engine
  parses: the parser used where a concrete one is needed.
\<close>

definition iso_datetime_form :: "string \<Rightarrow> bool" where
  "iso_datetime_form s =
     (length s = 24 \<and> isValidDate (take 10 s) \<and> s ! 10 = CHR ''T''
      \<and> list_all isDigit (take 2 (drop 11 s)) \<and> read_nat (take 2 (drop 11 s)) \<le> 23
      \<and> s ! 13 = CHR '':''
      \<and> list_all isDigit (take 2 (drop 14 s)) \<and> read_nat (take 2 (drop 14 s)) \<le> 59
      \<and> s ! 16 = CHR '':''
      \<and> list_all isDigit (take 2 (drop 17 s)) \<and> read_nat (take 2 (drop 17 s)) \<le> 59
      \<and> s ! 19 = CHR ''.'' \<and> list_all isDigit (take 3 (drop 20 s)) \<and> s ! 23 = CHR ''Z'')"

text \<open>\<open>x % 1\<close> keeps the sign of \<open>x\<close>.\<close>

definition rem1 :: "number \<Rightarrow> number" where
  "rem1 x = (if x \<ge> 0 then frac x else - frac (- x))"

definition isValidHoursPrecision :: "number \<Rightarrow> bool" where
  "isValidHoursPrecision hours = (hours \<ge> 0 \<and> rem1 (hours * 4) = 0)"

definition result_of :: "string list \<Rightarrow> ValidationResult" where
  "result_of errs = \<lparr>valid = (length errs = 0), v_errors = errs\<rparr>"

definition validateCreateSprint :: "'a CreateSprintInput_scheme \<Rightarrow> ValidationResult" where
  "validateCreateSprint input =
     result_of
       ((if in_volgnummer input < 1 then [''volgnummer must be a positive integer''] else [])
        @ (if \<not> isValidDate (in_startdatum input)
           then [''startdatum must be a valid date in YYYY-MM-DD format''] else [])
        @ (if \<not> isValidDate (in_einddatum input)
           then [''einddatum must be a valid date in YYYY-MM-DD format''] else [])
        @ (if isValidDate (in_startdatum input) \<and> isValidDate (in_einddatum input)
           then (if in_einddatum input \<le> in_startdatum input
                 then [''einddatum must be after startdatum''] else [])
           else []))"

definition validateUpdateSprint :: "'a UpdateSprintInput_scheme \<Rightarrow> ValidationResult" where
  "validateUpdateSprint input =
     result_of
       ((case up_volgnummer input of
           None \<Rightarrow> []
         | Some v \<Rightarrow> if v < 1 then [''volgnummer must be a positive integer''] else [])
        @ (case up_startdatum input of
             None \<Rightarrow> []
           | Some v \<Rightarrow> if \<not> isValidDate v
                       then [''startdatum must be a valid date in YYYY-MM-DD format''] else [])
        @ (case up_einddatum input of
             None \<Rightarrow> []
           | Some v \<Rightarrow> if \<not> isValidDate v
                       then [''einddatum must be a valid date in YYYY-MM-DD format''] else []))"

definition validateCreateGoal :: "'a CreateGoalInput_scheme \<Rightarrow> ValidationResult" where
  "validateCreateGoal input =
     result_of
       ((if \<not> isValidUUID (in_sprint_id input) then [''sprint_id must be a valid UUID''] else [])
        @ (if length (in_titel input) = 0 then [''titel is required'']
           else if length (in_titel input) > 200 then [''titel must not exceed 200 characters'']
           else [])
        @ (if length (in_beschrijving input) > 2000
           then [''beschrijving must not exceed 2000 characters''] else [])
        @ (if length (in_eigenaar input) = 0 then [''eigenaar is required'']
           else if length (in_eigenaar input) > 50 then [''eigenaar must not exceed 50 characters'']
           else [])
        @ (if in_geschatte_uren input < 0 then [''geschatte_uren must be a non-negative number'']
           else if \<not> isValidHoursPrecision (in_geschatte_uren input)
             then [''geschatte_uren must be in 0.25 hour increments'']
           else []))"

definition validateUpdateGoal :: "'a UpdateGoalInput_scheme \<Rightarrow> ValidationResult" where
  "validateUpdateGoal input =
     result_of
       ((case up_titel input of
           None \<Rightarrow> []
         | Some v \<Rightarrow> if length v = 0 then [''titel cannot be empty'']
                     else if length v > 200 then [''titel must not exceed 200 characters'']
                     else [])
        @ (case up_beschrijving input of
             None \<Rightarrow> []
           | Some v \<Rightarrow> if length v > 2000
                       then [''beschrijving must not exceed 2000 characters''] else [])
        @ (case up_eigenaar input of
             None \<Rightarrow> []
           | Some v \<Rightarrow> if length v = 0 then [''eigenaar cannot be empty'']
                       else if length v > 50 then [''eigenaar must not exceed 50 characters'']
                       else [])
        @ (case up_geschatte_uren input of
             None \<Rightarrow> []
           | Some v \<Rightarrow> if v < 0 then [''geschatte_uren must be a non-negative number'']
                       else if \<not> isValidHoursPrecision v
                         then [''geschatte_uren must be in 0.25 hour increments'']
                       else [])
        @ (case up_werkelijke_uren input of
             Some (Some v) \<Rightarrow>
               if v < 0 then [''werkelijke_uren must be a non-negative number or null'']
               else if \<not> isValidHoursPrecision v
                 then [''werkelijke_uren must be in 0.25 hour increments'']
               else []
           | _ \<Rightarrow> [])
        @ (case up_toelichting input of
             Some (Some v) \<Rightarrow>
               if length v > 2000 then [''toelichting must not exceed 2000 characters''] else []
           | _ \<Rightarrow> [])
        @ (case up_geleerde_lessen input of
             Some (Some v) \<Rightarrow>
               if length v > 2000 then [''geleerde_lessen must not exceed 2000 characters''] else []
           | _ \<Rightarrow> []))"

section \<open>Entity services (sprint-service.ts, goal-service.ts, criterion-service.ts)\<close>

text \<open>
  A service is given its storage adapter; here, the backend. \<open>uuidv4()\<close> and
  \<open>new Date().toISOString()\<close> are arguments: the fresh identifier and the timestamp.
\<close>

definition validation_failed :: "ValidationResult \<Rightarrow> error" where
  "validation_failed v = Error (''Validation failed: '' @ join '', '' (v_errors v))"

definition SprintService_create ::
    "backend \<Rightarrow> string \<Rightarrow> 'a CreateSprintInput_scheme \<Rightarrow> db \<Rightarrow> (error + Sprint) \<times> db" where
  "SprintService_create b uuid input s =
     (let validation = validateCreateSprint input in
      if \<not> valid validation then (Inl (validation_failed validation), s)
      else (let sprint = \<lparr>s_id = uuid, volgnummer = in_volgnummer input,
                          startdatum = in_startdatum input, einddatum = in_einddatum input\<rparr>
            in case createSprint b sprint s of
                 (Inl e, s') \<Rightarrow> (Inl e, s')
               | (Inr u, s') \<Rightarrow> (Inr sprint, s')))"

definition SprintService_getById :: "backend \<Rightarrow> string \<Rightarrow> db \<Rightarrow> error + Sprint option" where
  "SprintService_getById b i s =
     (if \<not> isValidUUID i then Inl (Error ''Invalid sprint ID format'')
      else Inr (getSprintById b i s))"

definition SprintService_getAll :: "backend \<Rightarrow> db \<Rightarrow> Sprint list" where
  "SprintService_getAll b s = getAllSprints b s"

definition SprintService_getCurrent :: "backend \<Rightarrow> int \<Rightarrow> db \<Rightarrow> Sprint option" where
  "SprintService_getCurrent b now s = getCurrentSprint b (iso_date_of_day (now div msPerDay)) s"

definition SprintService_getLatest :: "backend \<Rightarrow> db \<Rightarrow> Sprint option" where
  "SprintService_getLatest b s = getLatestSprint b s"

definition SprintService_update ::
    "backend \<Rightarrow> string \<Rightarrow> 'a UpdateSprintInput_scheme \<Rightarrow> db \<Rightarrow> (error + Sprint option) \<times> db" where
  "SprintService_update b i input s =
     (if \<not> isValidUUID i then (Inl (Error ''Invalid sprint ID format''), s)
      else (let validation = validateUpdateSprint input in
        if \<not> valid validation then (Inl (validation_failed validation), s)
        else (case SprintService_getById b i s of
            Inl e \<Rightarrow> (Inl e, s)
          | Inr None \<Rightarrow> (Inl (Error (''Sprint with ID '' @ i @ '' not found'')), s)
          | Inr (Some existing) \<Rightarrow>
              (let updates = \<lparr>set_volgnummer = up_volgnummer input,
                              set_startdatum = up_startdatum input,
                              set_einddatum = up_einddatum input\<rparr>
               in case (if \<not> no_sprint_updates updates then updateSprint b i updates s
                        else (Inr (), s)) of
                    (Inl e, s') \<Rightarrow> (Inl e, s')
                  | (Inr u, s') \<Rightarrow>
                      (case SprintService_getById b i s' of
                         Inl e \<Rightarrow> (Inl e, s')
                       | Inr r \<Rightarrow> (Inr r, s'))))))"

definition SprintService_delete :: "backend \<Rightarrow> string \<Rightarrow> db \<Rightarrow> (error + bool) \<times> db" where
  "SprintService_delete b i s =
     (if \<not> isValidUUID i then (Inl (Error ''Invalid sprint ID format''), s)
      else deleteSprint b i s)"

definition SprintService_getNextVolgnummer :: "backend \<Rightarrow> db \<Rightarrow> int" where
  "SprintService_getNextVolgnummer b s =
     (case getMaxVolgnummer b s of None \<Rightarrow> 0 | Some m \<Rightarrow> m) + 1"

text \<open>
  \<open>getSuggestedNextDates\<close>. \<open>z\<close> is the local time zone of the process and \<open>now\<close> the
  time value of \<open>new Date()\<close>. \<open>setDate\<close> and \<open>getDate\<close> on an invalid date leave it
  invalid; \<open>toISOString\<close> then throws.
\<close>

definition add_days :: "tza \<Rightarrow> jsdate \<Rightarrow> int \<Rightarrow> jsdate" where
  "add_days z date k = (case date of None \<Rightarrow> None | Some t \<Rightarrow> setDate z t (getDate z t + k))"

definition SprintService_getSuggestedNextDates ::
    "backend \<Rightarrow> tza \<Rightarrow> int \<Rightarrow> db \<Rightarrow> error + string \<times> string" where
  "SprintService_getSuggestedNextDates b z now s =
     (let latest = SprintService_getLatest b s;
          startDate =
            (case latest of
               Some l \<Rightarrow> add_days z (new_Date (einddatum l)) 1
             | None \<Rightarrow>
                 (let day = getDay z now;
                      diff = (if day = 0 then 1 else (if day = 6 then 2 else 0))
                  in add_days z (Some now) diff));
          endDate = add_days z startDate 13
      in case toISODate startDate of
           Inl e \<Rightarrow> Inl e
         | Inr a \<Rightarrow> (case toISODate endDate of Inl e \<Rightarrow> Inl e | Inr c \<Rightarrow> Inr (a, c)))"

definition GoalService_getById :: "backend \<Rightarrow> string \<Rightarrow> db \<Rightarrow> error + Goal option" where
  "GoalService_getById b i s =
     (if \<not> isValidUUID i then Inl (Error ''Invalid goal ID format'')
      else Inr (getGoalById b i s))"

definition GoalService_getBySprintId :: "collation \<Rightarrow> backend \<Rightarrow> string \<Rightarrow> db \<Rightarrow> error + Goal list" where
  "GoalService_getBySprintId lc b sid s =
     (if \<not> isValidUUID sid then Inl (Error ''Invalid sprint ID format'')
      else Inr (getGoalsBySprintId lc b sid s))"

definition GoalService_create ::
    "backend \<Rightarrow> string \<Rightarrow> string \<Rightarrow> 'a CreateGoalInput_scheme \<Rightarrow> db \<Rightarrow> (error + Goal) \<times> db" where
  "GoalService_create b uuid now input s =
     (let validation = validateCreateGoal input in
      if \<not> valid validation then (Inl (validation_failed validation), s)
      else if \<not> sprintExists b (in_sprint_id input) s
        then (Inl (Error (''Sprint with ID '' @ in_sprint_id input @ '' not found'')), s)
      else (let goal = \<lparr>g_id = uuid, sprint_id = in_sprint_id input, titel = in_titel input,
                        g_beschrijving = in_beschrijving input, eigenaar = in_eigenaar input,
                        geschatte_uren = in_geschatte_uren input, werkelijke_uren = None,
                        behaald = None, toelichting = None, geleerde_lessen = None,
                        aangemaakt_op = now, gewijzigd_op = now\<rparr>
            in case createGoal b goal s of
                 (Inl e, s') \<Rightarrow> (Inl e, s')
               | (Inr u, s') \<Rightarrow> (Inr goal, s')))"

definition GoalService_update ::
    "backend \<Rightarrow> string \<Rightarrow> string \<Rightarrow> 'a UpdateGoalInput_scheme \<Rightarrow> db \<Rightarrow> (error + Goal option) \<times> db" where
  "GoalService_update b now i input s =
     (if \<not> isValidUUID i then (Inl (Error ''Invalid goal ID format''), s)
      else (let validation = validateUpdateGoal input in
        if \<not> valid validation then (Inl (validation_failed validation), s)
        else (case GoalService_getById b i s of
            Inl e \<Rightarrow> (Inl e, s)
          | Inr None \<Rightarrow> (Inl (Error (''Goal with ID '' @ i @ '' not found'')), s)
          | Inr (Some existing) \<Rightarrow>
              (let updates = \<lparr>set_titel = up_titel input,
                              set_beschrijving = up_beschrijving input,
                              set_eigenaar = up_eigenaar input,
                              set_geschatte_uren = up_geschatte_uren input,
                              set_werkelijke_uren = up_werkelijke_uren input,
                              set_behaald = up_behaald input,
                              set_toelichting = up_toelichting input,
                              set_geleerde_lessen = up_geleerde_lessen input,
                              set_gewijzigd_op = Some now,
                              set_sprint_id = None, set_aangemaakt_op = None\<rparr>
               in case updateGoal b i updates s of
                    (Inl e, s') \<Rightarrow> (Inl e, s')
                  | (Inr u, s') \<Rightarrow>
                      (case GoalService_getById b i s' of
                         Inl e \<Rightarrow> (Inl e, s')
                       | Inr r \<Rightarrow> (Inr r, s'))))))"

definition no_goal_input :: UpdateGoalInput where
  "no_goal_input = \<lparr>up_titel = None, up_beschrijving = None, up_eigenaar = None,
     up_geschatte_uren = None, up_werkelijke_uren = None, up_behaald = None,
     up_toelichting = None, up_geleerde_lessen = None\<rparr>"

definition GoalService_markAchieved ::
    "backend \<Rightarrow> string \<Rightarrow> string \<Rightarrow> bool \<Rightarrow> string option \<Rightarrow> string option \<Rightarrow> db
      \<Rightarrow> (error + Goal option) \<times> db" where
  "GoalService_markAchieved b now i achieved note lessons s =
     GoalService_update b now i
       (no_goal_input\<lparr>up_behaald := Some (Some achieved), up_toelichting := Some note,
                       up_geleerde_lessen := Some lessons\<rparr>) s"

definition GoalService_logHours ::
    "backend \<Rightarrow> string \<Rightarrow> string \<Rightarrow> number \<Rightarrow> db \<Rightarrow> (error + Goal option) \<times> db" where
  "GoalService_logHours b now i hours s =
     GoalService_update b now i (no_goal_input\<lparr>up_werkelijke_uren := Some (Some hours)\<rparr>) s"

definition GoalService_delete :: "backend \<Rightarrow> string \<Rightarrow> db \<Rightarrow> (error + bool) \<times> db" where
  "GoalService_delete b i s =
     (if \<not> isValidUUID i then (Inl (Error ''Invalid goal ID format''), s)
      else deleteGoal b i s)"

definition CriterionService_getByGoalId ::
    "backend \<Rightarrow> string \<Rightarrow> db \<Rightarrow> error + SuccessCriterion list" where
  "CriterionService_getByGoalId b gid s =
     (if \<not> isValidUUID gid then Inl (Error ''Invalid goal ID format'')
      else Inr (getCriteriaByGoalId b gid s))"

section \<open>The transaction wrapper\<close>

text \<open>
  A unit of work runs on the store and on what its closure captures (the import's
  \<open>stats\<close> object); it returns a value or throws, leaving the store as it was when it
  stopped. A caller that awaits the wrapper sees the value its promise resolves with,
  \<open>Some\<close> of the work's value or \<open>None\<close> for \<open>undefined\<close>, and the closure and the store
  of that moment.

  Dexie runs the work inside one native read-write transaction over the three tables
  and resolves when it has ended: a throw aborts it and the store is as before. The
  mock returns the promise of the work itself.

  The relational wrapper hands better-sqlite3's synchronous \<open>db.transaction\<close> a
  function that calls the asynchronous work, registers a \<open>then\<close> callback and returns
  \<open>result\<close> at once. An \<open>async\<close> function never throws to its caller and its \<open>then\<close>
  callback never runs before the caller returns, so the synchronous function returns
  \<open>undefined\<close> with no exception, the transaction commits and the wrapper resolves
  with \<open>undefined\<close> while the work is still suspended. What the work has done by the
  time the awaiting caller resumes depends on the work, so a unit of work comes with
  both: how far it has come when a caller that does not wait for it resumes, and what
  it does run to its end. Every statement the work executes after the commit runs
  outside any transaction and commits on its own, and a later throw of the work
  rejects a promise nobody awaits: once the work left running has ended, the store
  holds all its writes up to the throw and nobody has seen a failure.
\<close>

record ('c, 'a) unit_of_work =
  when_caller_resumes :: "'c \<times> db \<Rightarrow> 'c \<times> db"
  to_the_end :: "'c \<times> db \<Rightarrow> (error + 'a) \<times> 'c \<times> db"

definition mock_transaction ::
    "('c, 'a) unit_of_work \<Rightarrow> 'c \<times> db \<Rightarrow> (error + 'a option) \<times> 'c \<times> db" where
  "mock_transaction work cs =
     (case to_the_end work cs of
        (Inl e, c', s') \<Rightarrow> (Inl e, c', s')
      | (Inr r, c', s') \<Rightarrow> (Inr (Some r), c', s'))"

definition dexie_transaction ::
    "('c, 'a) unit_of_work \<Rightarrow> 'c \<times> db \<Rightarrow> (error + 'a option) \<times> 'c \<times> db" where
  "dexie_transaction work cs =
     (case to_the_end work cs of
        (Inl e, c', s') \<Rightarrow> (Inl e, c', snd cs)
      | (Inr r, c', s') \<Rightarrow> (Inr (Some r), c', s'))"

definition sqlite_transaction ::
    "('c, 'a) unit_of_work \<Rightarrow> 'c \<times> db \<Rightarrow> (error + 'a option) \<times> 'c \<times> db" where
  "sqlite_transaction work cs = (Inr None, when_caller_resumes work cs)"

fun transaction ::
    "backend \<Rightarrow> ('c, 'a) unit_of_work \<Rightarrow> 'c \<times> db \<Rightarrow> (error + 'a option) \<times> 'c \<times> db" where
  "transaction SQLite = sqlite_transaction"
| "transaction Dexie = dexie_transaction"
| "transaction Mock = mock_transaction"

text \<open>
  The closure and the store once no work is left running: for Dexie and the mock those
  the wrapper resolved with, for the relational wrapper those the detached work leaves.
\<close>

definition sqlite_left_running :: "('c, 'a) unit_of_work \<Rightarrow> 'c \<times> db \<Rightarrow> 'c \<times> db" where
  "sqlite_left_running work cs = snd (to_the_end work cs)"

fun settled :: "backend \<Rightarrow> ('c, 'a) unit_of_work \<Rightarrow> 'c \<times> db \<Rightarrow> 'c \<times> db" where
  "settled SQLite work cs = sqlite_left_running work cs"
| "settled Dexie work cs = snd (dexie_transaction work cs)"
| "settled Mock work cs = snd (mock_transaction work cs)"

section \<open>Export/import service (export-service.ts)\<close>

definition EXPORT_VERSION :: string where
  "EXPORT_VERSION = ''1.0''"

text \<open>\<open>Promise.all\<close> over reads: the list of results, or a rejection.\<close>

fun promise_all :: "(error + 'a) list \<Rightarrow> error + 'a list" where
  "promise_all [] = Inr []"
| "promise_all (x # xs) =
     (case x of
        Inl e \<Rightarrow> Inl e
      | Inr v \<Rightarrow> (case promise_all xs of Inl e \<Rightarrow> Inl e | Inr vs \<Rightarrow> Inr (v # vs)))"

text \<open>The object spreads \<open>{...goal, success_criteria}\<close> and \<open>{...sprint, goals}\<close>.\<close>

definition with_criteria :: "Goal \<Rightarrow> SuccessCriterion list \<Rightarrow> GoalWithCriteria" where
  "with_criteria g cs =
     \<lparr>g_id = g_id g, sprint_id = sprint_id g, titel = titel g, g_beschrijving = g_beschrijving g,
      eigenaar = eigenaar g, geschatte_uren = geschatte_uren g,
      werkelijke_uren = werkelijke_uren g, behaald = behaald g, toelichting = toelichting g,
      geleerde_lessen = geleerde_lessen g, aangemaakt_op = aangemaakt_op g,
      gewijzigd_op = gewijzigd_op g, success_criteria = cs\<rparr>"

definition with_goals :: "Sprint \<Rightarrow> GoalWithCriteria list \<Rightarrow> SprintWithGoals" where
  "with_goals x gs =
     \<lparr>s_id = s_id x, volgnummer = volgnummer x, startdatum = startdatum x,
      einddatum = einddatum x, sw_goals = gs\<rparr>"

definition export_goal :: "backend \<Rightarrow> db \<Rightarrow> Goal \<Rightarrow> error + GoalWithCriteria" where
  "export_goal b s goal =
     (case CriterionService_getByGoalId b (g_id goal) s of
        Inl e \<Rightarrow> Inl e
      | Inr cs \<Rightarrow> Inr (with_criteria goal cs))"

definition export_sprint :: "collation \<Rightarrow> backend \<Rightarrow> db \<Rightarrow> Sprint \<Rightarrow> error + SprintWithGoals" where
  "export_sprint lc b s sprint =
     (case GoalService_getBySprintId lc b (s_id sprint) s of
        Inl e \<Rightarrow> Inl e
      | Inr gs \<Rightarrow>
          (case promise_all (map (export_goal b s) gs) of
             Inl e \<Rightarrow> Inl e
           | Inr goalsWithCriteria \<Rightarrow> Inr (with_goals sprint goalsWithCriteria)))"

definition exportAll :: "collation \<Rightarrow> backend \<Rightarrow> string \<Rightarrow> db \<Rightarrow> error + ExportData" where
  "exportAll lc b now s =
     (case promise_all (map (export_sprint lc b s) (SprintService_getAll b s)) of
        Inl e \<Rightarrow> Inl e
      | Inr sprintsWithGoals \<Rightarrow>
          Inr \<lparr>version = EXPORT_VERSION, exported_at = now, doc_sprints = sprintsWithGoals\<rparr>)"

definition exportSprint :: "collation \<Rightarrow> backend \<Rightarrow> string \<Rightarrow> db \<Rightarrow> error + SprintWithGoals option" where
  "exportSprint lc b sid s =
     (case SprintService_getById b sid s of
        Inl e \<Rightarrow> Inl e
      | Inr None \<Rightarrow> Inr None
      | Inr (Some sprint) \<Rightarrow>
          (case export_sprint lc b s sprint of Inl e \<Rightarrow> Inl e | Inr x \<Rightarrow> Inr (Some x)))"

subsection \<open>Validation of an import document\<close>

definition validateCriterionData :: "'a SuccessCriterion_scheme \<Rightarrow> string \<Rightarrow> string list" where
  "validateCriterionData criterion prefix =
     (if \<not> isValidUUID (c_id criterion) then [prefix @ ''.id: must be a valid UUID''] else [])
     @ (if \<not> isValidUUID (goal_id criterion) then [prefix @ ''.goal_id: must be a valid UUID'']
        else [])
     @ (if length (c_beschrijving criterion) = 0 \<or> length (c_beschrijving criterion) > 500
        then [prefix @ ''.beschrijving: must be a string (1-500 chars)''] else [])"

definition validateGoalData ::
    "(string \<Rightarrow> bool) \<Rightarrow> 'a GoalWithCriteria_scheme \<Rightarrow> string \<Rightarrow> string list" where
  "validateGoalData parses goal prefix =
     (if \<not> isValidUUID (g_id goal) then [prefix @ ''.id: must be a valid UUID''] else [])
     @ (if \<not> isValidUUID (sprint_id goal) then [prefix @ ''.sprint_id: must be a valid UUID'']
        else [])
     @ (if length (titel goal) = 0 \<or> length (titel goal) > 200
        then [prefix @ ''.titel: must be a string (1-200 chars)''] else [])
     @ (if length (g_beschrijving goal) > 2000
        then [prefix @ ''.beschrijving: must be a string (max 2000 chars)''] else [])
     @ (if length (eigenaar goal) = 0 \<or> length (eigenaar goal) > 50
        then [prefix @ ''.eigenaar: must be a string (1-50 chars)''] else [])
     @ (if geschatte_uren goal < 0
        then [prefix @ ''.geschatte_uren: must be a non-negative number'']
        else if \<not> isValidHoursPrecision (geschatte_uren goal)
          then [prefix @ ''.geschatte_uren: must be in 0.25 hour increments'']
        else [])
     @ (case werkelijke_uren goal of
          None \<Rightarrow> []
        | Some v \<Rightarrow>
            if v < 0 then [prefix @ ''.werkelijke_uren: must be a non-negative number or null'']
            else if \<not> isValidHoursPrecision v
              then [prefix @ ''.werkelijke_uren: must be in 0.25 hour increments'']
            else [])
     @ (if \<not> isValidDateTime parses (aangemaakt_op goal)
        then [prefix @ ''.aangemaakt_op: must be a valid ISO datetime''] else [])
     @ (if \<not> isValidDateTime parses (gewijzigd_op goal)
        then [prefix @ ''.gewijzigd_op: must be a valid ISO datetime''] else [])
     @ concat (map (\<lambda>(i, c). validateCriterionData c
                     (prefix @ ''.success_criteria['' @ show_nat i @ '']''))
                (enumerate 0 (success_criteria goal)))"

definition validateSprintData ::
    "(string \<Rightarrow> bool) \<Rightarrow> 'a SprintWithGoals_scheme \<Rightarrow> nat \<Rightarrow> string list" where
  "validateSprintData parses sprint index =
     (let prefix = ''Sprint['' @ show_nat index @ '']'' in
      (if \<not> isValidUUID (s_id sprint) then [prefix @ ''.id: must be a valid UUID''] else [])
      @ (if volgnummer sprint < 1 then [prefix @ ''.volgnummer: must be a positive integer'']
         else [])
      @ (if \<not> isValidDate (startdatum sprint)
         then [prefix @ ''.startdatum: must be a valid date (YYYY-MM-DD)''] else [])
      @ (if \<not> isValidDate (einddatum sprint)
         then [prefix @ ''.einddatum: must be a valid date (YYYY-MM-DD)''] else [])
      @ concat (map (\<lambda>(i, g). validateGoalData parses g
                      (prefix @ ''.goals['' @ show_nat i @ '']''))
                 (enumerate 0 (sw_goals sprint))))"

definition validateImportData :: "(string \<Rightarrow> bool) \<Rightarrow> 'a ExportData_scheme \<Rightarrow> ValidationResult" where
  "validateImportData parses data =
     result_of (concat (map (\<lambda>(i, x). validateSprintData parses x i)
                         (enumerate 0 (doc_sprints data))))"

subsection \<open>Import\<close>

definition stats0 :: ImportResult where
  "stats0 = \<lparr>r_sprints = 0, r_goals = 0, r_criteria = 0, skipped = 0, errors = []\<rparr>"

definition message_of :: "error \<Rightarrow> string" where
  "message_of e = (case e of Error m \<Rightarrow> m | SqliteError m \<Rightarrow> m | ConstraintError m \<Rightarrow> m
                   | RangeError m \<Rightarrow> m)"

text \<open>
  The object literals that \<open>importData\<close> hands to \<open>createSprint\<close>, \<open>createGoal\<close> and
  \<open>createCriterion\<close>: the entity's own fields, copied one by one from the document.
\<close>

definition sprint_of :: "'a Sprint_scheme \<Rightarrow> Sprint" where
  "sprint_of sprintData =
     \<lparr>s_id = s_id sprintData, volgnummer = volgnummer sprintData,
      startdatum = startdatum sprintData, einddatum = einddatum sprintData\<rparr>"

definition goal_of :: "'a Goal_scheme \<Rightarrow> Goal" where
  "goal_of goalData =
     \<lparr>g_id = g_id goalData, sprint_id = sprint_id goalData, titel = titel goalData,
      g_beschrijving = g_beschrijving goalData, eigenaar = eigenaar goalData,
      geschatte_uren = geschatte_uren goalData,
      werkelijke_uren = werkelijke_uren goalData, behaald = behaald goalData,
      toelichting = toelichting goalData, geleerde_lessen = geleerde_lessen goalData,
      aangemaakt_op = aangemaakt_op goalData, gewijzigd_op = gewijzigd_op goalData\<rparr>"

definition criterion_of :: "'a SuccessCriterion_scheme \<Rightarrow> SuccessCriterion" where
  "criterion_of criterionData =
     \<lparr>c_id = c_id criterionData, goal_id = goal_id criterionData,
      c_beschrijving = c_beschrijving criterionData, voltooid = voltooid criterionData\<rparr>"

fun import_criteria ::
    "backend \<Rightarrow> SuccessCriterion list \<Rightarrow> ImportResult \<times> db \<Rightarrow> (error + unit) \<times> ImportResult \<times> db" where
  "import_criteria b [] (stats, s) = (Inr (), stats, s)"
| "import_criteria b (criterionData # rest) (stats, s) =
     (case createCriterion b (criterion_of criterionData) s of
        (Inl e, s') \<Rightarrow> (Inl e, stats, s')
      | (Inr u, s') \<Rightarrow> import_criteria b rest (stats\<lparr>r_criteria := r_criteria stats + 1\<rparr>, s'))"

fun import_goals ::
    "backend \<Rightarrow> GoalWithCriteria list \<Rightarrow> ImportResult \<times> db \<Rightarrow> (error + unit) \<times> ImportResult \<times> db" where
  "import_goals b [] (stats, s) = (Inr (), stats, s)"
| "import_goals b (goalData # rest) (stats, s) =
     (case createGoal b (goal_of goalData) s of
        (Inl e, s') \<Rightarrow> (Inl e, stats, s')
      | (Inr u, s') \<Rightarrow>
          (case import_criteria b (success_criteria goalData)
                  (stats\<lparr>r_goals := r_goals stats + 1\<rparr>, s') of
             (Inl e, stats', s'') \<Rightarrow> (Inl e, stats', s'')
           | (Inr u, stats', s'') \<Rightarrow> import_goals b rest (stats', s'')))"

definition import_sprint ::
    "backend \<Rightarrow> SprintWithGoals \<Rightarrow> ImportResult \<times> db \<Rightarrow> (error + unit) \<times> ImportResult \<times> db" where
  "import_sprint b sprintData cs =
     (case cs of
        (stats, s) \<Rightarrow>
          (case createSprint b (sprint_of sprintData) s of
             (Inl e, s') \<Rightarrow> (Inl e, stats, s')
           | (Inr u, s') \<Rightarrow>
               import_goals b (sw_goals sprintData) (stats\<lparr>r_sprints := r_sprints stats + 1\<rparr>, s')))"

fun import_sprints ::
    "backend \<Rightarrow> bool \<Rightarrow> SprintWithGoals list \<Rightarrow> ImportResult \<times> db
      \<Rightarrow> (error + unit) \<times> ImportResult \<times> db" where
  "import_sprints b overwrite [] (stats, s) = (Inr (), stats, s)"
| "import_sprints b overwrite (sprintData # rest) (stats, s) =
     (case SprintService_getById b (s_id sprintData) s of
        Inl e \<Rightarrow> (Inl e, stats, s)
      | Inr None \<Rightarrow>
          (case import_sprint b sprintData (stats, s) of
             (Inl e, cs) \<Rightarrow> (Inl e, cs)
           | (Inr u, cs) \<Rightarrow> import_sprints b overwrite rest cs)
      | Inr (Some existingSprint) \<Rightarrow>
          (if overwrite
           then (case SprintService_delete b (s_id sprintData) s of
                   (Inl e, s') \<Rightarrow> (Inl e, stats, s')
                 | (Inr d, s') \<Rightarrow>
                     (case import_sprint b sprintData (stats, s') of
                        (Inl e, cs) \<Rightarrow> (Inl e, cs)
                      | (Inr u, cs) \<Rightarrow> import_sprints b overwrite rest cs))
           else import_sprints b overwrite rest
                  (stats\<lparr>skipped := skipped stats + 1,
                         errors := errors stats @
                           [''Sprint '' @ show_int (volgnummer sprintData)
                            @ '' already exists (ID: '' @ s_id sprintData @ '')'']\<rparr>, s)))"

text \<open>
  The unit of work of an import. Its first action awaits a read through the sprint
  service (\<open>getById\<close>, itself an \<open>async\<close> function that returns the adapter's promise),
  or it has no sprint to import and ends at once: when a caller that does not wait
  for it resumes, it has written nothing and counted nothing.
\<close>

definition import_work ::
    "backend \<Rightarrow> bool \<Rightarrow> SprintWithGoals list \<Rightarrow> (ImportResult, unit) unit_of_work" where
  "import_work b overwrite sds =
     \<lparr>when_caller_resumes = (\<lambda>cs. cs), to_the_end = import_sprints b overwrite sds\<rparr>"

text \<open>
  \<open>importData\<close> gives what its caller receives when the promise resolves: the \<open>stats\<close>
  object as it is then, and the store of that moment.
\<close>

definition importData ::
    "backend \<Rightarrow> (string \<Rightarrow> bool) \<Rightarrow> ExportData \<Rightarrow> bool \<Rightarrow> db \<Rightarrow> ImportResult \<times> db" where
  "importData b parses data overwrite s =
     (let validationResult = validateImportData parses data in
      if \<not> valid validationResult then (stats0\<lparr>errors := v_errors validationResult\<rparr>, s)
      else (case transaction b (import_work b overwrite (doc_sprints data)) (stats0, s) of
              (Inl e, stats, s') \<Rightarrow>
                (stats\<lparr>errors := errors stats @ [''Import failed: '' @ message_of e]\<rparr>, s')
            | (Inr r, stats, s') \<Rightarrow> (stats, s')))"

text \<open>
  The same \<open>stats\<close> object and the store once no work of the import is left running.
  Where the wrapper threw, the \<open>catch\<close> has run and nothing is left.
\<close>

definition importData_settled ::
    "backend \<Rightarrow> (string \<Rightarrow> bool) \<Rightarrow> ExportData \<Rightarrow> bool \<Rightarrow> db \<Rightarrow> ImportResult \<times> db" where
  "importData_settled b parses data overwrite s =
     (if \<not> valid (validateImportData parses data) then importData b parses data overwrite s
      else (case fst (transaction b (import_work b overwrite (doc_sprints data)) (stats0, s)) of
              Inl e \<Rightarrow> importData b parses data overwrite s
            | Inr r \<Rightarrow> settled b (import_work b overwrite (doc_sprints data)) (stats0, s)))"

text \<open>The goal that \<open>GoalService.create\<close> builds from its input.\<close>

definition created_goal :: "string \<Rightarrow> string \<Rightarrow> 'a CreateGoalInput_scheme \<Rightarrow> Goal" where
  "created_goal uuid now input =
     \<lparr>g_id = uuid, sprint_id = in_sprint_id input, titel = in_titel input,
      g_beschrijving = in_beschrijving input, eigenaar = in_eigenaar input,
      geschatte_uren = in_geschatte_uren input, werkelijke_uren = None,
      behaald = None, toelichting = None, geleerde_lessen = None,
      aangemaakt_op = now, gewijzigd_op = now\<rparr>"

text \<open>Hours are non-negative and in quarter-hour steps, for every stored goal.\<close>

definition goal_hours_ok :: "'a Goal_scheme \<Rightarrow> bool" where
  "goal_hours_ok g =
     (isValidHoursPrecision (geschatte_uren g) \<and> opt_all isValidHoursPrecision (werkelijke_uren g))"

definition hours_ok :: "db \<Rightarrow> bool" where
  "hours_ok s = list_all goal_hours_ok (goals s)"

text \<open>The updates that \<open>GoalService.update\<close> builds from its input.\<close>

definition goal_updates_of :: "string \<Rightarrow> 'a UpdateGoalInput_scheme \<Rightarrow> GoalUpdates" where
  "goal_updates_of now input =
     \<lparr>set_titel = up_titel input, set_beschrijving = up_beschrijving input,
      set_eigenaar = up_eigenaar input, set_geschatte_uren = up_geschatte_uren input,
      set_werkelijke_uren = up_werkelijke_uren input, set_behaald = up_behaald input,
      set_toelichting = up_toelichting input, set_geleerde_lessen = up_geleerde_lessen input,
      set_gewijzigd_op = Some now, set_sprint_id = None, set_aangemaakt_op = None\<rparr>"

text \<open>
  The data model's entities, as import validation accepts them; and the constraints of
  the relational schema, which hold of every store the relational backend can hold.
  Hours stay below \<open>2 ^ 1022\<close>: there four times a number is exact in the doubles the
  code computes with.
\<close>

definition sprint_importable :: "'a Sprint_scheme \<Rightarrow> bool" where
  "sprint_importable x =
     (isValidUUID (s_id x) \<and> volgnummer x \<ge> 1 \<and> isValidDate (startdatum x)
      \<and> isValidDate (einddatum x))"

definition goal_importable :: "(string \<Rightarrow> bool) \<Rightarrow> 'a Goal_scheme \<Rightarrow> bool" where
  "goal_importable parses g =
     (isValidUUID (g_id g) \<and> isValidUUID (sprint_id g)
      \<and> 0 < length (titel g) \<and> length (titel g) \<le> 200
      \<and> length (g_beschrijving g) \<le> 2000
      \<and> 0 < length (eigenaar g) \<and> length (eigenaar g) \<le> 50
      \<and> goal_hours_ok g
      \<and> geschatte_uren g < 2 ^ 1022 \<and> opt_all (\<lambda>v. v < 2 ^ 1022) (werkelijke_uren g)
      \<and> isValidDateTime parses (aangemaakt_op g) \<and> isValidDateTime parses (gewijzigd_op g))"

definition criterion_importable :: "'a SuccessCriterion_scheme \<Rightarrow> bool" where
  "criterion_importable c =
     (isValidUUID (c_id c) \<and> isValidUUID (goal_id c)
      \<and> 0 < length (c_beschrijving c) \<and> length (c_beschrijving c) \<le> 500)"

definition importable :: "(string \<Rightarrow> bool) \<Rightarrow> db \<Rightarrow> bool" where
  "importable parses s =
     (list_all sprint_importable (sprints s) \<and> list_all (goal_importable parses) (goals s)
      \<and> list_all criterion_importable (criteria s))"

definition sqlite_schema :: "db \<Rightarrow> bool" where
  "sqlite_schema s =
     (list_all sprint_checks (sprints s) \<and> distinct (map volgnummer (sprints s))
      \<and> list_all goal_checks (goals s) \<and> list_all criterion_checks (criteria s))"

definition store_ok :: "(string \<Rightarrow> bool) \<Rightarrow> backend \<Rightarrow> db \<Rightarrow> bool" where
  "store_ok parses b s =
     (wf_db s \<and> no_dangling s \<and> importable parses s \<and> (b = SQLite \<longrightarrow> sqlite_schema s))"

text \<open>All goals and all criteria of a document, in document order.\<close>

definition doc_goals :: "SprintWithGoals list \<Rightarrow> GoalWithCriteria list" where
  "doc_goals sds = concat (map sw_goals sds)"

definition doc_criteria :: "SprintWithGoals list \<Rightarrow> SuccessCriterion list" where
  "doc_criteria sds = concat (map success_criteria (doc_goals sds))"

text \<open>The tree that \<open>exportAll\<close> builds: every sprint with its goals, every goal with its criteria.\<close>

definition exported_goals :: "collation \<Rightarrow> backend \<Rightarrow> db \<Rightarrow> Sprint \<Rightarrow> GoalWithCriteria list" where
  "exported_goals lc b s x =
     map (\<lambda>g. with_criteria g (getCriteriaByGoalId b (g_id g) s)) (getGoalsBySprintId lc b (s_id x) s)"

definition exported_sprints :: "collation \<Rightarrow> backend \<Rightarrow> db \<Rightarrow> SprintWithGoals list" where
  "exported_sprints lc b s = map (\<lambda>x. with_goals x (exported_goals lc b s x)) (getAllSprints b s)"

text \<open>
  The goals that \<open>exportAll\<close> reads, sprint by sprint; and the store an import of the
  exported tree into an empty store fills, entity by entity in document order.
\<close>

definition all_exported_goals :: "collation \<Rightarrow> backend \<Rightarrow> db \<Rightarrow> Goal list" where
  "all_exported_goals lc b s =
     concat (map (\<lambda>x. getGoalsBySprintId lc b (s_id x) s) (getAllSprints b s))"

definition reimported :: "collation \<Rightarrow> backend \<Rightarrow> db \<Rightarrow> db" where
  "reimported lc b s =
     \<lparr>sprints = getAllSprints b s, goals = all_exported_goals lc b s,
      criteria = doc_criteria (exported_sprints lc b s)\<rparr>"

text \<open>
  A collation orders any two strings one way or the other, and transitively; every
  locale's does.
\<close>

definition consistent :: "collation \<Rightarrow> bool" where
  "consistent lc =
     ((\<forall>a b. lc a b \<le> 0 \<or> lc b a \<le> 0)
      \<and> (\<forall>a b c. lc a b \<le> 0 \<and> lc b c \<le> 0 \<longrightarrow> lc a c \<le> 0))"

section \<open>Sequences of adapter operations\<close>


datatype outcome =
    Void
  | Threw error
  | Boolean bool
  | NumberOrNull "int option"
  | SprintOrNull "Sprint option"
  | SprintArray "Sprint list"
  | GoalOrNull "Goal option"
  | GoalArray "Goal list"
  | CriterionOrNull "SuccessCriterion option"
  | CriterionArray "SuccessCriterion list"

definition void :: "(error + unit) \<times> db \<Rightarrow> outcome \<times> db" where
  "void r = (case r of (Inl e, s) \<Rightarrow> (Threw e, s) | (Inr u, s) \<Rightarrow> (Void, s))"

definition boolean :: "(error + bool) \<times> db \<Rightarrow> outcome \<times> db" where
  "boolean r = (case r of (Inl e, s) \<Rightarrow> (Threw e, s) | (Inr v, s) \<Rightarrow> (Boolean v, s))"
















section \<open>Concrete stores and inputs\<close>

definition id0 :: string where
  "id0 = ''550e8400-e29b-41d4-a716-446655440000''"

definition sprint_a :: Sprint where
  "sprint_a = \<lparr>s_id = ''550e8400-e29b-41d4-a716-44665544000a'', volgnummer = 2,
     startdatum = ''2026-01-01'', einddatum = ''2026-01-31''\<rparr>"

definition sprint_b :: Sprint where
  "sprint_b = \<lparr>s_id = ''550e8400-e29b-41d4-a716-44665544000b'', volgnummer = 1,
     startdatum = ''2026-01-10'', einddatum = ''2026-01-20''\<rparr>"

definition overlapping_db :: db where
  "overlapping_db = \<lparr>sprints = [sprint_b, sprint_a], goals = [], criteria = []\<rparr>"

definition goal_id1 :: string where
  "goal_id1 = ''6ba7b810-9dad-11d1-80b4-00c04fd430c8''"

definition criterion_id1 :: string where
  "criterion_id1 = ''6ba7b811-9dad-11d1-80b4-00c04fd430c8''"

definition sprint_1 :: Sprint where
  "sprint_1 = \<lparr>s_id = id0, volgnummer = 1, startdatum = ''2026-01-13'', einddatum = ''2026-01-26''\<rparr>"

definition goal_1 :: Goal where
  "goal_1 = \<lparr>g_id = goal_id1, sprint_id = id0, titel = ''Ship X'', g_beschrijving = ''Test description'',
     eigenaar = ''Test Owner'', geschatte_uren = 17 / 2, werkelijke_uren = Some (41 / 4),
     behaald = Some True, toelichting = Some ''Completed'', geleerde_lessen = None,
     aangemaakt_op = ''2026-01-13T09:00:00.000Z'', gewijzigd_op = ''2026-01-14T10:30:00.000Z''\<rparr>"

definition criterion_1 :: SuccessCriterion where
  "criterion_1 = \<lparr>c_id = criterion_id1, goal_id = goal_id1, c_beschrijving = ''Criterion 1'',
     voltooid = True\<rparr>"

definition sample_db :: db where
  "sample_db = \<lparr>sprints = [sprint_1], goals = [goal_1], criteria = [criterion_1]\<rparr>"

text \<open>
  An import document that passes validation and makes the import throw: one sprint
  whose second goal repeats the identifier of the first.
\<close>

definition dup_doc :: ExportData where
  "dup_doc = \<lparr>version = ''1.0'', exported_at = ''2026-01-13T09:00:00.000Z'',
     doc_sprints = [with_goals sprint_1 [with_criteria goal_1 [criterion_1], with_criteria goal_1 []]]\<rparr>"

definition late_einddatum :: UpdateSprintInput where
  "late_einddatum = \<lparr>up_volgnummer = None, up_startdatum = None, up_einddatum = Some ''2026-01-01''\<rparr>"

text \<open>
  Time zones: a fixed offset of two hours east of UTC, and Central European Time with
  its switch to summer time on 29 March 2026 at 01:00 UTC. The instants:
  2026-01-07T12:00:00Z, a Wednesday, and 2026-01-03T23:00:00Z, a Saturday in UTC and
  Sunday 01:00 two hours east.
\<close>

definition utc_plus_2 :: tza where
  "utc_plus_2 = (\<lambda>t isUTC. 7200000)"

definition central_european :: tza where
  "central_european =
     (\<lambda>t isUTC. if isUTC then (if t \<ge> 1774746000000 then 7200000 else 3600000)
                else (if t \<ge> 1774753200000 then 7200000 else 3600000))"

definition wednesday_noon :: int where
  "wednesday_noon = 1767787200000"

definition saturday_23h :: int where
  "saturday_23h = 1767481200000"

definition march_db :: db where
  "march_db = \<lparr>sprints = [\<lparr>s_id = id0, volgnummer = 1, startdatum = ''2026-03-03'',
     einddatum = ''2026-03-16''\<rparr>], goals = [], criteria = []\<rparr>"


text \<open>A goal-creation input that carries fields beyond those of \<open>CreateGoalInput\<close>.\<close>

record GoalInputWithExtras = CreateGoalInput +
  x_werkelijke_uren :: number
  x_behaald :: bool
  x_toelichting :: string

definition new_goal_input :: GoalInputWithExtras where
  "new_goal_input = \<lparr>in_sprint_id = id0, in_titel = ''Ship X'', in_beschrijving = [],
     in_eigenaar = ''Test Owner'', in_geschatte_uren = 8, x_werkelijke_uren = 3,
     x_behaald = True, x_toelichting = ''done''\<rparr>"

definition one_sprint_db :: db where
  "one_sprint_db = \<lparr>sprints = [sprint_1], goals = [], criteria = []\<rparr>"

definition timestamp_1 :: string where
  "timestamp_1 = ''2026-01-13T09:00:00.000Z''"


text \<open>Inputs with an hours value of 8.1, which is not a multiple of a quarter.\<close>

definition bad_goal_input :: CreateGoalInput where
  "bad_goal_input = \<lparr>in_sprint_id = id0, in_titel = ''Ship X'', in_beschrijving = [],
     in_eigenaar = ''Test Owner'', in_geschatte_uren = 81 / 10\<rparr>"

definition bad_goal_update :: UpdateGoalInput where
  "bad_goal_update = no_goal_input\<lparr>up_werkelijke_uren := Some (Some (81 / 10))\<rparr>"

definition bad_goal :: GoalWithCriteria where
  "bad_goal = with_criteria (goal_1\<lparr>geschatte_uren := 81 / 10\<rparr>) []"

definition bad_sprint :: SprintWithGoals where
  "bad_sprint = with_goals sprint_1 [bad_goal]"

definition bad_doc :: ExportData where
  "bad_doc = \<lparr>version = ''1.0'', exported_at = timestamp_1, doc_sprints = [bad_sprint]\<rparr>"

text \<open>The document that \<open>exportAll\<close> gives for the sample store, whatever its timestamp.\<close>

definition sample_doc :: "string \<Rightarrow> ExportData" where
  "sample_doc now =
     \<lparr>version = ''1.0'', exported_at = now,
      doc_sprints = [with_goals sprint_1 [with_criteria goal_1 [criterion_1]]]\<rparr>"












section \<open>Facts about the three stores\<close>

lemma fold_delete_by_id:
  "fold (\<lambda>x acc. if P x then map_delete key (key x) acc else acc) xs acc
     = filter (\<lambda>y. key y \<notin> key ` {x \<in> set xs. P x}) acc"
proof (induction xs arbitrary: acc)
  case Nil
  then show ?case by simp
next
  case (Cons x xs)
  show ?case
    by (auto simp: Cons.IH map_delete_def intro!: filter_cong)
qed

lemma distinct_key_filter:
  assumes "distinct (map key xs)"
  shows "filter (\<lambda>y. key y \<notin> key ` {x \<in> set xs. P x}) xs = filter (\<lambda>y. \<not> P y) xs"
proof (rule filter_cong[OF refl])
  fix y assume y: "y \<in> set xs"
  have inj: "inj_on key (set xs)" using assms by (simp add: distinct_map)
  show "(key y \<notin> key ` {x \<in> set xs. P x}) = (\<not> P y)"
    using y inj by (auto dest: inj_onD)
qed

lemma mock_delete_criteria_of_filter:
  "distinct (map c_id cs) \<Longrightarrow> mock_delete_criteria_of gid cs = filter (\<lambda>c. goal_id c \<noteq> gid) cs"
  unfolding mock_delete_criteria_of_def
  by (simp add: fold_delete_by_id distinct_key_filter)

lemma distinct_map_filter': "distinct (map f xs) \<Longrightarrow> distinct (map f (filter P xs))"
  by (simp add: distinct_map_filter)

lemma mock_cascade_fold:
  assumes "distinct (map c_id cs)"
  shows "fold (\<lambda>goal (gs, cs).
                if sprint_id goal = i
                then (map_delete g_id (g_id goal) gs, mock_delete_criteria_of (g_id goal) cs)
                else (gs, cs)) xs (gs, cs)
         = (filter (\<lambda>g. g_id g \<notin> g_id ` {x \<in> set xs. sprint_id x = i}) gs,
            filter (\<lambda>c. goal_id c \<notin> g_id ` {x \<in> set xs. sprint_id x = i}) cs)"
  using assms
proof (induction xs arbitrary: gs cs)
  case Nil
  then show ?case by simp
next
  case (Cons x xs)
  show ?case
  proof (cases "sprint_id x = i")
    case True
    have d: "distinct (map c_id (filter (\<lambda>c. goal_id c \<noteq> g_id x) cs))"
      using Cons.prems by (rule distinct_map_filter')
    show ?thesis
      using True Cons.prems
      by (auto simp: Cons.IH[OF d] mock_delete_criteria_of_filter map_delete_def intro!: filter_cong)
  next
    case False
    have "{xa. (xa = x \<or> xa \<in> set xs) \<and> sprint_id xa = i} = {x \<in> set xs. sprint_id x = i}"
      using False by auto
    then show ?thesis using False Cons.prems by (simp add: Cons.IH)
  qed
qed

lemma mock_deleteSprint_cascade:
  assumes "wf_db s"
  shows "snd (mock_deleteSprint i s) = cascade i s"
proof -
  have dc: "distinct (map c_id (criteria s))" and dg: "distinct (map g_id (goals s))"
    using assms by (simp_all add: wf_db_def)
  show ?thesis
    unfolding mock_deleteSprint_def cascade_def
    by (simp add: mock_cascade_fold[OF dc] distinct_key_filter[OF dg] map_delete_def)
qed

lemma dexie_deleteSprint_cascade: "snd (dexie_deleteSprint i s) = cascade i s"
proof -
  have e: "filter (\<lambda>g. sprint_id g = i) (sort_key g_id (goals s)) = []
        \<Longrightarrow> {g \<in> set (goals s). sprint_id g = i} = {}"
    by (auto simp: filter_empty_conv)
  show ?thesis
    unfolding dexie_deleteSprint_def cascade_def Let_def by_pk_def
    by (auto simp: map_delete_def e intro!: filter_cong)
qed

lemma sqlite_deleteSprint_cascade:
  "map_has s_id i (sprints s) \<Longrightarrow> snd (sqlite_deleteSprint i s) = cascade i s"
  unfolding sqlite_deleteSprint_def cascade_def Let_def map_has_def
  by (auto simp: list_ex_iff filter_empty_conv intro!: filter_cong)

lemma getSprintById_find: "getSprintById b i s = find (\<lambda>x. s_id x = i) (sprints s)"
  by (cases b) (simp_all add: sqlite_getSprintById_def dexie_getSprintById_def mock_getSprintById_def)

lemma getGoalById_find: "getGoalById b i s = find (\<lambda>x. g_id x = i) (goals s)"
  by (cases b) (simp_all add: sqlite_getGoalById_def dexie_getGoalById_def mock_getGoalById_def)

lemma getCriterionById_find: "getCriterionById b i s = find (\<lambda>x. c_id x = i) (criteria s)"
  by (cases b) (simp_all add: sqlite_getCriterionById_def dexie_getCriterionById_def mock_getCriterionById_def)

lemma find_Some_has: "find (\<lambda>x. key x = k) xs = Some v \<Longrightarrow> map_has key k xs"
  by (auto simp: map_has_def list_ex_iff find_Some_iff)

lemma deleteSprint_cascade:
  assumes "wf_db s" and "map_has s_id i (sprints s)"
  shows "deleteSprint b i s = (Inr True, cascade i s)"
proof (cases b)
  case SQLite
  have "fst (sqlite_deleteSprint i s) = Inr True"
    using assms(2) by (auto simp: sqlite_deleteSprint_def Let_def map_has_def list_ex_iff filter_empty_conv)
  then show ?thesis
    using SQLite sqlite_deleteSprint_cascade[OF assms(2)] by (simp add: prod_eq_iff)
next
  case Dexie
  have "fst (dexie_deleteSprint i s) = Inr True"
    by (simp add: dexie_deleteSprint_def Let_def)
  then show ?thesis
    using Dexie dexie_deleteSprint_cascade[of i s] by (simp add: prod_eq_iff)
next
  case Mock
  have "fst (mock_deleteSprint i s) = Inr True"
    using assms(2) by (simp add: mock_deleteSprint_def Let_def split_def)
  then show ?thesis
    using Mock mock_deleteSprint_cascade[OF assms(1)] by (simp add: prod_eq_iff)
qed

lemma find_filter_None:
  "(\<And>x. x \<in> set xs \<Longrightarrow> key x = k \<Longrightarrow> \<not> P x) \<Longrightarrow> find (\<lambda>x. key x = k) (filter P xs) = None"
  by (auto simp: find_None_iff)

lemma cascade_goal_gone:
  assumes "distinct (map g_id (goals s))" "g \<in> set (goals s)" "sprint_id g = i"
  shows "find (\<lambda>x. g_id x = g_id g) (goals (cascade i s)) = None"
proof -
  have inj: "inj_on g_id (set (goals s))" using assms(1) by (simp add: distinct_map)
  have "\<And>x. x \<in> set (goals s) \<Longrightarrow> g_id x = g_id g \<Longrightarrow> \<not> sprint_id x \<noteq> i"
    using inj assms(2,3) by (auto dest: inj_onD)
  then show ?thesis by (simp add: cascade_def find_filter_None)
qed

lemma cascade_criterion_gone:
  assumes "distinct (map c_id (criteria s))" "g \<in> set (goals s)" "sprint_id g = i"
    "c \<in> set (criteria s)" "goal_id c = g_id g"
  shows "find (\<lambda>x. c_id x = c_id c) (criteria (cascade i s)) = None"
proof -
  have inj: "inj_on c_id (set (criteria s))" using assms(1) by (simp add: distinct_map)
  have "\<And>x. x \<in> set (criteria s) \<Longrightarrow> c_id x = c_id c
          \<Longrightarrow> \<not> goal_id x \<notin> g_id ` {g \<in> set (goals s). sprint_id g = i}"
  proof -
    fix x assume "x \<in> set (criteria s)" "c_id x = c_id c"
    then have "x = c" using inj assms(4) by (auto dest: inj_onD)
    then show "\<not> goal_id x \<notin> g_id ` {g \<in> set (goals s). sprint_id g = i}"
      using assms(2,3,5) by auto
  qed
  then show ?thesis by (simp add: cascade_def find_filter_None)
qed

lemma cascade_no_dangling:
  assumes "no_dangling s"
  shows "no_dangling (cascade i s)"
proof -
  have g: "\<forall>g\<in>set (goals s). \<exists>x\<in>set (sprints s). s_id x = sprint_id g"
    and c: "\<forall>c\<in>set (criteria s). \<exists>x\<in>set (goals s). g_id x = goal_id c"
    using assms by (simp_all add: no_dangling_def list_all_iff map_has_def list_ex_iff)
  have 1: "\<exists>x\<in>set (sprints s). s_id x \<noteq> i \<and> s_id x = sprint_id y"
    if "y \<in> set (goals s)" "sprint_id y \<noteq> i" for y
    using g that by metis
  have 2: "\<exists>x\<in>set (goals s). sprint_id x \<noteq> i \<and> g_id x = goal_id y"
    if a: "y \<in> set (criteria s)" and b: "goal_id y \<notin> g_id ` {g \<in> set (goals s). sprint_id g = i}" for y
  proof -
    obtain x where x: "x \<in> set (goals s)" "g_id x = goal_id y" using c a by metis
    then have "sprint_id x \<noteq> i" using b by force
    then show ?thesis using x by metis
  qed
  show ?thesis
    unfolding no_dangling_def cascade_def list_all_iff map_has_def list_ex_iff
    using 1 2 by (simp add: Bex_def)
qed

lemma deleteSprint_no_dangling:
  assumes "wf_db s" "no_dangling s"
  shows "no_dangling (snd (deleteSprint b i s))"
proof (cases "map_has s_id i (sprints s)")
  case True
  then show ?thesis using assms by (simp add: deleteSprint_cascade cascade_no_dangling)
next
  case False
  show ?thesis
  proof (cases b)
    case SQLite
    then show ?thesis using False assms(2)
      by (auto simp: sqlite_deleteSprint_def Let_def map_has_def list_ex_iff filter_empty_conv)
  next
    case Dexie
    then show ?thesis using assms(2) by (simp add: dexie_deleteSprint_cascade cascade_no_dangling)
  next
    case Mock
    then show ?thesis using assms by (simp add: mock_deleteSprint_cascade cascade_no_dangling)
  qed
qed

lemma deleteGoal_cascade:
  assumes "wf_db s"
  shows "snd (deleteGoal b j s) = (if b = SQLite \<and> \<not> map_has g_id j (goals s) then s else goal_cascade j s)"
proof (cases b)
  case SQLite
  then show ?thesis
    by (auto simp: sqlite_deleteGoal_def goal_cascade_def Let_def map_has_def list_ex_iff filter_empty_conv)
next
  case Dexie
  then show ?thesis by (simp add: dexie_deleteGoal_def goal_cascade_def map_delete_def)
next
  case Mock
  have "distinct (map c_id (criteria s))" using assms by (simp add: wf_db_def)
  then show ?thesis using Mock
    by (simp add: mock_deleteGoal_def goal_cascade_def map_delete_def mock_delete_criteria_of_filter)
qed

lemma goal_cascade_no_dangling:
  assumes "no_dangling s"
  shows "no_dangling (goal_cascade j s)"
proof -
  have g: "\<forall>g\<in>set (goals s). \<exists>x\<in>set (sprints s). s_id x = sprint_id g"
    and c: "\<forall>c\<in>set (criteria s). \<exists>x\<in>set (goals s). g_id x = goal_id c"
    using assms by (simp_all add: no_dangling_def list_all_iff map_has_def list_ex_iff)
  have 2: "\<exists>x\<in>set (goals s). g_id x \<noteq> j \<and> g_id x = goal_id y"
    if "y \<in> set (criteria s)" "goal_id y \<noteq> j" for y
    using c that by metis
  show ?thesis
    unfolding no_dangling_def goal_cascade_def list_all_iff map_has_def list_ex_iff
    using g 2 by (simp add: Bex_def)
qed

lemma goal_cascade_criterion_gone:
  assumes "distinct (map c_id (criteria s))" "c \<in> set (criteria s)" "goal_id c = j"
  shows "find (\<lambda>x. c_id x = c_id c) (criteria (goal_cascade j s)) = None"
proof -
  have inj: "inj_on c_id (set (criteria s))" using assms(1) by (simp add: distinct_map)
  have "\<And>x. x \<in> set (criteria s) \<Longrightarrow> c_id x = c_id c \<Longrightarrow> \<not> goal_id x \<noteq> j"
    using inj assms(2,3) by (auto dest: inj_onD)
  then show ?thesis by (simp add: goal_cascade_def find_filter_None)
qed

lemma isValidUUID_length: "isValidUUID u \<Longrightarrow> length u = 36"
  by (simp add: isValidUUID_def)

lemma valid_result_of [simp]: "valid (result_of errs) = (errs = [])"
  by (simp add: result_of_def)

lemma validateCreateGoal_valid_iff:
  "valid (validateCreateGoal input) \<longleftrightarrow>
     (isValidUUID (in_sprint_id input)
      \<and> 0 < length (in_titel input) \<and> length (in_titel input) \<le> 200
      \<and> length (in_beschrijving input) \<le> 2000
      \<and> 0 < length (in_eigenaar input) \<and> length (in_eigenaar input) \<le> 50
      \<and> isValidHoursPrecision (in_geschatte_uren input))"
  by (auto simp: validateCreateGoal_def isValidHoursPrecision_def)

lemma find_map_set:
  "find (\<lambda>x. key x = key v) (map_set key v xs) = Some v"
  by (induction xs) auto

lemma find_append_new:
  "\<not> map_has key (key v) xs \<Longrightarrow> find (\<lambda>x. key x = key v) (xs @ [v]) = Some v"
  by (induction xs) (auto simp: map_has_def)

lemma map_has_find: "map_has key k xs \<longleftrightarrow> find (\<lambda>x. key x = k) xs \<noteq> None"
  by (auto simp: map_has_def list_ex_iff find_None_iff)

lemma map_has_filter: "map_has key k xs \<longleftrightarrow> 0 < length (filter (\<lambda>x. key x = k) xs)"
  by (auto simp: map_has_def list_ex_iff filter_empty_conv)

lemma sprintExists_has: "sprintExists b i s = map_has s_id i (sprints s)"
proof (cases b)
  case SQLite
  then show ?thesis by (simp add: sqlite_sprintExists_def map_has_find)
next
  case Dexie
  then show ?thesis by (simp add: dexie_sprintExists_def map_has_filter)
next
  case Mock
  then show ?thesis by (simp add: mock_sprintExists_def)
qed

lemma goalExists_has: "goalExists b i s = map_has g_id i (goals s)"
proof (cases b)
  case SQLite
  then show ?thesis by (simp add: sqlite_goalExists_def map_has_find)
next
  case Dexie
  then show ?thesis by (simp add: dexie_goalExists_def map_has_filter)
next
  case Mock
  then show ?thesis by (simp add: mock_goalExists_def)
qed

lemma mapDbToGoal_id [simp]: "mapDbToGoal g = g"
  by (cases "behaald g") (simp_all add: mapDbToGoal_def behaald_to_db_def behaald_of_db_def)

lemma mapDbToCriterion_id [simp]: "mapDbToCriterion c = c"
  by (simp add: mapDbToCriterion_def voltooid_to_db_def voltooid_of_db_def)

lemma createGoal_Inr:
  assumes "createGoal b g s = (Inr u, s')"
  shows "getGoalById b (g_id g) s' = Some g"
proof (cases b)
  case SQLite
  then show ?thesis using assms
    by (auto simp: sqlite_createGoal_def sqlite_getGoalById_def find_append_new split: if_splits)
next
  case Dexie
  then show ?thesis using assms
    by (auto simp: dexie_createGoal_def dexie_getGoalById_def table_add_def find_append_new
        split: if_splits sum.splits)
next
  case Mock
  then show ?thesis using assms
    by (auto simp: mock_createGoal_def mock_getGoalById_def find_map_set)
qed

lemma GoalService_create_Inr:
  assumes "GoalService_create b uuid now input s = (Inr g, s')"
  shows "g = created_goal uuid now input \<and> createGoal b g s = (Inr (), s')"
  using assms
  by (auto simp: GoalService_create_def Let_def created_goal_def split: if_splits prod.splits sum.splits)

lemma createGoal_succeeds:
  assumes "valid (validateCreateGoal input)" "sprintExists b (in_sprint_id input) s"
    "isValidUUID uuid" "\<not> goalExists b uuid s" "length now \<ge> 20"
  shows "\<exists>s'. createGoal b (created_goal uuid now input) s = (Inr (), s')"
proof (cases b)
  have hs: "map_has s_id (in_sprint_id input) (sprints s)"
    using assms(2) by (simp add: sprintExists_has)
  have hg: "\<not> map_has g_id uuid (goals s)"
    using assms(4) by (simp add: goalExists_has)
  case SQLite
  have chk: "goal_checks (created_goal uuid now input)"
    using assms(1,3,5)
    by (simp add: validateCreateGoal_valid_iff goal_checks_def created_goal_def opt_all_def
        isValidUUID_length isValidHoursPrecision_def)
  have "g_id (created_goal uuid now input) = uuid"
    "sprint_id (created_goal uuid now input) = in_sprint_id input"
    by (simp_all add: created_goal_def)
  then show ?thesis using SQLite chk hs hg
    by (simp add: sqlite_createGoal_def)
next
  have hg: "\<not> map_has g_id uuid (goals s)"
    using assms(4) by (simp add: goalExists_has)
  case Dexie
  then show ?thesis using hg
    by (simp add: dexie_createGoal_def table_add_def created_goal_def)
next
  case Mock
  then show ?thesis by (simp add: mock_createGoal_def)
qed

lemma isValidHoursPrecision_iff:
  "isValidHoursPrecision h \<longleftrightarrow> 0 \<le> h \<and> h * 4 \<in> \<int>"
  by (auto simp: isValidHoursPrecision_def rem1_def frac_eq_0_iff)

lemma validateUpdateGoal_valid_hours:
  assumes "valid (validateUpdateGoal input)"
  shows "(\<forall>v. up_geschatte_uren input = Some v \<longrightarrow> isValidHoursPrecision v)
       \<and> (\<forall>v. up_werkelijke_uren input = Some (Some v) \<longrightarrow> isValidHoursPrecision v)"
proof -
  from assms
  have g: "(case up_geschatte_uren input of
             None \<Rightarrow> []
           | Some v \<Rightarrow> if v < 0 then [''geschatte_uren must be a non-negative number'']
                       else if \<not> isValidHoursPrecision v
                         then [''geschatte_uren must be in 0.25 hour increments'']
                       else []) = []"
    and w: "(case up_werkelijke_uren input of
             Some (Some v) \<Rightarrow>
               if v < 0 then [''werkelijke_uren must be a non-negative number or null'']
               else if \<not> isValidHoursPrecision v
                 then [''werkelijke_uren must be in 0.25 hour increments'']
               else []
           | _ \<Rightarrow> []) = []"
    unfolding validateUpdateGoal_def valid_result_of append_is_Nil_conv by blast+
  have 1: "isValidHoursPrecision v" if "up_geschatte_uren input = Some v" for v
    using g that by (simp split: if_splits)
  have 2: "isValidHoursPrecision v" if "up_werkelijke_uren input = Some (Some v)" for v
    using w that by (simp split: if_splits)
  show ?thesis using 1 2 by blast
qed

lemma validateUpdateGoal_invalid_hours:
  assumes "(up_geschatte_uren input = Some v \<or> up_werkelijke_uren input = Some (Some v))"
    "\<not> isValidHoursPrecision v"
  shows "\<not> valid (validateUpdateGoal input)"
  using assms validateUpdateGoal_valid_hours[of input] by blast

lemma validateCreateGoal_invalid_hours:
  "\<not> isValidHoursPrecision (in_geschatte_uren input) \<Longrightarrow> \<not> valid (validateCreateGoal input)"
  by (simp add: validateCreateGoal_valid_iff)

lemma list_all_map_set:
  "list_all P xs \<Longrightarrow> P v \<Longrightarrow> list_all P (map_set key v xs)"
  by (induction xs) auto

lemma find_Some_in: "find P xs = Some x \<Longrightarrow> x \<in> set xs"
  by (auto simp: find_Some_iff)

lemma createGoal_hours:
  assumes "hours_ok s" "goal_hours_ok g"
  shows "hours_ok (snd (createGoal b g s))"
  using assms
  by (cases b)
     (auto simp: hours_ok_def sqlite_createGoal_def dexie_createGoal_def mock_createGoal_def
        table_add_def list_all_map_set split: sum.splits)

lemma apply_goal_updates_hours:
  assumes "goal_hours_ok g"
    "\<forall>v. set_geschatte_uren u = Some v \<longrightarrow> isValidHoursPrecision v"
    "\<forall>v. set_werkelijke_uren u = Some (Some v) \<longrightarrow> isValidHoursPrecision v"
  shows "goal_hours_ok (apply_goal_updates u g)"
  using assms
  by (auto simp: goal_hours_ok_def apply_goal_updates_def opt_all_def split: option.splits)

lemma updateGoal_hours:
  assumes "hours_ok s"
    "\<forall>v. set_geschatte_uren u = Some v \<longrightarrow> isValidHoursPrecision v"
    "\<forall>v. set_werkelijke_uren u = Some (Some v) \<longrightarrow> isValidHoursPrecision v"
  shows "hours_ok (snd (updateGoal b i u s))"
proof -
  have ex: "goal_hours_ok (apply_goal_updates u e)
      \<and> goal_hours_ok (apply_goal_updates (sql_goal_columns u) e)"
    if "find (\<lambda>x. g_id x = i) (goals s) = Some e" for e
  proof -
    have "e \<in> set (goals s)" using that by (rule find_Some_in)
    then have e: "goal_hours_ok e" using assms(1) by (simp add: hours_ok_def list_all_iff)
    have "goal_hours_ok (apply_goal_updates u e)"
      using e assms(2,3) by (rule apply_goal_updates_hours)
    moreover have "goal_hours_ok (apply_goal_updates (sql_goal_columns u) e)"
      using e assms(2,3) by (intro apply_goal_updates_hours) (simp_all add: sql_goal_columns_def)
    ultimately show ?thesis by simp
  qed
  show ?thesis
    using assms(1) ex
    by (cases b)
       (auto simp: hours_ok_def sqlite_updateGoal_def dexie_updateGoal_def mock_updateGoal_def
          Let_def list_all_map_set split: option.splits)
qed

lemma GoalService_create_hours:
  assumes "hours_ok s"
  shows "hours_ok (snd (GoalService_create b uuid now input s))"
proof (cases "valid (validateCreateGoal input) \<and> sprintExists b (in_sprint_id input) s")
  case True
  then have ok: "goal_hours_ok (created_goal uuid now input)"
    by (simp add: validateCreateGoal_valid_iff goal_hours_ok_def created_goal_def opt_all_def)
  have "snd (GoalService_create b uuid now input s) = snd (createGoal b (created_goal uuid now input) s)"
    using True by (simp add: GoalService_create_def created_goal_def Let_def split: prod.splits sum.splits)
  then show ?thesis using createGoal_hours[OF assms ok] by simp
next
  case False
  then show ?thesis using assms by (auto simp: GoalService_create_def Let_def)
qed

lemma GoalService_update_snd:
  "snd (GoalService_update b now i input s) =
     (if isValidUUID i \<and> valid (validateUpdateGoal input) \<and> getGoalById b i s \<noteq> None
      then snd (updateGoal b i (goal_updates_of now input) s) else s)"
proof (cases "isValidUUID i \<and> valid (validateUpdateGoal input)")
  case True
  show ?thesis
  proof (cases "getGoalById b i s")
    case None
    then show ?thesis using True
      by (simp add: GoalService_update_def GoalService_getById_def)
  next
    case (Some e)
    obtain r s' where u: "updateGoal b i (goal_updates_of now input) s = (r, s')"
      by (cases "updateGoal b i (goal_updates_of now input) s") auto
    show ?thesis using True Some u
      by (cases r)
         (simp_all add: GoalService_update_def GoalService_getById_def Let_def
            goal_updates_of_def[symmetric])
  qed
next
  case False
  then show ?thesis by (auto simp: GoalService_update_def Let_def)
qed

lemma GoalService_update_hours:
  assumes "hours_ok s"
  shows "hours_ok (snd (GoalService_update b now i input s))"
proof (cases "isValidUUID i \<and> valid (validateUpdateGoal input) \<and> getGoalById b i s \<noteq> None")
  case True
  note v = validateUpdateGoal_valid_hours[of input]
  have "hours_ok (snd (updateGoal b i (goal_updates_of now input) s))"
    using assms v True by (intro updateGoal_hours) (simp_all add: goal_updates_of_def)
  then show ?thesis using True by (simp add: GoalService_update_snd)
next
  case False
  then show ?thesis using assms by (auto simp: GoalService_update_snd)
qed

lemma createSprint_goals [simp]: "goals (snd (createSprint b x s)) = goals s"
  by (cases b)
     (auto simp: sqlite_createSprint_def dexie_createSprint_def mock_createSprint_def
        split: sum.splits)

lemma createCriterion_goals [simp]: "goals (snd (createCriterion b c s)) = goals s"
  by (cases b)
     (auto simp: sqlite_createCriterion_def dexie_createCriterion_def mock_createCriterion_def
        split: sum.splits)

lemma mock_cascade_goals_subset:
  "set (fst (fold (\<lambda>goal (gs, cs).
                if sprint_id goal = i
                then (map_delete g_id (g_id goal) gs, mock_delete_criteria_of (g_id goal) cs)
                else (gs, cs)) xs (gs, cs))) \<subseteq> set gs"
proof (induction xs arbitrary: gs cs)
  case Nil
  then show ?case by simp
next
  case (Cons x xs)
  show ?case
  proof (cases "sprint_id x = i")
    case True
    have "set (map_delete g_id (g_id x) gs) \<subseteq> set gs" by (auto simp: map_delete_def)
    then show ?thesis using True Cons.IH[of "map_delete g_id (g_id x) gs"] by fastforce
  next
    case False
    then show ?thesis using Cons.IH[of gs cs] by simp
  qed
qed

lemma deleteSprint_goals_subset: "set (goals (snd (deleteSprint b i s))) \<subseteq> set (goals s)"
proof (cases b)
  case SQLite
  then show ?thesis by (auto simp: sqlite_deleteSprint_def Let_def)
next
  case Dexie
  then show ?thesis by (auto simp: dexie_deleteSprint_def Let_def)
next
  case Mock
  then show ?thesis
    using mock_cascade_goals_subset[of i "goals s" "goals s" "criteria s"]
    by (simp add: mock_deleteSprint_def Let_def split_def)
qed

lemma deleteGoal_goals_subset: "set (goals (snd (deleteGoal b i s))) \<subseteq> set (goals s)"
  by (cases b) (auto simp: sqlite_deleteGoal_def dexie_deleteGoal_def mock_deleteGoal_def
      map_delete_def Let_def)

lemma hours_ok_subset: "hours_ok s \<Longrightarrow> set (goals s') \<subseteq> set (goals s) \<Longrightarrow> hours_ok s'"
  by (auto simp: hours_ok_def list_all_iff)

lemma SprintService_delete_hours: "hours_ok s \<Longrightarrow> hours_ok (snd (SprintService_delete b i s))"
  using deleteSprint_goals_subset[of b i s]
  by (auto simp: SprintService_delete_def intro: hours_ok_subset)

lemma GoalService_delete_hours: "hours_ok s \<Longrightarrow> hours_ok (snd (GoalService_delete b i s))"
  using deleteGoal_goals_subset[of b i s]
  by (auto simp: GoalService_delete_def intro: hours_ok_subset)

lemma import_criteria_goals: "goals (snd (snd (import_criteria b cs (st, s)))) = goals s"
proof (induction cs arbitrary: st s)
  case Nil
  then show ?case by simp
next
  case (Cons c cs)
  let ?c = "criterion_of c"
  obtain r s' where cr: "createCriterion b ?c s = (r, s')"
    by (cases "createCriterion b ?c s") auto
  then have g: "goals s' = goals s" using createCriterion_goals[of b ?c s] by simp
  show ?case using cr g Cons.IH by (cases r) simp_all
qed

lemma goal_of_hours [simp]: "goal_hours_ok (goal_of g) = goal_hours_ok g"
  by (simp add: goal_of_def goal_hours_ok_def)

lemma import_goals_hours:
  assumes "list_all goal_hours_ok gds" "hours_ok s"
  shows "hours_ok (snd (snd (import_goals b gds (st, s))))"
  using assms
proof (induction gds arbitrary: st s)
  case Nil
  then show ?case by simp
next
  case (Cons gd gds)
  obtain r s1 where cg: "createGoal b (goal_of gd) s = (r, s1)"
    by (cases "createGoal b (goal_of gd) s") auto
  have ok1: "hours_ok s1"
    using createGoal_hours[of s "goal_of gd" b] Cons.prems cg by simp
  show ?case
  proof (cases r)
    case (Inl e)
    then show ?thesis using cg ok1 by simp
  next
    case (Inr u)
    obtain r2 st2 s2 where ic: "import_criteria b (success_criteria gd) (st\<lparr>r_goals := r_goals st + 1\<rparr>, s1) = (r2, st2, s2)"
      by (cases "import_criteria b (success_criteria gd) (st\<lparr>r_goals := r_goals st + 1\<rparr>, s1)") auto
    have "goals s2 = goals s1"
      using import_criteria_goals[of b "success_criteria gd" "st\<lparr>r_goals := r_goals st + 1\<rparr>" s1] ic by simp
    then have ok2: "hours_ok s2" using ok1 by (simp add: hours_ok_def)
    show ?thesis
      using Inr cg ic ok2 Cons.IH[of s2 st2] Cons.prems(1)
      by (cases r2) simp_all
  qed
qed

lemma import_sprint_hours:
  assumes "list_all goal_hours_ok (sw_goals sd)" "hours_ok s"
  shows "hours_ok (snd (snd (import_sprint b sd (st, s))))"
proof -
  obtain r s1 where cs: "createSprint b (sprint_of sd) s = (r, s1)"
    by (cases "createSprint b (sprint_of sd) s") auto
  have "goals s1 = goals s" using createSprint_goals[of b "sprint_of sd" s] cs by simp
  then have ok1: "hours_ok s1" using assms(2) by (simp add: hours_ok_def)
  show ?thesis
    using cs ok1 import_goals_hours[OF assms(1) ok1]
    by (cases r) (simp_all add: import_sprint_def)
qed

lemma import_sprints_hours:
  assumes "list_all (\<lambda>sd. list_all goal_hours_ok (sw_goals sd)) sds" "hours_ok s"
  shows "hours_ok (snd (snd (import_sprints b ow sds (st, s))))"
  using assms
proof (induction sds arbitrary: st s)
  case Nil
  then show ?case by simp
next
  case (Cons sd sds)
  have gs: "list_all goal_hours_ok (sw_goals sd)"
    and rest: "list_all (\<lambda>sd. list_all goal_hours_ok (sw_goals sd)) sds"
    using Cons.prems(1) by simp_all
  have step: "hours_ok (snd (snd (case import_sprint b sd (st', s') of
             (Inl e, cs) \<Rightarrow> (Inl e, cs)
           | (Inr u, cs) \<Rightarrow> import_sprints b ow sds cs)))" if ok: "hours_ok s'" for st' s'
  proof -
    obtain r st2 s2 where im: "import_sprint b sd (st', s') = (r, st2, s2)"
      by (cases "import_sprint b sd (st', s')") auto
    have ok2: "hours_ok s2" using import_sprint_hours[OF gs ok, of b st'] im by simp
    show ?thesis using im ok2 Cons.IH[OF rest ok2] by (cases r) simp_all
  qed
  show ?case
  proof (cases "SprintService_getById b (s_id sd) s")
    case (Inl e)
    then show ?thesis using Cons.prems(2) by simp
  next
    case (Inr found)
    show ?thesis
    proof (cases found)
      case None
      then show ?thesis using Inr step[OF Cons.prems(2), of st] by simp
    next
      case (Some existing)
      show ?thesis
      proof (cases ow)
        case True
        obtain r s1 where d: "SprintService_delete b (s_id sd) s = (r, s1)"
          by (cases "SprintService_delete b (s_id sd) s") auto
        have ok1: "hours_ok s1"
          using SprintService_delete_hours[OF Cons.prems(2), of b "s_id sd"] d by simp
        have owT: "ow = True" using True by simp
        show ?thesis using Inr Some d ok1 step[OF ok1, of st] unfolding owT
          by (cases r) simp_all
      next
        case False
        then show ?thesis using Inr Some Cons.IH[OF rest Cons.prems(2)] by simp
      qed
    qed
  qed
qed

lemma transaction_state:
  "snd (snd (transaction b work (c, s))) = s
   \<or> snd (snd (transaction b work (c, s))) = snd (snd (to_the_end work (c, s)))
   \<or> snd (snd (transaction b work (c, s))) = snd (when_caller_resumes work (c, s))"
  by (cases b; cases "to_the_end work (c, s)"; cases "fst (to_the_end work (c, s))")
     (auto simp: sqlite_transaction_def dexie_transaction_def mock_transaction_def)

lemma settled_state:
  "snd (settled b work (c, s)) = s \<or> snd (settled b work (c, s)) = snd (snd (to_the_end work (c, s)))"
  by (cases b; cases "to_the_end work (c, s)"; cases "fst (to_the_end work (c, s))")
     (auto simp: sqlite_left_running_def dexie_transaction_def mock_transaction_def)

lemma import_work_simps [simp]:
  "when_caller_resumes (import_work b ow sds) = (\<lambda>cs. cs)"
  "to_the_end (import_work b ow sds) = import_sprints b ow sds"
  by (simp_all add: import_work_def)

lemma enumerate_member:
  assumes "x \<in> set xs"
  shows "\<exists>i. (i, x) \<in> set (enumerate n xs)"
  using assms
proof (induction xs arbitrary: n)
  case Nil
  then show ?case by simp
next
  case (Cons a xs)
  show ?case
  proof (cases "x = a")
    case True
    then show ?thesis by auto
  next
    case False
    then have "x \<in> set xs" using Cons.prems by simp
    then obtain i where "(i, x) \<in> set (enumerate (Suc n) xs)" using Cons.IH by blast
    then show ?thesis by auto
  qed
qed

lemma concat_enumerate_Nil:
  assumes "concat (map (\<lambda>(i, x). f x i) (enumerate n xs)) = []" "x \<in> set xs"
  shows "\<exists>i. f x i = []"
proof -
  obtain i where "(i, x) \<in> set (enumerate n xs)" using enumerate_member[OF assms(2)] by blast
  then show ?thesis using assms(1) by force
qed

lemma validateGoalData_hours:
  assumes "validateGoalData parses g prefix = []"
  shows "goal_hours_ok g"
proof -
  from assms
  have 1: "(if geschatte_uren g < 0
        then [prefix @ ''.geschatte_uren: must be a non-negative number'']
        else if \<not> isValidHoursPrecision (geschatte_uren g)
          then [prefix @ ''.geschatte_uren: must be in 0.25 hour increments'']
        else []) = []"
   and 2: "(case werkelijke_uren g of
          None \<Rightarrow> []
        | Some v \<Rightarrow>
            if v < 0 then [prefix @ ''.werkelijke_uren: must be a non-negative number or null'']
            else if \<not> isValidHoursPrecision v
              then [prefix @ ''.werkelijke_uren: must be in 0.25 hour increments'']
            else []) = []"
    unfolding validateGoalData_def append_is_Nil_conv by blast+
  have a: "isValidHoursPrecision (geschatte_uren g)" using 1 by (simp split: if_splits)
  have b: "opt_all isValidHoursPrecision (werkelijke_uren g)"
    using 2 by (simp add: opt_all_def split: option.splits if_splits)
  show ?thesis using a b by (simp add: goal_hours_ok_def)
qed

lemma validateSprintData_hours:
  assumes "validateSprintData parses sd index = []" "g \<in> set (sw_goals sd)"
  shows "goal_hours_ok g"
proof -
  from assms(1)
  have "concat (map (\<lambda>(i, g). validateGoalData parses g
                      ((''Sprint['' @ show_nat index @ '']'') @ ''.goals['' @ show_nat i @ '']''))
                 (enumerate 0 (sw_goals sd))) = []"
    unfolding validateSprintData_def Let_def append_is_Nil_conv by blast
  then obtain i where "validateGoalData parses g
        ((''Sprint['' @ show_nat index @ '']'') @ ''.goals['' @ show_nat i @ '']'') = []"
    using concat_enumerate_Nil[where f="\<lambda>g i. validateGoalData parses g
        ((''Sprint['' @ show_nat index @ '']'') @ ''.goals['' @ show_nat i @ '']'')", OF _ assms(2)]
    by blast
  then show ?thesis by (rule validateGoalData_hours)
qed

lemma validateImportData_hours:
  assumes "valid (validateImportData parses data)" "sd \<in> set (doc_sprints data)" "g \<in> set (sw_goals sd)"
  shows "goal_hours_ok g"
proof -
  have "concat (map (\<lambda>(i, x). validateSprintData parses x i) (enumerate 0 (doc_sprints data))) = []"
    using assms(1) by (simp add: validateImportData_def)
  then obtain i where "validateSprintData parses sd i = []"
    using concat_enumerate_Nil[where f="\<lambda>x i. validateSprintData parses x i", OF _ assms(2)] by blast
  then show ?thesis using assms(3) by (rule validateSprintData_hours)
qed

lemma importData_rejects:
  "\<not> valid (validateImportData parses data) \<Longrightarrow>
     importData b parses data ow s = (stats0\<lparr>errors := v_errors (validateImportData parses data)\<rparr>, s)"
  by (simp add: importData_def)

lemma importData_settled_rejects:
  "\<not> valid (validateImportData parses data) \<Longrightarrow>
     importData_settled b parses data ow s
       = (stats0\<lparr>errors := v_errors (validateImportData parses data)\<rparr>, s)"
  by (simp add: importData_settled_def importData_rejects)

lemma importData_hours:
  assumes "hours_ok s"
  shows "hours_ok (snd (importData b parses data ow s))"
proof (cases "valid (validateImportData parses data)")
  case False
  then show ?thesis using assms by (simp add: importData_rejects)
next
  case True
  have all: "list_all (\<lambda>sd. list_all goal_hours_ok (sw_goals sd)) (doc_sprints data)"
    using validateImportData_hours[OF True] by (auto simp: list_all_iff)
  let ?w = "import_work b ow (doc_sprints data)"
  have w: "hours_ok (snd (snd (to_the_end ?w (stats0, s))))"
    using import_sprints_hours[OF all assms] by simp
  have "hours_ok (snd (snd (transaction b ?w (stats0, s))))"
    using transaction_state[of b ?w stats0 s] w assms by auto
  then show ?thesis
    using True
    by (cases "transaction b ?w (stats0, s)"; cases "fst (transaction b ?w (stats0, s))")
       (auto simp: importData_def)
qed

lemma importData_settled_hours:
  assumes "hours_ok s"
  shows "hours_ok (snd (importData_settled b parses data ow s))"
proof (cases "valid (validateImportData parses data)")
  case False
  then show ?thesis using assms by (simp add: importData_settled_rejects)
next
  case True
  have all: "list_all (\<lambda>sd. list_all goal_hours_ok (sw_goals sd)) (doc_sprints data)"
    using validateImportData_hours[OF True] by (auto simp: list_all_iff)
  let ?w = "import_work b ow (doc_sprints data)"
  have w: "hours_ok (snd (snd (to_the_end ?w (stats0, s))))"
    using import_sprints_hours[OF all assms] by simp
  have "hours_ok (snd (settled b ?w (stats0, s)))"
    using settled_state[of b ?w stats0 s] w assms by auto
  then show ?thesis
    using True importData_hours[OF assms, of b parses data ow]
    by (cases "fst (transaction b ?w (stats0, s))") (simp_all add: importData_settled_def)
qed

lemma importData_settled_awaited:
  assumes "b \<noteq> SQLite"
  shows "importData_settled b parses data ow s = importData b parses data ow s"
proof (cases "valid (validateImportData parses data)")
  case False
  then show ?thesis by (simp add: importData_settled_def)
next
  case True
  let ?w = "import_work b ow (doc_sprints data)"
  obtain r c' s' where w: "to_the_end ?w (stats0, s) = (r, c', s')"
    by (cases "to_the_end ?w (stats0, s)") auto
  show ?thesis
    using assms True w
    by (cases b; cases r)
       (simp_all add: importData_settled_def importData_def dexie_transaction_def
          mock_transaction_def)
qed

subsection \<open>Export and import\<close>

lemma map_set_append: "\<not> map_has key (key v) xs \<Longrightarrow> map_set key v xs = xs @ [v]"
  by (induction xs) (auto simp: map_has_def)

lemma createSprint_append:
  assumes "\<not> map_has s_id (s_id x) (sprints t)"
    and "b = SQLite \<Longrightarrow> sprint_checks x \<and> volgnummer x \<notin> volgnummer ` set (sprints t)"
  shows "createSprint b x t = (Inr (), t\<lparr>sprints := sprints t @ [x]\<rparr>)"
proof (cases b)
  case SQLite
  have nv: "volgnummer x \<notin> volgnummer ` set (sprints t)"
    using assms(2)[OF SQLite] by simp
  have "\<not> list_ex (\<lambda>y. volgnummer y = volgnummer x) (sprints t)"
  proof
    assume "list_ex (\<lambda>y. volgnummer y = volgnummer x) (sprints t)"
    then obtain y where "y \<in> set (sprints t)" "volgnummer y = volgnummer x"
      by (auto simp: list_ex_iff)
    then have "volgnummer x \<in> volgnummer ` set (sprints t)" by (metis imageI)
    with nv show False by simp
  qed
  then show ?thesis using SQLite assms
    by (simp add: sqlite_createSprint_def)
next
  case Dexie
  then show ?thesis using assms(1) by (simp add: dexie_createSprint_def table_add_def)
next
  case Mock
  then show ?thesis using assms(1) by (simp add: mock_createSprint_def map_set_append)
qed

lemma createGoal_append:
  assumes "\<not> map_has g_id (g_id g) (goals t)"
    and "b = SQLite \<Longrightarrow> goal_checks g \<and> map_has s_id (sprint_id g) (sprints t)"
  shows "createGoal b g t = (Inr (), t\<lparr>goals := goals t @ [g]\<rparr>)"
proof (cases b)
  case SQLite
  then show ?thesis using assms by (simp add: sqlite_createGoal_def)
next
  case Dexie
  then show ?thesis using assms(1) by (simp add: dexie_createGoal_def table_add_def)
next
  case Mock
  then show ?thesis using assms(1) by (simp add: mock_createGoal_def map_set_append)
qed

lemma createCriterion_append:
  assumes "\<not> map_has c_id (c_id c) (criteria t)"
    and "b = SQLite \<Longrightarrow> criterion_checks c \<and> map_has g_id (goal_id c) (goals t)"
  shows "createCriterion b c t = (Inr (), t\<lparr>criteria := criteria t @ [c]\<rparr>)"
proof (cases b)
  case SQLite
  then show ?thesis using assms by (simp add: sqlite_createCriterion_def)
next
  case Dexie
  then show ?thesis using assms(1) by (simp add: dexie_createCriterion_def table_add_def)
next
  case Mock
  then show ?thesis using assms(1) by (simp add: mock_createCriterion_def map_set_append)
qed

lemma criterion_of_id [simp]: "criterion_of (c :: SuccessCriterion) = c"
  by (simp add: criterion_of_def)

lemma map_has_set: "map_has key k xs \<longleftrightarrow> k \<in> key ` set xs"
  by (auto simp: map_has_def list_ex_iff)

lemma import_criteria_append:
  assumes "distinct (map c_id (criteria t @ cs))"
    and "\<forall>c \<in> set cs. goal_id c = gid"
    and "b = SQLite \<Longrightarrow> map_has g_id gid (goals t) \<and> list_all criterion_checks cs"
  shows "import_criteria b cs (st, t)
     = (Inr (), st\<lparr>r_criteria := r_criteria st + length cs\<rparr>, t\<lparr>criteria := criteria t @ cs\<rparr>)"
  using assms
proof (induction cs arbitrary: st t)
  case Nil
  then show ?case by simp
next
  case (Cons c cs)
  have fresh: "\<not> map_has c_id (c_id c) (criteria t)"
    using Cons.prems(1) by (auto simp: map_has_set)
  have fk: "b = SQLite \<Longrightarrow> criterion_checks c \<and> map_has g_id (goal_id c) (goals t)"
    using Cons.prems(2,3) by simp
  have step: "createCriterion b c t = (Inr (), t\<lparr>criteria := criteria t @ [c]\<rparr>)"
    using fresh fk by (rule createCriterion_append)
  let ?t = "t\<lparr>criteria := criteria t @ [c]\<rparr>"
  have ih: "import_criteria b cs (st\<lparr>r_criteria := r_criteria st + 1\<rparr>, ?t)
      = (Inr (), st\<lparr>r_criteria := r_criteria st + 1\<rparr>\<lparr>r_criteria := r_criteria (st\<lparr>r_criteria := r_criteria st + 1\<rparr>) + length cs\<rparr>,
         ?t\<lparr>criteria := criteria ?t @ cs\<rparr>)"
    using Cons.prems by (intro Cons.IH) simp_all
  show ?case using step ih by simp
qed

lemma goal_of_fields [simp]:
  "g_id (goal_of g) = g_id g" "sprint_id (goal_of g) = sprint_id g"
  by (simp_all add: goal_of_def)

lemma sprint_of_fields [simp]:
  "s_id (sprint_of x) = s_id x" "volgnummer (sprint_of x) = volgnummer x"
  by (simp_all add: sprint_of_def)

lemma distinct_map_append_left:
  "distinct (map f (xs @ ys @ zs)) \<Longrightarrow> distinct (map f (xs @ ys))"
  by auto

lemma import_goals_append:
  assumes "distinct (map g_id (goals t @ map goal_of gds))"
    and "distinct (map c_id (criteria t @ concat (map success_criteria gds)))"
    and "\<forall>gd \<in> set gds. sprint_id gd = sid \<and> (\<forall>c \<in> set (success_criteria gd). goal_id c = g_id gd)"
    and "b = SQLite \<Longrightarrow> map_has s_id sid (sprints t)
           \<and> list_all (\<lambda>gd. goal_checks (goal_of gd) \<and> list_all criterion_checks (success_criteria gd)) gds"
  shows "import_goals b gds (st, t)
     = (Inr (),
        st\<lparr>r_goals := r_goals st + length gds,
           r_criteria := r_criteria st + length (concat (map success_criteria gds))\<rparr>,
        t\<lparr>goals := goals t @ map goal_of gds,
          criteria := criteria t @ concat (map success_criteria gds)\<rparr>)"
  using assms
proof (induction gds arbitrary: st t)
  case Nil
  then show ?case by simp
next
  case (Cons gd gds)
  let ?g = "goal_of gd"
  have fresh: "\<not> map_has g_id (g_id ?g) (goals t)"
    using Cons.prems(1) by (auto simp: map_has_set)
  have fk: "b = SQLite \<Longrightarrow> goal_checks ?g \<and> map_has s_id (sprint_id ?g) (sprints t)"
    using Cons.prems(3,4) by simp
  have step: "createGoal b ?g t = (Inr (), t\<lparr>goals := goals t @ [?g]\<rparr>)"
    using fresh fk by (rule createGoal_append)
  let ?t1 = "t\<lparr>goals := goals t @ [?g]\<rparr>"
  let ?st1 = "st\<lparr>r_goals := r_goals st + 1\<rparr>"
  have c1: "distinct (map c_id (criteria ?t1 @ success_criteria gd))"
    using distinct_map_append_left[of c_id "criteria t" "success_criteria gd"
        "concat (map success_criteria gds)"] Cons.prems(2) by simp
  have c2: "\<forall>c \<in> set (success_criteria gd). goal_id c = g_id gd"
    using Cons.prems(3) by simp
  have c3: "b = SQLite \<Longrightarrow> map_has g_id (g_id gd) (goals ?t1) \<and> list_all criterion_checks (success_criteria gd)"
    using Cons.prems(4) by (simp add: map_has_set)
  have crit: "import_criteria b (success_criteria gd) (?st1, ?t1)
      = (Inr (), ?st1\<lparr>r_criteria := r_criteria ?st1 + length (success_criteria gd)\<rparr>,
         ?t1\<lparr>criteria := criteria ?t1 @ success_criteria gd\<rparr>)"
    using c1 c2 c3 by (rule import_criteria_append)
  let ?t2 = "?t1\<lparr>criteria := criteria ?t1 @ success_criteria gd\<rparr>"
  let ?st2 = "?st1\<lparr>r_criteria := r_criteria ?st1 + length (success_criteria gd)\<rparr>"
  have ih: "import_goals b gds (?st2, ?t2)
     = (Inr (),
        ?st2\<lparr>r_goals := r_goals ?st2 + length gds,
           r_criteria := r_criteria ?st2 + length (concat (map success_criteria gds))\<rparr>,
        ?t2\<lparr>goals := goals ?t2 @ map goal_of gds,
          criteria := criteria ?t2 @ concat (map success_criteria gds)\<rparr>)"
  proof (rule Cons.IH)
    show "distinct (map g_id (goals ?t2 @ map goal_of gds))" using Cons.prems(1) by simp
    show "distinct (map c_id (criteria ?t2 @ concat (map success_criteria gds)))"
      using Cons.prems(2) by simp
    show "\<forall>gd \<in> set gds. sprint_id gd = sid \<and> (\<forall>c \<in> set (success_criteria gd). goal_id c = g_id gd)"
      using Cons.prems(3) by simp
    show "map_has s_id sid (sprints ?t2)
           \<and> list_all (\<lambda>gd. goal_checks (goal_of gd) \<and> list_all criterion_checks (success_criteria gd)) gds"
      if "b = SQLite"
      using Cons.prems(4)[OF that] by simp
  qed
  show ?case using step crit ih by simp
qed

lemma doc_goals_simps [simp]:
  "doc_goals [] = []" "doc_goals (sd # sds) = sw_goals sd @ doc_goals sds"
  by (simp_all add: doc_goals_def)

lemma doc_criteria_simps [simp]:
  "doc_criteria [] = []"
  "doc_criteria (sd # sds) = concat (map success_criteria (sw_goals sd)) @ doc_criteria sds"
  by (simp_all add: doc_criteria_def)

lemma getById_fresh:
  assumes "isValidUUID i" "\<not> map_has s_id i (sprints t)"
  shows "SprintService_getById b i t = Inr None"
proof -
  have "find (\<lambda>x. s_id x = i) (sprints t) = None"
    using assms(2) by (simp add: map_has_find)
  then show ?thesis using assms(1) by (simp add: SprintService_getById_def getSprintById_find)
qed

lemma import_sprints_append:
  assumes "list_all (\<lambda>sd. isValidUUID (s_id sd)) sds"
    and "distinct (map s_id (sprints t @ map sprint_of sds))"
    and "distinct (map g_id (goals t @ map goal_of (doc_goals sds)))"
    and "distinct (map c_id (criteria t @ doc_criteria sds))"
    and "\<forall>sd \<in> set sds. \<forall>gd \<in> set (sw_goals sd).
           sprint_id gd = s_id sd \<and> (\<forall>c \<in> set (success_criteria gd). goal_id c = g_id gd)"
    and "b = SQLite \<Longrightarrow> distinct (map volgnummer (sprints t @ map sprint_of sds))
           \<and> list_all (\<lambda>sd. sprint_checks (sprint_of sd)
                \<and> list_all (\<lambda>gd. goal_checks (goal_of gd)
                     \<and> list_all criterion_checks (success_criteria gd)) (sw_goals sd)) sds"
  shows "import_sprints b ow sds (st, t)
     = (Inr (),
        st\<lparr>r_sprints := r_sprints st + length sds,
           r_goals := r_goals st + length (doc_goals sds),
           r_criteria := r_criteria st + length (doc_criteria sds)\<rparr>,
        t\<lparr>sprints := sprints t @ map sprint_of sds,
          goals := goals t @ map goal_of (doc_goals sds),
          criteria := criteria t @ doc_criteria sds\<rparr>)"
  using assms
proof (induction sds arbitrary: st t)
  case Nil
  then show ?case by simp
next
  case (Cons sd sds)
  let ?x = "sprint_of sd"
  have fresh: "\<not> map_has s_id (s_id ?x) (sprints t)"
    using Cons.prems(2) by (auto simp: map_has_set)
  have uuid: "isValidUUID (s_id sd)" using Cons.prems(1) by simp
  have lookup: "SprintService_getById b (s_id sd) t = Inr None"
    using uuid fresh by (simp add: getById_fresh)
  have sql: "b = SQLite \<Longrightarrow> sprint_checks ?x \<and> volgnummer ?x \<notin> volgnummer ` set (sprints t)"
    using Cons.prems(6) by auto
  have step: "createSprint b ?x t = (Inr (), t\<lparr>sprints := sprints t @ [?x]\<rparr>)"
    using fresh sql by (rule createSprint_append)
  let ?t1 = "t\<lparr>sprints := sprints t @ [?x]\<rparr>"
  let ?st1 = "st\<lparr>r_sprints := r_sprints st + 1\<rparr>"
  let ?cs = "concat (map success_criteria (sw_goals sd))"
  have g1: "distinct (map g_id (goals ?t1 @ map goal_of (sw_goals sd)))"
    using distinct_map_append_left[of g_id "goals t" "map goal_of (sw_goals sd)"
        "map goal_of (doc_goals sds)"] Cons.prems(3) by simp
  have g2: "distinct (map c_id (criteria ?t1 @ ?cs))"
    using distinct_map_append_left[of c_id "criteria t" ?cs "doc_criteria sds"] Cons.prems(4)
    by simp
  have g3: "\<forall>gd \<in> set (sw_goals sd). sprint_id gd = s_id sd
        \<and> (\<forall>c \<in> set (success_criteria gd). goal_id c = g_id gd)"
    using Cons.prems(5) by simp
  have g4: "b = SQLite \<Longrightarrow> map_has s_id (s_id sd) (sprints ?t1)
           \<and> list_all (\<lambda>gd. goal_checks (goal_of gd) \<and> list_all criterion_checks (success_criteria gd))
                (sw_goals sd)"
    using Cons.prems(6) by (simp add: map_has_set)
  have gl: "import_goals b (sw_goals sd) (?st1, ?t1)
     = (Inr (),
        ?st1\<lparr>r_goals := r_goals ?st1 + length (sw_goals sd),
           r_criteria := r_criteria ?st1 + length ?cs\<rparr>,
        ?t1\<lparr>goals := goals ?t1 @ map goal_of (sw_goals sd),
          criteria := criteria ?t1 @ ?cs\<rparr>)"
    using g1 g2 g3 g4 by (rule import_goals_append)
  let ?st2 = "?st1\<lparr>r_goals := r_goals ?st1 + length (sw_goals sd),
           r_criteria := r_criteria ?st1 + length ?cs\<rparr>"
  let ?t2 = "?t1\<lparr>goals := goals ?t1 @ map goal_of (sw_goals sd),
          criteria := criteria ?t1 @ ?cs\<rparr>"
  have one: "import_sprint b sd (st, t) = (Inr (), ?st2, ?t2)"
    using step gl by (simp add: import_sprint_def)
  have ih: "import_sprints b ow sds (?st2, ?t2)
     = (Inr (),
        ?st2\<lparr>r_sprints := r_sprints ?st2 + length sds,
           r_goals := r_goals ?st2 + length (doc_goals sds),
           r_criteria := r_criteria ?st2 + length (doc_criteria sds)\<rparr>,
        ?t2\<lparr>sprints := sprints ?t2 @ map sprint_of sds,
          goals := goals ?t2 @ map goal_of (doc_goals sds),
          criteria := criteria ?t2 @ doc_criteria sds\<rparr>)"
  proof (rule Cons.IH)
    show "list_all (\<lambda>sd. isValidUUID (s_id sd)) sds" using Cons.prems(1) by simp
    show "distinct (map s_id (sprints ?t2 @ map sprint_of sds))" using Cons.prems(2) by simp
    show "distinct (map g_id (goals ?t2 @ map goal_of (doc_goals sds)))"
      using Cons.prems(3) by simp
    show "distinct (map c_id (criteria ?t2 @ doc_criteria sds))" using Cons.prems(4) by simp
    show "\<forall>sd \<in> set sds. \<forall>gd \<in> set (sw_goals sd).
           sprint_id gd = s_id sd \<and> (\<forall>c \<in> set (success_criteria gd). goal_id c = g_id gd)"
      using Cons.prems(5) by simp
    show "distinct (map volgnummer (sprints ?t2 @ map sprint_of sds))
           \<and> list_all (\<lambda>sd. sprint_checks (sprint_of sd)
                \<and> list_all (\<lambda>gd. goal_checks (goal_of gd)
                     \<and> list_all criterion_checks (success_criteria gd)) (sw_goals sd)) sds"
      if "b = SQLite"
      using Cons.prems(6)[OF that] by simp
  qed
  show ?case using lookup one ih by simp
qed

lemma distinct_map_sort_key [simp]:
  "distinct (map f (sort_key k xs)) = distinct (map f xs)"
  by (simp add: distinct_map)

lemma distinct_map_filter_keep: "distinct (map f xs) \<Longrightarrow> distinct (map f (filter P xs))"
  by (simp add: distinct_map_filter)

lemma distinct_concat_groups:
  assumes "distinct (map key ys)" and "distinct (map pk xs)"
    and "\<forall>x \<in> set xs. set (F x) \<subseteq> {y \<in> set ys. ref y = pk x} \<and> distinct (map key (F x))"
  shows "distinct (map key (concat (map F xs)))"
  using assms(2,3)
proof (induction xs)
  case Nil
  then show ?case by simp
next
  case (Cons x xs)
  have inj: "inj_on key (set ys)" using assms(1) by (simp add: distinct_map)
  have ih: "distinct (map key (concat (map F xs)))" using Cons by simp
  have dx: "distinct (map key (F x))" using Cons.prems(2) by simp
  have disj: "key ` set (F x) \<inter> key ` set (concat (map F xs)) = {}"
  proof (rule ccontr)
    assume "key ` set (F x) \<inter> key ` set (concat (map F xs)) \<noteq> {}"
    then obtain a c where a: "a \<in> set (F x)" and c: "c \<in> set (concat (map F xs))"
      and eq: "key a = key c" by auto
    from c obtain x' where x': "x' \<in> set xs" "c \<in> set (F x')" by auto
    have a_ys: "a \<in> set ys" "ref a = pk x" using a Cons.prems(2) by auto
    have c_ys: "c \<in> set ys" "ref c = pk x'" using x' Cons.prems(2) by auto
    have "a = c" using inj a_ys(1) c_ys(1) eq by (auto dest: inj_onD)
    then have "pk x = pk x'" using a_ys(2) c_ys(2) by simp
    moreover have "pk x \<notin> pk ` set xs" using Cons.prems(1) by simp
    ultimately show False using x'(1) by (metis imageI)
  qed
  show ?case using ih dx disj by simp
qed

lemma set_concat_groups:
  assumes "\<forall>x \<in> set xs. set (F x) = {y \<in> set ys. ref y = pk x}"
  shows "set (concat (map F xs)) = {y \<in> set ys. ref y \<in> pk ` set xs}"
  using assms by auto

lemma concat_enumerate_all_Nil:
  assumes "\<forall>x \<in> set xs. \<forall>i. f x i = []"
  shows "concat (map (\<lambda>(i, x). f x i) (enumerate n xs)) = []"
  using assms by (induction xs arbitrary: n) simp_all

lemma promise_all_map_Inr:
  assumes "\<forall>x \<in> set xs. f x = Inr (g x)"
  shows "promise_all (map f xs) = Inr (map g xs)"
  using assms by (induction xs) simp_all

text \<open>query results\<close>

lemma set_getAllSprints [simp]: "set (getAllSprints b s) = set (sprints s)"
  by (cases b) (simp_all add: sqlite_getAllSprints_def dexie_getAllSprints_def
      mock_getAllSprints_def by_pk_def)

lemma distinct_getAllSprints [simp]:
  "distinct (map f (getAllSprints b s)) = distinct (map f (sprints s))"
  by (cases b) (simp_all add: sqlite_getAllSprints_def dexie_getAllSprints_def
      mock_getAllSprints_def by_pk_def)

lemma set_insort_by [simp]: "set (insort_by cmp x xs) = insert x (set xs)"
  by (induction xs) auto

lemma set_sort_by [simp]: "set (sort_by cmp xs) = set xs"
  by (induction xs) (simp_all add: sort_by_def)

lemma distinct_map_insort_by:
  "distinct (map f (insort_by cmp x xs)) \<longleftrightarrow> f x \<notin> f ` set xs \<and> distinct (map f xs)"
  by (induction xs) auto

lemma distinct_map_sort_by [simp]: "distinct (map f (sort_by cmp xs)) = distinct (map f xs)"
  by (induction xs) (simp_all add: sort_by_def distinct_map_insort_by set_sort_by[unfolded sort_by_def])

lemma set_getGoalsBySprintId [simp]:
  "set (getGoalsBySprintId lc b sid s) = {g \<in> set (goals s). sprint_id g = sid}"
  by (cases b) (auto simp: sqlite_getGoalsBySprintId_def dexie_getGoalsBySprintId_def
      mock_getGoalsBySprintId_def by_pk_def)

lemma distinct_getGoalsBySprintId:
  "distinct (map f (goals s)) \<Longrightarrow> distinct (map f (getGoalsBySprintId lc b sid s))"
  by (cases b) (simp_all add: sqlite_getGoalsBySprintId_def dexie_getGoalsBySprintId_def
      mock_getGoalsBySprintId_def by_pk_def distinct_map_filter_keep)

lemma set_getCriteriaByGoalId [simp]:
  "set (getCriteriaByGoalId b gid s) = {c \<in> set (criteria s). goal_id c = gid}"
  by (cases b) (auto simp: sqlite_getCriteriaByGoalId_def dexie_getCriteriaByGoalId_def
      mock_getCriteriaByGoalId_def by_pk_def)

lemma distinct_getCriteriaByGoalId:
  "distinct (map f (criteria s)) \<Longrightarrow> distinct (map f (getCriteriaByGoalId b gid s))"
  by (cases b) (simp_all add: sqlite_getCriteriaByGoalId_def dexie_getCriteriaByGoalId_def
      mock_getCriteriaByGoalId_def by_pk_def distinct_map_filter_keep)

lemma with_fields [simp]:
  "sprint_of (with_goals x gs) = x" "sw_goals (with_goals x gs) = gs"
  "s_id (with_goals x gs) = s_id x"
  "goal_of (with_criteria g cs) = g" "success_criteria (with_criteria g cs) = cs"
  "g_id (with_criteria g cs) = g_id g" "sprint_id (with_criteria g cs) = sprint_id g"
  by (simp_all add: sprint_of_def with_goals_def goal_of_def with_criteria_def)

lemma importable_with [simp]:
  "sprint_importable (with_goals x gs) = sprint_importable x"
  "goal_importable parses (with_criteria g cs) = goal_importable parses g"
  by (simp_all add: sprint_importable_def with_goals_def goal_importable_def with_criteria_def
      goal_hours_ok_def)

lemma exportAll_eq:
  assumes "list_all (\<lambda>x. isValidUUID (s_id x)) (sprints s)"
    and "list_all (\<lambda>g. isValidUUID (g_id g)) (goals s)"
  shows "exportAll lc b now s
     = Inr \<lparr>version = EXPORT_VERSION, exported_at = now, doc_sprints = exported_sprints lc b s\<rparr>"
proof -
  have g: "export_goal b s g = Inr (with_criteria g (getCriteriaByGoalId b (g_id g) s))"
    if "g \<in> set (goals s)" for g
    using that assms(2) by (simp add: export_goal_def CriterionService_getByGoalId_def list_all_iff)
  have x: "export_sprint lc b s x = Inr (with_goals x (exported_goals lc b s x))"
    if "x \<in> set (sprints s)" for x
  proof -
    have u: "isValidUUID (s_id x)" using that assms(1) by (simp add: list_all_iff)
    have "promise_all (map (export_goal b s) (getGoalsBySprintId lc b (s_id x) s))
        = Inr (exported_goals lc b s x)"
      unfolding exported_goals_def
      by (rule promise_all_map_Inr) (simp add: g)
    then show ?thesis using u by (simp add: export_sprint_def GoalService_getBySprintId_def)
  qed
  have "promise_all (map (export_sprint lc b s) (SprintService_getAll b s)) = Inr (exported_sprints lc b s)"
    unfolding exported_sprints_def SprintService_getAll_def
    by (rule promise_all_map_Inr) (simp add: x)
  then show ?thesis by (simp add: exportAll_def)
qed

lemma validateCriterionData_ok:
  "criterion_importable c \<Longrightarrow> validateCriterionData c prefix = []"
  by (simp add: criterion_importable_def validateCriterionData_def)

lemma validateGoalData_ok:
  assumes "goal_importable parses g" "list_all criterion_importable (success_criteria g)"
  shows "validateGoalData parses g prefix = []"
proof -
  have c: "concat (map (\<lambda>(i, c). validateCriterionData c
                     (prefix @ ''.success_criteria['' @ show_nat i @ '']''))
                (enumerate 0 (success_criteria g))) = []"
    using assms(2)
    by (intro concat_enumerate_all_Nil[where f="\<lambda>c i. validateCriterionData c
                     (prefix @ ''.success_criteria['' @ show_nat i @ '']'')"])
       (simp add: list_all_iff validateCriterionData_ok)
  have h: "isValidHoursPrecision (geschatte_uren g)" "\<not> geschatte_uren g < 0"
    "opt_all isValidHoursPrecision (werkelijke_uren g)"
    using assms(1) by (simp_all add: goal_importable_def goal_hours_ok_def isValidHoursPrecision_def)
  have w: "(case werkelijke_uren g of
          None \<Rightarrow> []
        | Some v \<Rightarrow>
            if v < 0 then [prefix @ ''.werkelijke_uren: must be a non-negative number or null'']
            else if \<not> isValidHoursPrecision v
              then [prefix @ ''.werkelijke_uren: must be in 0.25 hour increments'']
            else []) = []"
    using h(3) by (auto simp: opt_all_def isValidHoursPrecision_def split: option.splits)
  show ?thesis
    unfolding validateGoalData_def c w
    using assms(1) h by (simp add: goal_importable_def)
qed

lemma validateSprintData_ok:
  assumes "sprint_importable x"
    "list_all (\<lambda>g. goal_importable parses g \<and> list_all criterion_importable (success_criteria g)) (sw_goals x)"
  shows "validateSprintData parses x index = []"
proof -
  have c: "concat (map (\<lambda>(i, g). validateGoalData parses g
                      ((''Sprint['' @ show_nat index @ '']'') @ ''.goals['' @ show_nat i @ '']''))
                 (enumerate 0 (sw_goals x))) = []"
    using assms(2)
    by (intro concat_enumerate_all_Nil[where f="\<lambda>g i. validateGoalData parses g
                      ((''Sprint['' @ show_nat index @ '']'') @ ''.goals['' @ show_nat i @ '']'')"])
       (simp add: list_all_iff validateGoalData_ok)
  show ?thesis
    unfolding validateSprintData_def Let_def c
    using assms(1) by (simp add: sprint_importable_def)
qed

lemma validateImportData_ok:
  assumes "list_all (\<lambda>x. sprint_importable x
      \<and> list_all (\<lambda>g. goal_importable parses g \<and> list_all criterion_importable (success_criteria g))
           (sw_goals x)) (doc_sprints data)"
  shows "valid (validateImportData parses data)"
proof -
  have "concat (map (\<lambda>(i, x). validateSprintData parses x i) (enumerate 0 (doc_sprints data))) = []"
    using assms
    by (intro concat_enumerate_all_Nil[where f="\<lambda>x i. validateSprintData parses x i"])
       (simp add: list_all_iff validateSprintData_ok)
  then show ?thesis by (simp add: validateImportData_def)
qed

lemma doc_goals_exported:
  "doc_goals (exported_sprints lc b s)
     = map (\<lambda>g. with_criteria g (getCriteriaByGoalId b (g_id g) s)) (all_exported_goals lc b s)"
  by (simp add: doc_goals_def exported_sprints_def exported_goals_def all_exported_goals_def
      map_concat comp_def)

lemma sprints_exported: "map sprint_of (exported_sprints lc b s) = getAllSprints b s"
  by (simp add: exported_sprints_def comp_def)

lemma goals_exported: "map goal_of (doc_goals (exported_sprints lc b s)) = all_exported_goals lc b s"
  by (simp add: doc_goals_exported comp_def)

lemma criteria_exported:
  "doc_criteria (exported_sprints lc b s)
     = concat (map (\<lambda>g. getCriteriaByGoalId b (g_id g) s) (all_exported_goals lc b s))"
  by (simp add: doc_criteria_def doc_goals_exported comp_def)

lemma set_all_exported_goals:
  assumes "no_dangling s"
  shows "set (all_exported_goals lc b s) = set (goals s)"
proof -
  have "set (all_exported_goals lc b s) = {g \<in> set (goals s). sprint_id g \<in> s_id ` set (sprints s)}"
    unfolding all_exported_goals_def by auto
  moreover have "sprint_id g \<in> s_id ` set (sprints s)" if "g \<in> set (goals s)" for g
    using assms that by (simp add: no_dangling_def list_all_iff map_has_set)
  ultimately show ?thesis by auto
qed

lemma distinct_all_exported_goals:
  assumes "wf_db s"
  shows "distinct (map g_id (all_exported_goals lc b s))"
  unfolding all_exported_goals_def
proof (rule distinct_concat_groups[where ys="goals s" and pk=s_id and ref=sprint_id])
  show "distinct (map g_id (goals s))" using assms by (simp add: wf_db_def)
  show "distinct (map s_id (getAllSprints b s))" using assms by (simp add: wf_db_def)
  show "\<forall>x\<in>set (getAllSprints b s).
       set (getGoalsBySprintId lc b (s_id x) s) \<subseteq> {y \<in> set (goals s). sprint_id y = s_id x}
       \<and> distinct (map g_id (getGoalsBySprintId lc b (s_id x) s))"
    using assms by (simp add: wf_db_def distinct_getGoalsBySprintId)
qed

lemma set_exported_criteria:
  assumes "no_dangling s"
  shows "set (doc_criteria (exported_sprints lc b s)) = set (criteria s)"
proof -
  have "set (doc_criteria (exported_sprints lc b s))
      = {c \<in> set (criteria s). goal_id c \<in> g_id ` set (all_exported_goals lc b s)}"
    unfolding criteria_exported by auto
  moreover have "goal_id c \<in> g_id ` set (goals s)" if "c \<in> set (criteria s)" for c
    using assms that by (simp add: no_dangling_def list_all_iff map_has_set)
  ultimately show ?thesis using set_all_exported_goals[OF assms, where b=b and lc=lc] by auto
qed

lemma distinct_exported_criteria:
  assumes "wf_db s"
  shows "distinct (map c_id (doc_criteria (exported_sprints lc b s)))"
  unfolding criteria_exported
proof (rule distinct_concat_groups[where ys="criteria s" and pk=g_id and ref=goal_id])
  show "distinct (map c_id (criteria s))" using assms by (simp add: wf_db_def)
  show "distinct (map g_id (all_exported_goals lc b s))"
    using assms by (rule distinct_all_exported_goals)
  show "\<forall>x\<in>set (all_exported_goals lc b s).
       set (getCriteriaByGoalId b (g_id x) s) \<subseteq> {y \<in> set (criteria s). goal_id y = g_id x}
       \<and> distinct (map c_id (getCriteriaByGoalId b (g_id x) s))"
    using assms by (simp add: wf_db_def distinct_getCriteriaByGoalId)
qed

lemma distinct_same_set_length:
  assumes "distinct (map f xs)" "distinct (map f ys)" "set xs = set ys"
  shows "length xs = length ys"
proof -
  have "distinct xs" "distinct ys" using assms(1,2) by (auto simp: distinct_map)
  then show ?thesis using assms(3) by (metis distinct_card)
qed

lemma find_same_set:
  assumes "distinct (map key xs)" "distinct (map key ys)" "set xs = set ys"
  shows "find (\<lambda>x. key x = k) xs = find (\<lambda>x. key x = k) ys"
proof (cases "find (\<lambda>x. key x = k) ys")
  case None
  then have "find (\<lambda>x. key x = k) xs = None"
    using assms(3) by (simp add: find_None_iff)
  then show ?thesis using None by simp
next
  case (Some v)
  then have v: "v \<in> set ys" "key v = k" by (auto simp: find_Some_iff)
  have "find (\<lambda>x. key x = k) xs = Some v"
  proof (cases "find (\<lambda>x. key x = k) xs")
    case None
    then show ?thesis using v assms(3) by (auto simp: find_None_iff)
  next
    case (Some w)
    then have w: "w \<in> set xs" "key w = k" by (auto simp: find_Some_iff)
    have "inj_on key (set ys)" using assms(2) by (simp add: distinct_map)
    then have "w = v" using w v assms(3) by (auto dest: inj_onD)
    then show ?thesis using Some by simp
  qed
  then show ?thesis using Some by simp
qed

lemma exported_tree_importable:
  assumes "importable parses s"
  shows "list_all (\<lambda>x. sprint_importable x
      \<and> list_all (\<lambda>g. goal_importable parses g \<and> list_all criterion_importable (success_criteria g))
           (sw_goals x)) (exported_sprints lc b s)"
  using assms
  by (auto simp: importable_def list_all_iff exported_sprints_def exported_goals_def)

lemma exported_tree_nested:
  "\<forall>sd \<in> set (exported_sprints lc b s). \<forall>gd \<in> set (sw_goals sd).
      sprint_id gd = s_id sd \<and> (\<forall>c \<in> set (success_criteria gd). goal_id c = g_id gd)"
  by (auto simp: exported_sprints_def exported_goals_def)

lemma exported_tree_checks:
  assumes "sqlite_schema s"
  shows "list_all (\<lambda>sd. sprint_checks (sprint_of sd)
           \<and> list_all (\<lambda>gd. goal_checks (goal_of gd)
                \<and> list_all criterion_checks (success_criteria gd)) (sw_goals sd))
         (exported_sprints lc b s)"
  using assms
  by (auto simp: sqlite_schema_def list_all_iff exported_sprints_def exported_goals_def)

lemma distinct_volgnummer_getAllSprints:
  "distinct (map volgnummer (sprints s)) \<Longrightarrow> distinct (map volgnummer (getAllSprints b s))"
  by (cases b)
     (simp_all add: sqlite_getAllSprints_def dexie_getAllSprints_def mock_getAllSprints_def by_pk_def)

lemma transaction_Inr:
  "b \<noteq> SQLite \<Longrightarrow> to_the_end work cs = (Inr r, c', s')
    \<Longrightarrow> transaction b work cs = (Inr (Some r), c', s')"
  by (cases b) (simp_all add: dexie_transaction_def mock_transaction_def)

lemma settled_Inr:
  "to_the_end work cs = (Inr r, c', s') \<Longrightarrow> settled b work cs = (c', s')"
  by (cases b) (simp_all add: sqlite_left_running_def dexie_transaction_def mock_transaction_def)

lemma transaction_SQLite_import:
  "transaction SQLite (import_work b' ow sds) cs = (Inr None, cs)"
  by (simp add: sqlite_transaction_def)

lemma import_work_exported:
  assumes "store_ok parses b s"
  shows "valid (validateImportData parses
           \<lparr>version = EXPORT_VERSION, exported_at = now, doc_sprints = exported_sprints lc b s\<rparr>)
     \<and> import_sprints b False (exported_sprints lc b s) (stats0, empty_db)
       = (Inr (),
          stats0\<lparr>r_sprints := length (sprints s), r_goals := length (goals s),
                 r_criteria := length (criteria s)\<rparr>,
          \<lparr>sprints = getAllSprints b s, goals = all_exported_goals lc b s,
           criteria = doc_criteria (exported_sprints lc b s)\<rparr>)"
proof -
  let ?E = "exported_sprints lc b s"
  from assms have wf: "wf_db s" and nd: "no_dangling s" and im: "importable parses s"
    and sq: "b = SQLite \<Longrightarrow> sqlite_schema s"
    by (simp_all add: store_ok_def)
  have v: "valid (validateImportData parses
              \<lparr>version = EXPORT_VERSION, exported_at = now, doc_sprints = ?E\<rparr>)"
    by (rule validateImportData_ok) (simp add: exported_tree_importable[OF im])
  have u: "list_all (\<lambda>sd. isValidUUID (s_id sd)) ?E"
    using im by (auto simp: importable_def list_all_iff exported_sprints_def sprint_importable_def)
  have d1: "distinct (map s_id (sprints empty_db @ map sprint_of ?E))"
    using wf by (simp add: sprints_exported empty_db_def wf_db_def)
  have d2: "distinct (map g_id (goals empty_db @ map goal_of (doc_goals ?E)))"
    using distinct_all_exported_goals[OF wf, where b=b and lc=lc]
    by (simp add: goals_exported empty_db_def)
  have d3: "distinct (map c_id (criteria empty_db @ doc_criteria ?E))"
    using distinct_exported_criteria[OF wf, where b=b and lc=lc] by (simp add: empty_db_def)
  have c: "distinct (map volgnummer (sprints empty_db @ map sprint_of ?E))
         \<and> list_all (\<lambda>sd. sprint_checks (sprint_of sd)
               \<and> list_all (\<lambda>gd. goal_checks (goal_of gd)
                    \<and> list_all criterion_checks (success_criteria gd)) (sw_goals sd)) ?E"
    if "b = SQLite"
    using sq[OF that] exported_tree_checks[of s lc b] distinct_volgnummer_getAllSprints[of s b]
    by (simp add: sprints_exported empty_db_def sqlite_schema_def)
  have ls: "length ?E = length (sprints s)"
    using distinct_same_set_length[of s_id "getAllSprints b s" "sprints s"] wf
    by (simp add: exported_sprints_def wf_db_def)
  have lg: "length (doc_goals ?E) = length (goals s)"
    using distinct_same_set_length[of g_id "all_exported_goals lc b s" "goals s"] wf
      distinct_all_exported_goals[OF wf, where b=b and lc=lc]
      set_all_exported_goals[OF nd, where b=b and lc=lc]
    by (simp add: doc_goals_exported wf_db_def)
  have lcr: "length (doc_criteria ?E) = length (criteria s)"
    using distinct_same_set_length[of c_id "doc_criteria ?E" "criteria s"] wf
      distinct_exported_criteria[OF wf, where b=b and lc=lc]
      set_exported_criteria[OF nd, where b=b and lc=lc]
    by (simp add: wf_db_def)
  have w: "import_sprints b False ?E (stats0, empty_db)
      = (Inr (),
         stats0\<lparr>r_sprints := length (sprints s), r_goals := length (goals s),
                r_criteria := length (criteria s)\<rparr>,
         \<lparr>sprints = getAllSprints b s, goals = all_exported_goals lc b s,
          criteria = doc_criteria ?E\<rparr>)"
    using import_sprints_append[where st=stats0 and ow=False, OF u d1 d2 d3 exported_tree_nested c]
    by (simp add: ls lg lcr sprints_exported goals_exported stats0_def empty_db_def)
  show ?thesis using v w by simp
qed

lemma import_exported_settled:
  assumes "store_ok parses b s"
  shows "importData_settled b parses
           \<lparr>version = EXPORT_VERSION, exported_at = now, doc_sprints = exported_sprints lc b s\<rparr>
           False empty_db
       = (stats0\<lparr>r_sprints := length (sprints s), r_goals := length (goals s),
                 r_criteria := length (criteria s)\<rparr>,
          \<lparr>sprints = getAllSprints b s, goals = all_exported_goals lc b s,
           criteria = doc_criteria (exported_sprints lc b s)\<rparr>)"
proof -
  note w = import_work_exported[OF assms, of now lc]
  have e: "to_the_end (import_work b False (exported_sprints lc b s)) (stats0, empty_db)
      = (Inr (),
          stats0\<lparr>r_sprints := length (sprints s), r_goals := length (goals s),
                 r_criteria := length (criteria s)\<rparr>,
          \<lparr>sprints = getAllSprints b s, goals = all_exported_goals lc b s,
           criteria = doc_criteria (exported_sprints lc b s)\<rparr>)"
    using w by simp
  have "\<exists>r. fst (transaction b (import_work b False (exported_sprints lc b s)) (stats0, empty_db))
      = Inr r"
    using e by (cases b) (simp_all add: sqlite_transaction_def dexie_transaction_def
        mock_transaction_def)
  then show ?thesis
    using w settled_Inr[OF e, where b=b] by (auto simp: importData_settled_def)
qed

lemma import_exported:
  assumes "store_ok parses b s" "b \<noteq> SQLite"
  shows "importData b parses
           \<lparr>version = EXPORT_VERSION, exported_at = now, doc_sprints = exported_sprints lc b s\<rparr>
           False empty_db
       = (stats0\<lparr>r_sprints := length (sprints s), r_goals := length (goals s),
                 r_criteria := length (criteria s)\<rparr>,
          \<lparr>sprints = getAllSprints b s, goals = all_exported_goals lc b s,
           criteria = doc_criteria (exported_sprints lc b s)\<rparr>)"
proof -
  note w = import_work_exported[OF assms(1), of now lc]
  have e: "to_the_end (import_work b False (exported_sprints lc b s)) (stats0, empty_db)
      = (Inr (),
          stats0\<lparr>r_sprints := length (sprints s), r_goals := length (goals s),
                 r_criteria := length (criteria s)\<rparr>,
          \<lparr>sprints = getAllSprints b s, goals = all_exported_goals lc b s,
           criteria = doc_criteria (exported_sprints lc b s)\<rparr>)"
    using w by simp
  show ?thesis
    using w transaction_Inr[OF assms(2) e] by (simp add: importData_def)
qed

lemma import_exported_SQLite:
  assumes "store_ok parses SQLite s"
  shows "importData SQLite parses
           \<lparr>version = EXPORT_VERSION, exported_at = now, doc_sprints = exported_sprints lc SQLite s\<rparr>
           False empty_db
       = (stats0, empty_db)"
  using import_work_exported[OF assms, of now lc]
  by (simp add: importData_def sqlite_transaction_def)

lemma sort_key_idem: "sort_key f (sort_key f xs) = sort_key f xs"
  by (simp add: sort_key_id_if_sorted)

lemma sort_key_determined:
  fixes k :: "'a \<Rightarrow> 'k::linorder"
  assumes "distinct (map k xs)" "distinct (map k ys)" "set ys = set xs"
  shows "sort_key k ys = sort_key k xs"
proof -
  have "map k (sort_key k ys) = map k (sort_key k xs)"
  proof (rule sorted_distinct_set_unique)
    show "sorted (map k (sort_key k ys))" "sorted (map k (sort_key k xs))" by simp_all
    show "distinct (map k (sort_key k ys))" using assms(2) by (simp add: distinct_map)
    show "distinct (map k (sort_key k xs))" using assms(1) by (simp add: distinct_map)
    show "set (map k (sort_key k ys)) = set (map k (sort_key k xs))" using assms(3) by simp
  qed
  moreover have "inj_on k (set (sort_key k ys) \<union> set (sort_key k xs))"
    using assms(1,3) by (simp add: distinct_map)
  ultimately show ?thesis by (rule map_inj_on)
qed

lemma sort_key_after_sort:
  fixes k :: "'a \<Rightarrow> 'k::linorder"
  assumes "distinct (map k xs)"
  shows "sort_key k (sort_key f xs) = sort_key k xs"
  using assms by (intro sort_key_determined) simp_all

lemma filter_concat_groups:
  assumes "distinct (map pk xs)" "\<forall>x \<in> set xs. \<forall>y \<in> set (F x). ref y = pk x" "x \<in> set xs"
  shows "filter (\<lambda>y. ref y = pk x) (concat (map F xs)) = F x"
  using assms
proof (induction xs)
  case Nil
  then show ?case by simp
next
  case (Cons a xs)
  show ?case
  proof (cases "a = x")
    case True
    have "ref y \<noteq> pk x" if "z \<in> set xs" "y \<in> set (F z)" for y z
    proof -
      have "ref y = pk z" using Cons.prems(2) that by simp
      moreover have "pk x \<notin> pk ` set xs" using Cons.prems(1) True by simp
      then have "pk z \<noteq> pk x" using that(1) by (metis imageI)
      ultimately show ?thesis by simp
    qed
    then have "filter (\<lambda>y. ref y = pk x) (concat (map F xs)) = []"
      by (auto simp: filter_empty_conv)
    moreover have "filter (\<lambda>y. ref y = pk x) (F a) = F a"
      using Cons.prems True by (auto simp: filter_id_conv)
    ultimately show ?thesis using True by simp
  next
    case False
    then have x: "x \<in> set xs" using Cons.prems by simp
    have "pk a \<notin> pk ` set xs" using Cons.prems(1) by simp
    then have "pk a \<noteq> pk x" using x by (metis imageI)
    then have "filter (\<lambda>y. ref y = pk x) (F a) = []"
      using Cons.prems by (auto simp: filter_empty_conv)
    then show ?thesis using Cons.IH Cons.prems x by simp
  qed
qed

lemma sorted_insort_by:
  assumes "\<forall>a b. cmp a b \<le> 0 \<or> cmp b a \<le> 0"
    and "\<forall>a b c. cmp a b \<le> 0 \<and> cmp b c \<le> 0 \<longrightarrow> cmp a c \<le> 0"
    and "sorted_wrt (\<lambda>a b. cmp a b \<le> 0) xs"
  shows "sorted_wrt (\<lambda>a b. cmp a b \<le> 0) (insort_by cmp x xs)"
  using assms(3)
proof (induction xs)
  case Nil
  then show ?case by simp
next
  case (Cons y ys)
  show ?case
  proof (cases "cmp x y \<le> 0")
    case True
    have "cmp x z \<le> 0" if "z \<in> set ys" for z
    proof -
      have "cmp y z \<le> 0" using Cons.prems that by simp
      then show ?thesis using True assms(2) by blast
    qed
    then show ?thesis using True Cons.prems by simp
  next
    case False
    then have yx: "cmp y x \<le> 0" using assms(1) by blast
    have "sorted_wrt (\<lambda>a b. cmp a b \<le> 0) (insort_by cmp x ys)"
      using Cons.IH Cons.prems by simp
    then show ?thesis using False yx Cons.prems by simp
  qed
qed

lemma sorted_sort_by:
  assumes "\<forall>a b. cmp a b \<le> 0 \<or> cmp b a \<le> 0"
    and "\<forall>a b c. cmp a b \<le> 0 \<and> cmp b c \<le> 0 \<longrightarrow> cmp a c \<le> 0"
  shows "sorted_wrt (\<lambda>a b. cmp a b \<le> 0) (sort_by cmp xs)"
  by (induction xs) (simp_all add: sort_by_def sorted_insort_by[OF assms])

lemma sort_by_sorted:
  "sorted_wrt (\<lambda>a b. cmp a b \<le> 0) xs \<Longrightarrow> sort_by cmp xs = xs"
proof (induction xs)
  case Nil
  then show ?case by (simp add: sort_by_def)
next
  case (Cons x xs)
  then have "sort_by cmp xs = xs" by simp
  then have "sort_by cmp (x # xs) = insort_by cmp x xs" by (simp add: sort_by_def)
  then show ?case using Cons.prems by (cases xs) simp_all
qed

lemma consistent_by_aangemaakt_op:
  assumes "consistent lc"
  shows "\<forall>a b. by_aangemaakt_op lc a b \<le> 0 \<or> by_aangemaakt_op lc b a \<le> 0"
    and "\<forall>a b c. by_aangemaakt_op lc a b \<le> 0 \<and> by_aangemaakt_op lc b c \<le> 0
           \<longrightarrow> by_aangemaakt_op lc a c \<le> 0"
  using assms unfolding consistent_def by_aangemaakt_op_def by blast+

lemma sort_by_idem:
  assumes "consistent lc"
  shows "sort_by (by_aangemaakt_op lc) (sort_by (by_aangemaakt_op lc) xs)
       = sort_by (by_aangemaakt_op lc) xs"
  by (rule sort_by_sorted) (rule sorted_sort_by[OF consistent_by_aangemaakt_op[OF assms]])

lemma reimported_simps [simp]:
  "sprints (reimported lc b s) = getAllSprints b s"
  "goals (reimported lc b s) = all_exported_goals lc b s"
  "criteria (reimported lc b s) = doc_criteria (exported_sprints lc b s)"
  by (simp_all add: reimported_def)

lemma getAllSprints_reimported:
  assumes "wf_db s"
  shows "getAllSprints b (reimported lc b s) = getAllSprints b s"
proof (cases b)
  case SQLite
  then show ?thesis by (simp add: sqlite_getAllSprints_def sort_key_idem)
next
  case Dexie
  have d: "distinct (map s_id (sort_key s_id (sprints s)))"
    using assms by (simp add: wf_db_def)
  have "sort_key s_id (sort_key volgnummer (sort_key s_id (sprints s)))
      = sort_key s_id (sprints s)"
    using sort_key_after_sort[OF d, of volgnummer] by (simp add: sort_key_idem)
  then show ?thesis using Dexie by (simp add: dexie_getAllSprints_def by_pk_def)
next
  case Mock
  then show ?thesis by (simp add: mock_getAllSprints_def sort_key_idem)
qed

lemma goals_of_sprint_reimported:
  assumes "wf_db s" "x \<in> set (sprints s)"
  shows "filter (\<lambda>g. sprint_id g = s_id x) (all_exported_goals lc b s)
       = getGoalsBySprintId lc b (s_id x) s"
  unfolding all_exported_goals_def
proof (rule filter_concat_groups[where pk=s_id and ref=sprint_id])
  show "distinct (map s_id (getAllSprints b s))" using assms(1) by (simp add: wf_db_def)
  show "\<forall>x\<in>set (getAllSprints b s). \<forall>y\<in>set (getGoalsBySprintId lc b (s_id x) s). sprint_id y = s_id x"
    by simp
  show "x \<in> set (getAllSprints b s)" using assms(2) by simp
qed

lemma getGoalsBySprintId_reimported:
  assumes "wf_db s" "x \<in> set (sprints s)" "b = Mock \<Longrightarrow> consistent lc"
  shows "getGoalsBySprintId lc b (s_id x) (reimported lc b s) = getGoalsBySprintId lc b (s_id x) s"
proof (cases b)
  case SQLite
  show ?thesis
    using goals_of_sprint_reimported[OF assms(1,2), where b=SQLite]
    by (simp add: SQLite sqlite_getGoalsBySprintId_def sort_key_idem)
next
  case Dexie
  let ?zs = "filter (\<lambda>g. sprint_id g = s_id x) (goals s)"
  have d: "distinct (map g_id (sort_key g_id ?zs))"
    using assms(1) by (simp add: wf_db_def distinct_map_filter)
  have "sort_key g_id (sort_key aangemaakt_op (sort_key g_id ?zs)) = sort_key g_id ?zs"
    using sort_key_after_sort[OF d, of aangemaakt_op] by (simp add: sort_key_idem)
  then show ?thesis
    using goals_of_sprint_reimported[OF assms(1,2), where b=Dexie]
    by (simp add: Dexie dexie_getGoalsBySprintId_def by_pk_def filter_sort)
next
  case Mock
  show ?thesis
    using goals_of_sprint_reimported[OF assms(1,2), where b=Mock and lc=lc] assms(3)
    by (simp add: Mock mock_getGoalsBySprintId_def sort_by_idem)
qed

lemma criteria_of_goal_reimported:
  assumes "wf_db s" "no_dangling s" "g \<in> set (goals s)"
  shows "filter (\<lambda>c. goal_id c = g_id g) (doc_criteria (exported_sprints lc b s))
       = getCriteriaByGoalId b (g_id g) s"
  unfolding criteria_exported
proof (rule filter_concat_groups[where pk=g_id and ref=goal_id])
  show "distinct (map g_id (all_exported_goals lc b s))"
    using assms(1) by (rule distinct_all_exported_goals)
  show "\<forall>x\<in>set (all_exported_goals lc b s). \<forall>y\<in>set (getCriteriaByGoalId b (g_id x) s). goal_id y = g_id x"
    by simp
  show "g \<in> set (all_exported_goals lc b s)"
    using assms(2,3) by (simp add: set_all_exported_goals)
qed

lemma getCriteriaByGoalId_reimported:
  assumes "wf_db s" "no_dangling s" "g \<in> set (goals s)"
  shows "getCriteriaByGoalId b (g_id g) (reimported lc b s) = getCriteriaByGoalId b (g_id g) s"
proof (cases b)
  case SQLite
  show ?thesis
    using criteria_of_goal_reimported[OF assms, where b=SQLite]
    by (simp add: SQLite sqlite_getCriteriaByGoalId_def sort_key_idem)
next
  case Dexie
  show ?thesis
    using criteria_of_goal_reimported[OF assms, where b=Dexie]
    by (simp add: Dexie dexie_getCriteriaByGoalId_def by_pk_def filter_sort sort_key_idem)
next
  case Mock
  show ?thesis
    using criteria_of_goal_reimported[OF assms, where b=Mock]
    by (simp add: Mock mock_getCriteriaByGoalId_def)
qed

lemma exported_sprints_reimported:
  assumes "wf_db s" "no_dangling s" "b = Mock \<Longrightarrow> consistent lc"
  shows "exported_sprints lc b (reimported lc b s) = exported_sprints lc b s"
proof -
  have g: "exported_goals lc b (reimported lc b s) x = exported_goals lc b s x"
    if "x \<in> set (sprints s)" for x
  proof -
    have gg: "getGoalsBySprintId lc b (s_id x) (reimported lc b s)
        = getGoalsBySprintId lc b (s_id x) s"
      by (rule getGoalsBySprintId_reimported) (use assms(1,3) that in simp_all)
    show ?thesis
      unfolding exported_goals_def gg
      by (rule map_cong) (simp_all add: getCriteriaByGoalId_reimported[OF assms(1,2)])
  qed
  show ?thesis
    unfolding exported_sprints_def getAllSprints_reimported[OF assms(1)]
    by (rule map_cong) (simp_all add: g)
qed

lemma wf_db_reimported:
  assumes "wf_db s"
  shows "wf_db (reimported lc b s)"
  using assms distinct_all_exported_goals[OF assms, where b=b and lc=lc]
    distinct_exported_criteria[OF assms, where b=b and lc=lc]
  by (simp add: wf_db_def)

subsection \<open>One sequence on three backends\<close>














lemma sort_key_Nil_iff [simp]: "sort_key f xs = [] \<longleftrightarrow> xs = []"
  by (metis set_sort set_empty)













lemma apply_sprint_updates_id [simp]: "s_id (apply_sprint_updates u x) = s_id x"
  by (simp add: apply_sprint_updates_def)

lemma apply_goal_updates_id [simp]: "g_id (apply_goal_updates u g) = g_id g"
  by (simp add: apply_goal_updates_def)




lemma apply_criterion_updates_id [simp]: "c_id (apply_criterion_updates u c) = c_id c"
  by (simp add: apply_criterion_updates_def)



lemma void_Inr [simp]: "void (Inr u, s) = (Void, s)"
  by (simp add: void_def)

lemma boolean_Inr [simp]: "boolean (Inr v, s) = (Boolean v, s)"
  by (simp add: boolean_def)





section \<open>Properties\<close>

subsection \<open>Deleting an identifier that names nothing\<close>

text \<open>
  C5. The claim: deleting an identifier that names no entity returns \<open>false\<close> on every
  backend. The relational adapter and the mock do; the Dexie adapter's three delete
  operations end in an unconditional \<open>return true\<close>, so on the empty store they report a
  deletion that did not happen.
\<close>

theorem dexie_delete_missing_reports_true:
  "deleteSprint Dexie id0 empty_db = (Inr True, empty_db)
   \<and> deleteGoal Dexie id0 empty_db = (Inr True, empty_db)
   \<and> deleteCriterion Dexie id0 empty_db = (Inr True, empty_db)
   \<and> deleteSprint SQLite id0 empty_db = (Inr False, empty_db)
   \<and> deleteSprint Mock id0 empty_db = (Inr False, empty_db)"
  by (simp add: dexie_deleteSprint_def dexie_deleteGoal_def dexie_deleteCriterion_def
      sqlite_deleteSprint_def mock_deleteSprint_def empty_db_def map_delete_def map_has_def
      by_pk_def)

subsection \<open>The current sprint\<close>

text \<open>
  C7. The claim: among the sprints whose range contains the date, the one with the
  highest sequence number is returned, on every backend. The store below holds sprint
  1 (2026-01-10 to 2026-01-20) and sprint 2 (2026-01-01 to 2026-01-31); both contain
  2026-01-15. The relational adapter orders by sequence number and returns sprint 2.
  The Dexie adapter walks the start-date index backwards and returns the sprint that
  starts last, sprint 1; the mock returns the first match in insertion order, sprint 1.
\<close>

theorem current_sprint_not_highest_volgnummer:
  "getCurrentSprint Dexie ''2026-01-15'' overlapping_db = Some sprint_b
   \<and> getCurrentSprint Mock ''2026-01-15'' overlapping_db = Some sprint_b
   \<and> getCurrentSprint SQLite ''2026-01-15'' overlapping_db = Some sprint_a
   \<and> volgnummer sprint_b < volgnummer sprint_a"
  by (simp add: dexie_getCurrentSprint_def mock_getCurrentSprint_def sqlite_getCurrentSprint_def
      overlapping_db_def sprint_a_def sprint_b_def by_pk_def first_of_def)

subsection \<open>Cascading deletes\<close>

text \<open>
  C4. Deleting a sprint that is in the store makes the sprint, every goal whose sprint
  reference was that sprint, and every criterion of each such goal unreachable through
  the adapter's point lookups, on each of the three backends; and a store without
  dangling parent references has none after a sprint deletion or a goal deletion.
  The store's keys are unique (\<open>wf_db\<close>), as they are in a \<open>Map\<close>, an object store and
  a primary-key column.
\<close>

theorem sprint_delete_cascades:
  assumes "wf_db s" and "getSprintById b i s = Some sp"
  shows "fst (deleteSprint b i s) = Inr True
     \<and> getSprintById b i (snd (deleteSprint b i s)) = None
     \<and> (\<forall>g \<in> set (goals s). sprint_id g = i \<longrightarrow>
            getGoalById b (g_id g) (snd (deleteSprint b i s)) = None
          \<and> (\<forall>c \<in> set (criteria s). goal_id c = g_id g \<longrightarrow>
                getCriterionById b (c_id c) (snd (deleteSprint b i s)) = None))
     \<and> (no_dangling s \<longrightarrow>
          no_dangling (snd (deleteSprint b i s)) \<and> no_dangling (snd (deleteGoal b j s)))"
proof -
  have has: "map_has s_id i (sprints s)"
    using assms(2) by (simp add: getSprintById_find find_Some_has)
  have st: "deleteSprint b i s = (Inr True, cascade i s)"
    using assms(1) has by (rule deleteSprint_cascade)
  have dg: "distinct (map g_id (goals s))" and dc: "distinct (map c_id (criteria s))"
    using assms(1) by (simp_all add: wf_db_def)
  have gone: "getSprintById b i (cascade i s) = None"
    by (simp add: getSprintById_find cascade_def find_None_iff)
  have goal_del: "no_dangling s \<Longrightarrow> no_dangling (snd (deleteGoal b j s))"
    using assms(1) by (simp add: deleteGoal_cascade goal_cascade_no_dangling)
  show ?thesis
    using gone cascade_goal_gone[OF dg] cascade_criterion_gone[OF dc] cascade_no_dangling goal_del
    by (simp add: st getGoalById_find getCriterionById_find)
qed

theorem sprint_delete_cascades_witness:
  "wf_db sample_db \<and> getSprintById SQLite id0 sample_db = Some sprint_1
   \<and> goal_1 \<in> set (goals sample_db) \<and> sprint_id goal_1 = id0
   \<and> criterion_1 \<in> set (criteria sample_db) \<and> goal_id criterion_1 = g_id goal_1
   \<and> no_dangling sample_db
   \<and> getSprintById SQLite id0 (snd (deleteSprint SQLite id0 sample_db)) = None
   \<and> getGoalById SQLite goal_id1 (snd (deleteSprint SQLite id0 sample_db)) = None
   \<and> getCriterionById SQLite criterion_id1 (snd (deleteSprint SQLite id0 sample_db)) = None
   \<and> no_dangling (snd (deleteSprint SQLite id0 sample_db))"
proof -
  have wf: "wf_db sample_db"
    by (simp add: wf_db_def sample_db_def)
  have present: "getSprintById SQLite id0 sample_db = Some sprint_1"
    by (simp add: sqlite_getSprintById_def sample_db_def sprint_1_def)
  have nd: "no_dangling sample_db"
    by (simp add: no_dangling_def sample_db_def map_has_def goal_1_def sprint_1_def criterion_1_def)
  have members: "goal_1 \<in> set (goals sample_db) \<and> sprint_id goal_1 = id0
      \<and> criterion_1 \<in> set (criteria sample_db) \<and> goal_id criterion_1 = g_id goal_1"
    by (simp add: sample_db_def goal_1_def criterion_1_def)
  note th = sprint_delete_cascades[OF wf present, of goal_id1]
  have a: "getGoalById SQLite (g_id goal_1) (snd (deleteSprint SQLite id0 sample_db)) = None
      \<and> (\<forall>c \<in> set (criteria sample_db). goal_id c = g_id goal_1 \<longrightarrow>
            getCriterionById SQLite (c_id c) (snd (deleteSprint SQLite id0 sample_db)) = None)"
    using th members by blast
  have b: "getCriterionById SQLite (c_id criterion_1) (snd (deleteSprint SQLite id0 sample_db)) = None"
    using a members by blast
  have ids: "g_id goal_1 = goal_id1" "c_id criterion_1 = criterion_id1"
    by (simp_all add: goal_1_def criterion_1_def)
  show ?thesis
    using th a b wf present nd members unfolding ids by blast
qed

subsection \<open>End date after start date\<close>

text \<open>
  C6. The claim: every stored sprint's end date is after its start date, and every
  operation of the public services keeps it so, sprint update included.
  \<open>validateCreateSprint\<close> compares the two dates; \<open>validateUpdateSprint\<close> checks each date
  alone. Updating sprint 1 (2026-01-13 to 2026-01-26) with the end date 2026-01-01
  passes validation and is stored by the mock and by Dexie; only the relational
  schema's \<open>CHECK(einddatum > startdatum)\<close> refuses it.
\<close>

theorem sprint_update_breaks_date_order:
  "dates_ordered sample_db
   \<and> valid (validateUpdateSprint late_einddatum)
   \<and> SprintService_update Mock id0 late_einddatum sample_db
       = (Inr (Some (sprint_1\<lparr>einddatum := ''2026-01-01''\<rparr>)),
          sample_db\<lparr>sprints := [sprint_1\<lparr>einddatum := ''2026-01-01''\<rparr>]\<rparr>)
   \<and> SprintService_update Dexie id0 late_einddatum sample_db
       = (Inr (Some (sprint_1\<lparr>einddatum := ''2026-01-01''\<rparr>)),
          sample_db\<lparr>sprints := [sprint_1\<lparr>einddatum := ''2026-01-01''\<rparr>]\<rparr>)
   \<and> \<not> dates_ordered (snd (SprintService_update Mock id0 late_einddatum sample_db))
   \<and> \<not> dates_ordered (snd (SprintService_update Dexie id0 late_einddatum sample_db))
   \<and> SprintService_update SQLite id0 late_einddatum sample_db
       = (Inl (SqliteError ''CHECK constraint failed''), sample_db)"
  by code_simp

subsection \<open>Suggested dates for the next sprint\<close>

text \<open>
  C9. The claim: the start is the day after the latest sprint's end or, with no sprint,
  the nearest Monday on or after today (a weekday stays); the end is 13 days after the
  start. With the process in UTC the claim's two examples come out as stated: after a
  sprint ending 2026-01-26 the suggestion is 2026-01-27 to 2026-02-09, and on
  Wednesday 2026-01-07 with no sprint it is that Wednesday to 2026-01-20.

  The function reads the weekday and steps the day of the month in local time
  (\<open>getDay\<close>, \<open>getDate\<close>, \<open>setDate\<close>) and prints the result in UTC (\<open>toISOString\<close>).
  Two hours east of UTC, at 01:00 on Sunday 2026-01-04 (23:00 on Saturday in UTC) and
  with no sprint, it suggests a start on 2026-01-04, a Sunday. In Central European
  Time, after a sprint ending 2026-03-16, it suggests 2026-03-17 to 2026-03-29: the
  thirteen local days cross the switch to summer time and end 12 days after the start.
\<close>

theorem suggested_dates_depend_on_time_zone:
  "SprintService_getSuggestedNextDates SQLite utc wednesday_noon sample_db
     = Inr (''2026-01-27'', ''2026-02-09'')
   \<and> SprintService_getSuggestedNextDates Dexie utc wednesday_noon empty_db
     = Inr (''2026-01-07'', ''2026-01-20'')
   \<and> getDay utc wednesday_noon = 3
   \<and> getDay utc saturday_23h = 6 \<and> getDay utc_plus_2 saturday_23h = 0
   \<and> SprintService_getSuggestedNextDates Dexie utc_plus_2 saturday_23h empty_db
     = Inr (''2026-01-04'', ''2026-01-17'')
   \<and> SprintService_getSuggestedNextDates Dexie utc saturday_23h empty_db
     = Inr (''2026-01-05'', ''2026-01-18'')
   \<and> SprintService_getSuggestedNextDates Dexie central_european wednesday_noon march_db
     = Inr (''2026-03-17'', ''2026-03-29'')"
  by code_simp

subsection \<open>Atomic transactions\<close>

text \<open>
  C1. The claim: the work passed to \<open>transaction\<close> commits as a whole or not at all,
  and an import that throws midway persists nothing and reports one failure. The
  document \<open>dup_doc\<close> passes validation; its second goal repeats the first goal's
  identifier, so the second \<open>createGoal\<close> throws after the sprint, the first goal and
  its criterion have been written. On Dexie the native transaction aborts: the store
  stays empty and the result carries \<open>Import failed\<close>. On the relational adapter the
  wrapper has already committed and returned before the work's writes run:
  \<open>importData\<close> resolves with no failure, its counters still zero; the work runs on,
  and when it has ended the sprint, the goal and the criterion are in the store, the
  counters say one of each and no failure was ever reported.
\<close>

theorem sqlite_import_is_not_atomic:
  "valid (validateImportData iso_datetime_form dup_doc)
   \<and> import_sprints SQLite False (doc_sprints dup_doc) (stats0, empty_db)
       = (Inl (SqliteError ''UNIQUE constraint failed: goal.id''),
          \<lparr>r_sprints = 1, r_goals = 1, r_criteria = 1, skipped = 0, errors = []\<rparr>, sample_db)
   \<and> importData_settled SQLite iso_datetime_form dup_doc False empty_db
       = (\<lparr>r_sprints = 1, r_goals = 1, r_criteria = 1, skipped = 0, errors = []\<rparr>, sample_db)
   \<and> importData SQLite iso_datetime_form dup_doc False empty_db
       = (\<lparr>r_sprints = 0, r_goals = 0, r_criteria = 0, skipped = 0, errors = []\<rparr>, empty_db)
   \<and> importData Dexie iso_datetime_form dup_doc False empty_db
       = (\<lparr>r_sprints = 1, r_goals = 1, r_criteria = 1, skipped = 0,
           errors = [''Import failed: Key already exists in the object store'']\<rparr>, empty_db)
   \<and> importData_settled Dexie iso_datetime_form dup_doc False empty_db
       = importData Dexie iso_datetime_form dup_doc False empty_db"
proof -
  have v: "valid (validateImportData iso_datetime_form dup_doc)"
    by code_simp
  have w: "import_sprints SQLite False (doc_sprints dup_doc) (stats0, empty_db)
       = (Inl (SqliteError ''UNIQUE constraint failed: goal.id''),
          \<lparr>r_sprints = 1, r_goals = 1, r_criteria = 1, skipped = 0, errors = []\<rparr>, sample_db)"
    by code_simp
  have later: "importData_settled SQLite iso_datetime_form dup_doc False empty_db
       = (\<lparr>r_sprints = 1, r_goals = 1, r_criteria = 1, skipped = 0, errors = []\<rparr>, sample_db)"
    using v w
    by (simp add: importData_settled_def sqlite_transaction_def sqlite_left_running_def
        import_work_def)
  have resolved: "importData SQLite iso_datetime_form dup_doc False empty_db
       = (\<lparr>r_sprints = 0, r_goals = 0, r_criteria = 0, skipped = 0, errors = []\<rparr>, empty_db)"
    using v by (simp add: importData_def sqlite_transaction_def import_work_def stats0_def)
  have dexie: "importData Dexie iso_datetime_form dup_doc False empty_db
       = (\<lparr>r_sprints = 1, r_goals = 1, r_criteria = 1, skipped = 0,
           errors = [''Import failed: Key already exists in the object store'']\<rparr>, empty_db)"
    by code_simp
  have same: "importData_settled Dexie iso_datetime_form dup_doc False empty_db
       = importData Dexie iso_datetime_form dup_doc False empty_db"
    by (rule importData_settled_awaited) simp
  show ?thesis
    using v w later resolved dexie same by blast
qed

subsection \<open>A created goal\<close>

text \<open>
  C10. Whatever fields the input carries (it is any extension of \<open>CreateGoalInput\<close>),
  a goal returned by \<open>GoalService.create\<close> has no actual hours, no achieved flag, no
  completion note and no lessons learned, its created and last-modified timestamps are
  equal, and \<open>getById\<close> reads that same goal back, on each backend. The identifier is
  \<open>uuidv4()\<close>'s, a well-formed UUID. The second part shows that the service does
  return for a valid input: the sprint exists, the identifier is fresh and the
  timestamp has the 20 characters the relational schema asks for.
\<close>

theorem goal_create_initial_fields:
  fixes input :: "'a CreateGoalInput_scheme"
  assumes "isValidUUID uuid"
  shows "(\<forall>g s'. GoalService_create b uuid now input s = (Inr g, s') \<longrightarrow>
            werkelijke_uren g = None \<and> behaald g = None \<and> toelichting g = None
          \<and> geleerde_lessen g = None \<and> aangemaakt_op g = gewijzigd_op g
          \<and> g_id g = uuid \<and> GoalService_getById b uuid s' = Inr (Some g))
       \<and> (valid (validateCreateGoal input) \<and> sprintExists b (in_sprint_id input) s
          \<and> \<not> goalExists b uuid s \<and> length now \<ge> 20 \<longrightarrow>
            (\<exists>g s'. GoalService_create b uuid now input s = (Inr g, s')))"
proof -
  have A: "werkelijke_uren g = None \<and> behaald g = None \<and> toelichting g = None
          \<and> geleerde_lessen g = None \<and> aangemaakt_op g = gewijzigd_op g
          \<and> g_id g = uuid \<and> GoalService_getById b uuid s' = Inr (Some g)"
    if c: "GoalService_create b uuid now input s = (Inr g, s')" for g s'
  proof -
    note r = GoalService_create_Inr[OF c]
    have rd: "getGoalById b (g_id g) s' = Some g" using r createGoal_Inr by blast
    show ?thesis
      using r rd assms by (simp add: created_goal_def GoalService_getById_def)
  qed
  have B: "\<exists>g s'. GoalService_create b uuid now input s = (Inr g, s')"
    if h: "valid (validateCreateGoal input) \<and> sprintExists b (in_sprint_id input) s
          \<and> \<not> goalExists b uuid s \<and> length now \<ge> 20"
  proof -
    obtain s' where "createGoal b (created_goal uuid now input) s = (Inr (), s')"
      using createGoal_succeeds[of input b s uuid now] assms h by blast
    then show ?thesis
      using h by (simp add: GoalService_create_def created_goal_def)
  qed
  show ?thesis using A B by blast
qed

theorem goal_create_initial_fields_witness:
  "isValidUUID goal_id1
   \<and> valid (validateCreateGoal new_goal_input)
   \<and> sprintExists SQLite (in_sprint_id new_goal_input) one_sprint_db
   \<and> \<not> goalExists SQLite goal_id1 one_sprint_db
   \<and> length timestamp_1 \<ge> 20
   \<and> (\<exists>g s'. GoalService_create SQLite goal_id1 timestamp_1 new_goal_input one_sprint_db = (Inr g, s')
        \<and> werkelijke_uren g = None \<and> behaald g = None \<and> toelichting g = None
        \<and> geleerde_lessen g = None \<and> aangemaakt_op g = gewijzigd_op g
        \<and> GoalService_getById SQLite goal_id1 s' = Inr (Some g))"
proof -
  have u: "isValidUUID goal_id1"
    by code_simp
  have h: "valid (validateCreateGoal new_goal_input)
      \<and> sprintExists SQLite (in_sprint_id new_goal_input) one_sprint_db
      \<and> \<not> goalExists SQLite goal_id1 one_sprint_db \<and> length timestamp_1 \<ge> 20"
    by code_simp
  show ?thesis
    using goal_create_initial_fields[OF u, of SQLite timestamp_1 new_goal_input one_sprint_db] u h
    by blast
qed

subsection \<open>Hours in quarter-hour steps\<close>

text \<open>
  C8. An hours value is accepted exactly when it is non-negative and four times it is a
  whole number. The goal service's create and update answer an estimate or an actual
  value that is not with a validation error and leave the store untouched (an update
  with a malformed identifier is refused for that, also before any write); import
  validation rejects a document holding such a goal and nothing is imported. So on
  every backend the operations of the services that write or remove goals keep every
  stored hours value non-negative and in quarter-hour steps, an import both when its
  promise resolves and when no work of it is left running.
\<close>

theorem hours_quantization_enforced:
  fixes cin :: "'a CreateGoalInput_scheme" and uin :: "'b UpdateGoalInput_scheme"
  shows
   "(isValidHoursPrecision h \<longleftrightarrow> 0 \<le> h \<and> h * 4 \<in> \<int>)
    \<and> (\<not> isValidHoursPrecision (in_geschatte_uren cin) \<longrightarrow>
          GoalService_create b uuid now cin s = (Inl (validation_failed (validateCreateGoal cin)), s))
    \<and> ((up_geschatte_uren uin = Some v \<or> up_werkelijke_uren uin = Some (Some v))
          \<and> \<not> isValidHoursPrecision v \<longrightarrow>
          snd (GoalService_update b now i uin s) = s
          \<and> (\<exists>e. fst (GoalService_update b now i uin s) = Inl e)
          \<and> (isValidUUID i \<longrightarrow>
                fst (GoalService_update b now i uin s) = Inl (validation_failed (validateUpdateGoal uin))))
    \<and> (sd \<in> set (doc_sprints data) \<and> g \<in> set (sw_goals sd) \<and> \<not> goal_hours_ok g \<longrightarrow>
          \<not> valid (validateImportData parses data)
          \<and> importData b parses data ow s
              = (stats0\<lparr>errors := v_errors (validateImportData parses data)\<rparr>, s)
          \<and> importData_settled b parses data ow s
              = (stats0\<lparr>errors := v_errors (validateImportData parses data)\<rparr>, s))
    \<and> (hours_ok s \<longrightarrow>
          hours_ok (snd (GoalService_create b uuid now cin s))
          \<and> hours_ok (snd (GoalService_update b now i uin s))
          \<and> hours_ok (snd (GoalService_logHours b now i h s))
          \<and> hours_ok (snd (GoalService_markAchieved b now i achieved note lessons s))
          \<and> hours_ok (snd (GoalService_delete b i s))
          \<and> hours_ok (snd (SprintService_delete b i s))
          \<and> hours_ok (snd (importData b parses data ow s))
          \<and> hours_ok (snd (importData_settled b parses data ow s)))"
proof -
  have create_rejects:
    "GoalService_create b uuid now cin s = (Inl (validation_failed (validateCreateGoal cin)), s)"
    if "\<not> isValidHoursPrecision (in_geschatte_uren cin)"
    using validateCreateGoal_invalid_hours[OF that] by (simp add: GoalService_create_def)
  have update_rejects:
    "snd (GoalService_update b now i uin s) = s
     \<and> (\<exists>e. fst (GoalService_update b now i uin s) = Inl e)
     \<and> (isValidUUID i \<longrightarrow>
           fst (GoalService_update b now i uin s) = Inl (validation_failed (validateUpdateGoal uin)))"
    if "(up_geschatte_uren uin = Some v \<or> up_werkelijke_uren uin = Some (Some v))
        \<and> \<not> isValidHoursPrecision v"
  proof -
    have "\<not> valid (validateUpdateGoal uin)"
      using that validateUpdateGoal_invalid_hours[of uin v] by blast
    then show ?thesis by (simp add: GoalService_update_def)
  qed
  have import_rejects:
    "\<not> valid (validateImportData parses data)
     \<and> importData b parses data ow s
         = (stats0\<lparr>errors := v_errors (validateImportData parses data)\<rparr>, s)
     \<and> importData_settled b parses data ow s
         = (stats0\<lparr>errors := v_errors (validateImportData parses data)\<rparr>, s)"
    if "sd \<in> set (doc_sprints data) \<and> g \<in> set (sw_goals sd) \<and> \<not> goal_hours_ok g"
  proof -
    have "\<not> valid (validateImportData parses data)"
      using that validateImportData_hours[of parses data sd g] by blast
    then show ?thesis by (simp add: importData_rejects importData_settled_rejects)
  qed
  have keeps:
    "hours_ok (snd (GoalService_create b uuid now cin s))
     \<and> hours_ok (snd (GoalService_update b now i uin s))
     \<and> hours_ok (snd (GoalService_logHours b now i h s))
     \<and> hours_ok (snd (GoalService_markAchieved b now i achieved note lessons s))
     \<and> hours_ok (snd (GoalService_delete b i s))
     \<and> hours_ok (snd (SprintService_delete b i s))
     \<and> hours_ok (snd (importData b parses data ow s))
     \<and> hours_ok (snd (importData_settled b parses data ow s))"
    if ok: "hours_ok s"
    using ok
    by (simp add: GoalService_create_hours GoalService_update_hours GoalService_logHours_def
        GoalService_markAchieved_def GoalService_delete_hours SprintService_delete_hours
        importData_hours importData_settled_hours)
  show ?thesis
    using isValidHoursPrecision_iff[of h] create_rejects update_rejects import_rejects keeps
    by blast
qed

theorem hours_quantization_enforced_witness:
  "\<not> isValidHoursPrecision (81 / 10) \<and> isValidHoursPrecision (17 / 2)
   \<and> hours_ok sample_db \<and> isValidUUID goal_id1
   \<and> bad_sprint \<in> set (doc_sprints bad_doc) \<and> bad_goal \<in> set (sw_goals bad_sprint)
   \<and> \<not> goal_hours_ok bad_goal
   \<and> GoalService_create Dexie id0 timestamp_1 bad_goal_input sample_db
       = (Inl (Error ''Validation failed: geschatte_uren must be in 0.25 hour increments''),
          sample_db)
   \<and> GoalService_update Dexie timestamp_1 goal_id1 bad_goal_update sample_db
       = (Inl (Error ''Validation failed: werkelijke_uren must be in 0.25 hour increments''),
          sample_db)
   \<and> fst (importData Dexie iso_datetime_form bad_doc False empty_db)
       = stats0\<lparr>errors := [''Sprint[0].goals[0].geschatte_uren: must be in 0.25 hour increments'']\<rparr>
   \<and> snd (importData Dexie iso_datetime_form bad_doc False empty_db) = empty_db
   \<and> hours_ok (snd (GoalService_logHours Dexie timestamp_1 goal_id1 (21 / 2) sample_db))"
proof -
  have q: "\<not> isValidHoursPrecision (81 / 10) \<and> isValidHoursPrecision (17 / 2)"
    by (simp add: isValidHoursPrecision_def rem1_def)
  have ok: "hours_ok sample_db"
    by (simp add: hours_ok_def goal_hours_ok_def sample_db_def goal_1_def opt_all_def
        isValidHoursPrecision_def rem1_def)
  have u: "isValidUUID goal_id1"
    by code_simp
  have bad_create: "in_geschatte_uren bad_goal_input = 81 / 10"
    by (simp add: bad_goal_input_def)
  have bad_update: "up_werkelijke_uren bad_goal_update = Some (Some (81 / 10))"
    by (simp add: bad_goal_update_def)
  have members: "bad_sprint \<in> set (doc_sprints bad_doc) \<and> bad_goal \<in> set (sw_goals bad_sprint)"
    by (simp add: bad_doc_def bad_sprint_def with_goals_def)
  have bad: "\<not> goal_hours_ok bad_goal"
    using q by (simp add: goal_hours_ok_def bad_goal_def with_criteria_def)
  have m1: "validation_failed (validateCreateGoal bad_goal_input)
      = Error ''Validation failed: geschatte_uren must be in 0.25 hour increments''"
    by code_simp
  have m2: "validation_failed (validateUpdateGoal bad_goal_update)
      = Error ''Validation failed: werkelijke_uren must be in 0.25 hour increments''"
    by code_simp
  have m3: "v_errors (validateImportData iso_datetime_form bad_doc)
      = [''Sprint[0].goals[0].geschatte_uren: must be in 0.25 hour increments'']"
    by code_simp
  note th = hours_quantization_enforced[of "21 / 2" bad_goal_input Dexie id0 timestamp_1 sample_db
      bad_goal_update "81 / 10" goal_id1 bad_sprint bad_doc bad_goal iso_datetime_form False]
  have c: "GoalService_create Dexie id0 timestamp_1 bad_goal_input sample_db
       = (Inl (validation_failed (validateCreateGoal bad_goal_input)), sample_db)"
    using th q bad_create by simp
  have d: "GoalService_update Dexie timestamp_1 goal_id1 bad_goal_update sample_db
       = (Inl (validation_failed (validateUpdateGoal bad_goal_update)), sample_db)"
    using th q bad_update u by (simp add: prod_eq_iff)
  have k: "hours_ok (snd (GoalService_logHours Dexie timestamp_1 goal_id1 (21 / 2) sample_db))"
    using th ok by blast
  note th2 = hours_quantization_enforced[of "21 / 2" bad_goal_input Dexie id0 timestamp_1 empty_db
      bad_goal_update "81 / 10" goal_id1 bad_sprint bad_doc bad_goal iso_datetime_form False]
  have e: "importData Dexie iso_datetime_form bad_doc False empty_db
       = (stats0\<lparr>errors := v_errors (validateImportData iso_datetime_form bad_doc)\<rparr>, empty_db)"
    using th2 members bad by blast
  show ?thesis
    using q ok u members bad c d e k by (simp add: m1 m2 m3)
qed

subsection \<open>Export followed by import\<close>

text \<open>
  Where the import is awaited. Take a store of the data model: identifiers unique per
  table, every goal in a stored sprint and every criterion under a stored goal, every
  entity as import validation accepts it (and, on the relational backend, as its
  schema admits it). Then \<open>exportAll\<close> returns a document, and once no work of
  \<open>importData\<close> of that document into an empty store is left running, the result
  reports no error and no skip and counts every sprint, goal and criterion; the store
  holds exactly the sprints, goals and criteria of the exported store, each with every
  field as it was, so a read by identifier answers as before; and exporting it gives
  the same tree again, in the same order (the mock sorts with the host's collation,
  taken to be consistent). On Dexie and the mock that is what the caller of
  \<open>importData\<close> receives. On the relational backend the caller receives counters of
  zero and finds the store still empty.
\<close>

theorem round_trip_once_settled:
  assumes "store_ok parses b s" and "b = Mock \<Longrightarrow> consistent lc"
  shows "\<exists>doc stats s'.
      exportAll lc b now s = Inr doc
    \<and> importData_settled b parses doc False empty_db = (stats, s')
    \<and> (b \<noteq> SQLite \<longrightarrow> importData b parses doc False empty_db = (stats, s'))
    \<and> (b = SQLite \<longrightarrow> importData b parses doc False empty_db = (stats0, empty_db))
    \<and> errors stats = [] \<and> skipped stats = 0
    \<and> r_sprints stats = length (sprints s) \<and> r_goals stats = length (goals s)
    \<and> r_criteria stats = length (criteria s)
    \<and> wf_db s'
    \<and> set (sprints s') = set (sprints s) \<and> set (goals s') = set (goals s)
    \<and> set (criteria s') = set (criteria s)
    \<and> (\<forall>i. getSprintById b i s' = getSprintById b i s)
    \<and> (\<forall>i. getGoalById b i s' = getGoalById b i s)
    \<and> (\<forall>i. getCriterionById b i s' = getCriterionById b i s)
    \<and> exportAll lc b later s' = Inr (doc\<lparr>exported_at := later\<rparr>)"
proof -
  let ?doc = "\<lparr>version = EXPORT_VERSION, exported_at = now, doc_sprints = exported_sprints lc b s\<rparr>"
  let ?stats = "stats0\<lparr>r_sprints := length (sprints s), r_goals := length (goals s),
                      r_criteria := length (criteria s)\<rparr>"
  let ?s' = "reimported lc b s"
  from assms(1) have wf: "wf_db s" and nd: "no_dangling s" and im: "importable parses s"
    by (simp_all add: store_ok_def)
  have us: "list_all (\<lambda>x. isValidUUID (s_id x)) (sprints s)"
    and ug: "list_all (\<lambda>g. isValidUUID (g_id g)) (goals s)"
    using im by (simp_all add: importable_def list_all_iff sprint_importable_def goal_importable_def)
  have wf': "wf_db ?s'" using wf by (rule wf_db_reimported)
  have ss: "set (sprints ?s') = set (sprints s)" by simp
  have sg: "set (goals ?s') = set (goals s)" using nd by (simp add: set_all_exported_goals)
  have sc: "set (criteria ?s') = set (criteria s)" using nd by (simp add: set_exported_criteria)
  have e: "exportAll lc b now s = Inr ?doc" using us ug by (rule exportAll_eq)
  have i: "importData_settled b parses ?doc False empty_db = (?stats, ?s')"
    using import_exported_settled[OF assms(1), of now lc] by (simp add: reimported_def)
  have i1: "importData b parses ?doc False empty_db = (?stats, ?s')" if "b \<noteq> SQLite"
    using import_exported[OF assms(1) that, of now lc] by (simp add: reimported_def)
  have i2: "importData b parses ?doc False empty_db = (stats0, empty_db)" if "b = SQLite"
    using import_exported_SQLite[of parses s now lc] assms(1) that by simp
  have fs: "getSprintById b i ?s' = getSprintById b i s" for i
    unfolding getSprintById_find
    using wf wf' ss by (intro find_same_set) (simp_all only: wf_db_def)
  have fg: "getGoalById b i ?s' = getGoalById b i s" for i
    unfolding getGoalById_find
    using wf wf' sg by (intro find_same_set) (simp_all only: wf_db_def)
  have fc: "getCriterionById b i ?s' = getCriterionById b i s" for i
    unfolding getCriterionById_find
    using wf wf' sc by (intro find_same_set) (simp_all only: wf_db_def)
  have "exportAll lc b later ?s'
      = Inr \<lparr>version = EXPORT_VERSION, exported_at = later,
             doc_sprints = exported_sprints lc b ?s'\<rparr>"
    using us ug ss sg by (intro exportAll_eq) (simp_all only: list_all_iff)
  moreover have "exported_sprints lc b ?s' = exported_sprints lc b s"
    by (rule exported_sprints_reimported) (use wf nd assms(2) in simp_all)
  ultimately have e': "exportAll lc b later ?s' = Inr (?doc\<lparr>exported_at := later\<rparr>)"
    by simp
  have st: "errors ?stats = []" "skipped ?stats = 0" "r_sprints ?stats = length (sprints s)"
    "r_goals ?stats = length (goals s)" "r_criteria ?stats = length (criteria s)"
    by (simp_all add: stats0_def)
  show ?thesis
    using e i i1 i2 st wf' ss sg sc fs fg fc e' by blast
qed

text \<open>
  C3. The claim: \<open>importData\<close> of what \<open>exportAll\<close> returned, into an empty store,
  reproduces the tree and reports no error and no skip. On the relational backend the
  sample store (one sprint, one goal, one criterion) exports to a document whose
  import resolves with counters of zero and leaves the store empty at that moment,
  since the transaction wrapper does not wait for the work: an export right then
  holds no sprint. The tree is there only once the work left running has ended. On
  Dexie the same import resolves with one sprint, one goal and one criterion counted
  and the store equal to the exported one, and exporting it gives the document again.
\<close>

theorem sqlite_round_trip_resolves_empty:
  "exportAll lc SQLite now sample_db = Inr (sample_doc now)
   \<and> importData SQLite iso_datetime_form (sample_doc now) False empty_db
       = (\<lparr>r_sprints = 0, r_goals = 0, r_criteria = 0, skipped = 0, errors = []\<rparr>, empty_db)
   \<and> exportAll lc SQLite later empty_db
       = Inr \<lparr>version = ''1.0'', exported_at = later, doc_sprints = []\<rparr>
   \<and> importData_settled SQLite iso_datetime_form (sample_doc now) False empty_db
       = (\<lparr>r_sprints = 1, r_goals = 1, r_criteria = 1, skipped = 0, errors = []\<rparr>, sample_db)
   \<and> importData Dexie iso_datetime_form (sample_doc now) False empty_db
       = (\<lparr>r_sprints = 1, r_goals = 1, r_criteria = 1, skipped = 0, errors = []\<rparr>, sample_db)
   \<and> exportAll lc Dexie later sample_db = Inr (sample_doc later)"
proof -
  have e1: "exportAll lc SQLite now sample_db = Inr (sample_doc now)" for now
    by code_simp
  have e2: "exportAll lc Dexie later sample_db = Inr (sample_doc later)"
    by code_simp
  have e0: "exportAll lc SQLite later empty_db
       = Inr \<lparr>version = ''1.0'', exported_at = later, doc_sprints = []\<rparr>"
    by code_simp
  have v: "valid (validateImportData iso_datetime_form (sample_doc now))"
    by code_simp
  have w: "import_sprints b False (doc_sprints (sample_doc now)) (stats0, empty_db)
       = (Inr (), \<lparr>r_sprints = 1, r_goals = 1, r_criteria = 1, skipped = 0, errors = []\<rparr>,
          sample_db)" if "b = SQLite \<or> b = Dexie" for b
    using that by (elim disjE) (simp, code_simp, simp, code_simp)
  have resolved: "importData SQLite iso_datetime_form (sample_doc now) False empty_db
       = (\<lparr>r_sprints = 0, r_goals = 0, r_criteria = 0, skipped = 0, errors = []\<rparr>, empty_db)"
    using v by (simp add: importData_def sqlite_transaction_def import_work_def stats0_def)
  have later: "importData_settled SQLite iso_datetime_form (sample_doc now) False empty_db
       = (\<lparr>r_sprints = 1, r_goals = 1, r_criteria = 1, skipped = 0, errors = []\<rparr>, sample_db)"
    using v w[of SQLite]
    by (simp add: importData_settled_def sqlite_transaction_def sqlite_left_running_def
        import_work_def)
  have dexie: "importData Dexie iso_datetime_form (sample_doc now) False empty_db
       = (\<lparr>r_sprints = 1, r_goals = 1, r_criteria = 1, skipped = 0, errors = []\<rparr>, sample_db)"
    using v w[of Dexie]
    by (simp add: importData_def dexie_transaction_def import_work_def)
  show ?thesis
    using e1 e0 later resolved dexie e2 by blast
qed

subsection \<open>The same calls on another backend\<close>




end
